(* ===== verification/Prelude.thy ===== *)
theory Prelude
  imports Complex_Main "HOL-Library.Word" "HOL-Library.AList"
    "HOL-Library.Char_ord" "HOL-Library.List_Lexorder" "HOL-Library.Sublist"
begin

text \<open>
  Shared vocabulary of the development: the types that name the data the two tools
  exchange (text lines, raw bytes, Python integers), the collections of facts the
  component theories add to, and the list lemmas that more than one component needs.
\<close>

unbundle bit_operations_syntax

section \<open>Types of the model\<close>

text \<open>
  A Python \<open>str\<close> is a \<open>string\<close>: one \<open>char\<close> per code point below 256. The tools read
  the ASCII output of a disassembler, so this covers their inputs; code points from 256
  on are outside the model. A \<open>bytes\<close> object is a list of 8-bit words. Python integers
  are unbounded and are \<open>int\<close>.
\<close>

type_synonym line = string
type_synonym byte = "8 word"
type_synonym bytes = "byte list"
type_synonym pyint = int

section \<open>Fact collections\<close>

named_theorems model_defs \<open>definitions of operations, unfolded to evaluate a closed instance\<close>
named_theorems table_defs \<open>definitions of the static tables of the two tools\<close>
named_theorems frame \<open>facts that an operation leaves part of its input or state unchanged\<close>

section \<open>Lists\<close>

text \<open>
  The counting loops of the tools compute lengths of filters; a stronger test counts
  less.
\<close>

lemma length_filter_mono:
  "(\<And>x. x \<in> set xs \<Longrightarrow> p x \<Longrightarrow> q x) \<Longrightarrow> length (filter p xs) \<le> length (filter q xs)"
  by (induction xs) auto

lemma length_filter_partition:
  "length (filter p xs) + length (filter (\<lambda>x. \<not> p x) xs) = length xs"
  by (induction xs) auto

lemma filter_partition_disjoint:
  "set (filter p xs) \<inter> set (filter (\<lambda>x. \<not> p x) xs) = {}"
  by auto

lemma filter_partition_union:
  "set (filter p xs) \<union> set (filter (\<lambda>x. \<not> p x) xs) = set xs"
  by auto

text \<open>A maximum computed by a loop, \<open>max(f(x) for x in xs)\<close>, bounds every element.\<close>

lemma fold_max_ge_init: "a \<le> fold max xs (a :: nat)"
  by (induction xs arbitrary: a) (auto intro: order_trans [OF max.cobounded2])

lemma fold_max_ge: "x \<in> set xs \<Longrightarrow> x \<le> fold max xs (a :: nat)"
proof (induction xs arbitrary: a)
  case Nil
  then show ?case by simp
next
  case (Cons y ys)
  show ?case
  proof (cases "x = y")
    case True
    have "max y a \<le> fold max ys (max y a)" by (rule fold_max_ge_init)
    with True show ?thesis by simp
  next
    case False
    with Cons show ?thesis by simp
  qed
qed

text \<open>A dictionary whose values are distinct can be read backwards.\<close>

lemma map_of_inj:
  "distinct (map snd xs) \<Longrightarrow> map_of xs a = Some v \<Longrightarrow> map_of xs b = Some v \<Longrightarrow> a = b"
proof -
  assume d: "distinct (map snd xs)" and "map_of xs a = Some v" "map_of xs b = Some v"
  then have "(a, v) \<in> set xs" "(b, v) \<in> set xs"
    by (auto dest: map_of_SomeD)
  moreover from d have "inj_on snd (set xs)"
    by (simp add: distinct_map)
  ultimately have "(a, v) = (b, v)"
    by (intro inj_onD [of snd "set xs"]) simp_all
  then show ?thesis by simp
qed

text \<open>Slices \<open>xs[i:i+n]\<close> never raise in Python; they are \<open>take n (drop i xs)\<close>.\<close>

definition py_slice :: "'a list \<Rightarrow> nat \<Rightarrow> nat \<Rightarrow> 'a list" where
  "py_slice xs i j = take (j - i) (drop i xs)"

lemma length_py_slice [simp]: "length (py_slice xs i j) = min (j - i) (length xs - i)"
  by (simp add: py_slice_def)

lemma py_slice_0 [simp]: "py_slice xs 0 j = take j xs"
  by (simp add: py_slice_def)

lemma py_slice_append_left:
  "i + n \<le> length xs \<Longrightarrow> py_slice (xs @ ys) i (i + n) = py_slice xs i (i + n)"
  by (simp add: py_slice_def)

lemma py_slice_drop: "py_slice (drop k xs) i (i + n) = py_slice xs (k + i) (k + i + n)"
  by (simp add: py_slice_def ac_simps)

end
