(* ===== verification/PyString.thy ===== *)
theory PyString
  imports Prelude
begin

text \<open>
  The operations of Python's \<open>str\<close> that the two tools call: \<open>str.isspace\<close> on one
  character, \<open>str.split(sep)\<close> with a one-character separator, \<open>str.strip()\<close>,
  \<open>sep.join(xs)\<close> and the substring test \<open>a in b\<close>. They are library code, modelled
  from the language reference; the lemmas are the facts about them that the
  classifier and the report rely on.
\<close>

section \<open>Whitespace\<close>

text \<open>
  The characters below 256 for which \<open>str.isspace\<close> holds; \<open>\s\<close> in a \<open>str\<close> pattern
  and \<open>str.strip()\<close> use the same set: tab to carriage return, the four separators
  \<open>0x1C\<close> to \<open>0x1F\<close>, space, next-line \<open>0x85\<close> and no-break space \<open>0xA0\<close>.
\<close>

definition py_isspace :: "char \<Rightarrow> bool" where
  "py_isspace c = (c \<in> set [CHR 0x09, CHR 0x0A, CHR 0x0B, CHR 0x0C, CHR 0x0D,
      CHR 0x1C, CHR 0x1D, CHR 0x1E, CHR 0x1F, CHR 0x20, CHR 0x85, CHR 0xA0])"

definition newline :: char where
  "newline = CHR 0x0A"

lemma py_isspace_space [simp]: "py_isspace (CHR '' '')"
  by (simp add: py_isspace_def)

lemma py_isspace_newline [simp]: "py_isspace newline"
  by (simp add: py_isspace_def newline_def)

lemma py_isspace_tab [simp]: "py_isspace (CHR 0x09)"
  by (simp add: py_isspace_def)

section \<open>Splitting and joining\<close>

text \<open>
  \<open>s.split(sep)\<close> for a separator of one character: the pieces between the
  occurrences of \<open>sep\<close>, empty pieces kept, so that the result is never empty
  (\<open>"".split("\n") == [""]\<close>).
\<close>

fun split_on :: "char \<Rightarrow> string \<Rightarrow> string list" where
  "split_on sep [] = [[]]"
| "split_on sep (c # cs) =
     (if c = sep then [] # split_on sep cs
      else (case split_on sep cs of
              [] \<Rightarrow> [[c]]
            | p # ps \<Rightarrow> (c # p) # ps))"

text \<open>\<open>sep.join(xs)\<close>.\<close>

fun join :: "string \<Rightarrow> string list \<Rightarrow> string" where
  "join sep [] = []"
| "join sep [x] = x"
| "join sep (x # y # ys) = x @ sep @ join sep (y # ys)"

lemma split_on_nonempty [simp]: "split_on sep s \<noteq> []"
  by (induction s) (auto split: list.splits)

lemma length_split_on: "length (split_on sep s) = Suc (count_list s sep)"
  by (induction s) (auto split: list.splits)

lemma split_on_no_sep: "p \<in> set (split_on sep s) \<Longrightarrow> sep \<notin> set p"
proof (induction s arbitrary: p)
  case Nil
  then show ?case by simp
next
  case (Cons c cs)
  then show ?case
    by (cases "split_on sep cs") (auto split: if_splits)
qed

lemma join_split_on: "join [sep] (split_on sep s) = s"
proof (induction s)
  case Nil
  show ?case by simp
next
  case (Cons c cs)
  obtain p ps where ps: "split_on sep cs = p # ps"
    by (cases "split_on sep cs") auto
  with Cons show ?case
    by (cases ps) auto
qed

lemma split_on_no_sep_id: "sep \<notin> set s \<Longrightarrow> split_on sep s = [s]"
  by (induction s) auto

lemma split_on_append_sep:
  "sep \<notin> set p \<Longrightarrow> split_on sep (p @ sep # s) = p # split_on sep s"
  by (induction p) auto

lemma split_on_join:
  "ps \<noteq> [] \<Longrightarrow> \<forall>p \<in> set ps. sep \<notin> set p \<Longrightarrow> split_on sep (join [sep] ps) = ps"
proof (induction ps)
  case Nil
  then show ?case by simp
next
  case (Cons x ys)
  note outer = this
  show ?case
  proof (cases ys)
    case Nil
    with outer(3) show ?thesis by (simp add: split_on_no_sep_id)
  next
    case (Cons y zs)
    with outer show ?thesis by (simp add: split_on_append_sep)
  qed
qed

section \<open>Stripping\<close>

text \<open>\<open>s.strip()\<close> removes the whitespace at both ends and nothing else.\<close>

definition lstrip :: "string \<Rightarrow> string" where
  "lstrip s = dropWhile py_isspace s"

definition rstrip :: "string \<Rightarrow> string" where
  "rstrip s = rev (dropWhile py_isspace (rev s))"

definition strip :: "string \<Rightarrow> string" where
  "strip s = rstrip (lstrip s)"

lemma lstrip_Nil [simp]: "lstrip [] = []"
  by (simp add: lstrip_def)

lemma rstrip_Nil [simp]: "rstrip [] = []"
  by (simp add: rstrip_def)

lemma strip_Nil [simp]: "strip [] = []"
  by (simp add: strip_def)

lemma lstrip_Cons [simp]:
  "lstrip (c # cs) = (if py_isspace c then lstrip cs else c # cs)"
  by (simp add: lstrip_def)

lemma lstrip_hd: "lstrip s \<noteq> [] \<Longrightarrow> \<not> py_isspace (hd (lstrip s))"
  unfolding lstrip_def by (rule hd_dropWhile)

lemma rstrip_last: "rstrip s \<noteq> [] \<Longrightarrow> \<not> py_isspace (last (rstrip s))"
  unfolding rstrip_def by (simp add: last_rev hd_dropWhile)

lemma rstrip_hd: "s \<noteq> [] \<Longrightarrow> \<not> py_isspace (hd s) \<Longrightarrow> rstrip s \<noteq> [] \<and> hd (rstrip s) = hd s"
proof -
  assume ne: "s \<noteq> []" and h: "\<not> py_isspace (hd s)"
  then obtain c cs where s: "s = c # cs" by (cases s) auto
  have "dropWhile py_isspace (rev cs @ [c]) = dropWhile py_isspace (rev cs) @ [c]"
    using h s by (simp add: dropWhile_append3)
  then show ?thesis
    using s by (simp add: rstrip_def)
qed

lemma strip_ends:
  "strip s \<noteq> [] \<Longrightarrow> \<not> py_isspace (hd (strip s)) \<and> \<not> py_isspace (last (strip s))"
proof -
  assume ne: "strip s \<noteq> []"
  then have l: "lstrip s \<noteq> []" by (auto simp: strip_def)
  from rstrip_hd [OF l lstrip_hd [OF l]] rstrip_last [of "lstrip s"] ne lstrip_hd [OF l]
  show ?thesis by (simp add: strip_def)
qed

lemma lstrip_idem [simp]: "lstrip (lstrip s) = lstrip s"
  by (induction s) auto

lemma rstrip_idem [simp]: "rstrip (rstrip s) = rstrip s"
  by (simp add: rstrip_def dropWhile_idem)

lemma strip_idem: "strip (strip s) = strip s"
proof (cases "lstrip s = []")
  case True
  then show ?thesis by (simp add: strip_def)
next
  case False
  from rstrip_hd [OF False lstrip_hd [OF False]]
  obtain c cs where r: "rstrip (lstrip s) = c # cs" and c: "c = hd (lstrip s)"
    by (cases "rstrip (lstrip s)") auto
  with lstrip_hd [OF False] have "lstrip (rstrip (lstrip s)) = rstrip (lstrip s)"
    by simp
  then show ?thesis by (simp add: strip_def)
qed

lemma strip_sublist: "sublist (strip s) s"
proof -
  have "suffix (lstrip s) s"
    unfolding lstrip_def by (rule suffix_dropWhile)
  moreover have "prefix (rstrip (lstrip s)) (lstrip s)"
    unfolding rstrip_def
    by (metis rev_rev_ident suffix_dropWhile suffix_to_prefix)
  ultimately show ?thesis
    unfolding strip_def by (meson prefix_imp_sublist sublist_order.order.trans suffix_imp_sublist)
qed

section \<open>Substring test\<close>

text \<open>\<open>needle in hay\<close> on strings: does \<open>needle\<close> occur as a contiguous piece of \<open>hay\<close>?\<close>

fun starts_with :: "string \<Rightarrow> string \<Rightarrow> bool" where
  "starts_with [] s = True"
| "starts_with (n # ns) [] = False"
| "starts_with (n # ns) (c # cs) = (if n = c then starts_with ns cs else False)"

fun contains :: "string \<Rightarrow> string \<Rightarrow> bool" where
  "contains needle [] = (needle = [])"
| "contains needle (c # cs) =
     (if starts_with needle (c # cs) then True else contains needle cs)"

lemma starts_with_prefix: "starts_with n s \<longleftrightarrow> prefix n s"
  by (induction n s rule: starts_with.induct) auto

lemma contains_sublist: "contains n s \<longleftrightarrow> sublist n s"
  by (induction s) (auto simp: starts_with_prefix sublist_Cons_right)

section \<open>Formatting integers\<close>

text \<open>
  The conversions \<open>%d\<close> and \<open>%x\<close> of the \<open>%\<close> operator, and \<open>str(n)\<close>: the digits of
  the magnitude in base 10 or 16, most significant first, no leading zeros, lower-case
  letters, and a minus sign before them for a negative number.
\<close>

definition digit_char :: "pyint \<Rightarrow> char" where
  "digit_char d = ''0123456789abcdef'' ! nat d"

function digits_of :: "pyint \<Rightarrow> pyint \<Rightarrow> string" where
  "digits_of base n =
     (if base < 2 \<or> n < base then [digit_char n]
      else digits_of base (n div base) @ [digit_char (n mod base)])"
  by pat_completeness auto
termination
proof (relation "measure (\<lambda>(base, n). nat n)")
  fix base n :: int
  assume "\<not> (base < 2 \<or> n < base)"
  then have "0 < n" "1 < base" by simp_all
  then have "n div base < n" by (rule int_div_less_self)
  with \<open>0 < n\<close> show "((base, n div base), (base, n)) \<in> measure (\<lambda>(base, n). nat n)"
    by simp
qed simp

declare digits_of.simps [simp del]

definition fmt_int :: "pyint \<Rightarrow> pyint \<Rightarrow> string" where
  "fmt_int base n =
     (if n < 0 then ''-'' @ digits_of base (- n) else digits_of base n)"

definition fmt_d :: "pyint \<Rightarrow> string" where
  "fmt_d = fmt_int 10"

definition fmt_x :: "pyint \<Rightarrow> string" where
  "fmt_x = fmt_int 16"

text \<open>Reading digits back: the value of a digit string in a base.\<close>

definition digit_val :: "char \<Rightarrow> pyint" where
  "digit_val c = (if CHR ''0'' \<le> c \<and> c \<le> CHR ''9'' then of_char c - 48 else of_char c - 87)"

definition value_of :: "pyint \<Rightarrow> string \<Rightarrow> pyint" where
  "value_of base s = foldl (\<lambda>acc c. acc * base + digit_val c) 0 s"

lemma digit_char_cases:
  "0 \<le> d \<Longrightarrow> d < 16 \<Longrightarrow> d \<in> set [0, 1, 2, 3, 4, 5, 6, 7, 8, 9, 10, 11, 12, 13, 14, 15 :: int]"
  by simp presburger

lemma digit_val_digit_char: "0 \<le> d \<Longrightarrow> d < 16 \<Longrightarrow> digit_val (digit_char d) = d"
  by (drule (1) digit_char_cases) (auto simp: digit_val_def digit_char_def)

lemma digit_char_is_digit:
  "0 \<le> d \<Longrightarrow> d < 16 \<Longrightarrow> digit_char d \<in> set ''0123456789abcdef''"
  by (drule (1) digit_char_cases) (auto simp: digit_char_def)

lemma digits_of_nonempty [simp]: "digits_of base n \<noteq> []"
  by (subst digits_of.simps) simp

lemma value_of_append:
  "value_of base (s @ [c]) = value_of base s * base + digit_val c"
  by (simp add: value_of_def)

text \<open>Every character that a conversion in a base up to 16 writes is one of its digits.\<close>

lemma digits_of_chars:
  "2 \<le> base \<Longrightarrow> base \<le> 16 \<Longrightarrow> 0 \<le> n \<Longrightarrow>
   set (digits_of base n) \<subseteq> set ''0123456789abcdef''"
proof (induction base n rule: digits_of.induct)
  case (1 base n)
  show ?case
  proof (cases "n < base")
    case True
    with "1.prems" have "digit_char n \<in> set ''0123456789abcdef''"
      by (intro digit_char_is_digit) simp_all
    with True show ?thesis
      by (subst digits_of.simps) simp
  next
    case False
    with "1.prems" have m: "0 \<le> n mod base" "n mod base < 16" and d: "0 \<le> n div base"
      by (simp_all add: pos_imp_zdiv_nonneg_iff order.strict_trans2 [OF pos_mod_bound])
    from m have "digit_char (n mod base) \<in> set ''0123456789abcdef''"
      by (rule digit_char_is_digit)
    moreover from False "1.prems" d
    have "set (digits_of base (n div base)) \<subseteq> set ''0123456789abcdef''"
      by (intro "1.IH") simp_all
    ultimately show ?thesis
      using False "1.prems" by (subst digits_of.simps) simp
  qed
qed

text \<open>Reading the digits back gives the number: the conversion loses nothing.\<close>

lemma value_of_digits_of:
  "2 \<le> base \<Longrightarrow> base \<le> 16 \<Longrightarrow> 0 \<le> n \<Longrightarrow> value_of base (digits_of base n) = n"
proof (induction base n rule: digits_of.induct)
  case (1 base n)
  show ?case
  proof (cases "n < base")
    case True
    with "1.prems" show ?thesis
      by (subst digits_of.simps) (simp add: value_of_def digit_val_digit_char)
  next
    case False
    with "1.prems" have m: "0 \<le> n mod base" "n mod base < 16" and d: "0 \<le> n div base"
      by (simp_all add: pos_imp_zdiv_nonneg_iff order.strict_trans2 [OF pos_mod_bound])
    from False "1.prems" d have "value_of base (digits_of base (n div base)) = n div base"
      by (intro "1.IH") simp_all
    with False "1.prems" m show ?thesis
      by (subst digits_of.simps) (simp add: value_of_append digit_val_digit_char)
  qed
qed

lemma fmt_int_nonneg: "0 \<le> n \<Longrightarrow> fmt_int base n = digits_of base n"
  by (simp add: fmt_int_def)

lemma fmt_int_neg: "n < 0 \<Longrightarrow> fmt_int base n = CHR ''-'' # digits_of base (- n)"
  by (simp add: fmt_int_def)

lemma fmt_int_inj:
  assumes "2 \<le> base" "base \<le> 16" "fmt_int base n = fmt_int base m"
  shows "n = m"
proof -
  have minus: "CHR ''-'' \<notin> set (digits_of base k)" if "0 \<le> k" for k
    using digits_of_chars [OF assms(1,2) that] by auto
  have pos: "digits_of base a = digits_of base b \<Longrightarrow> a = b" if "0 \<le> a" "0 \<le> b" for a b
    using value_of_digits_of [OF assms(1,2) that(1)] value_of_digits_of [OF assms(1,2) that(2)]
    by metis
  have hd: "k < 0 \<Longrightarrow> 0 \<le> j \<Longrightarrow> fmt_int base k \<noteq> fmt_int base j" for k j
    using minus [of j] by (auto simp: fmt_int_neg fmt_int_nonneg) (metis list.set_intros(1))
  show ?thesis
  proof (cases "n < 0"; cases "m < 0")
    assume "n < 0" "m < 0"
    with assms(3) pos [of "- n" "- m"] show ?thesis
      by (simp add: fmt_int_neg)
  next
    assume "\<not> n < 0" "\<not> m < 0"
    with assms(3) pos [of n m] show ?thesis
      by (simp add: fmt_int_nonneg)
  next
    assume "n < 0" "\<not> m < 0"
    with assms(3) hd [of n m] show ?thesis by simp
  next
    assume "\<not> n < 0" "m < 0"
    with assms(3) hd [of m n] show ?thesis by simp
  qed
qed

end
