(* ===== verification/Floats.thy ===== *)
theory Floats
  imports PyString "HOL-Library.Log_Nat"
begin

text \<open>
  Python floats, as far as \<^verbatim>\<open>arm64.inspect.py\<close> computes with them: a float is the
  rational number it stands for, and an operation is the exact operation followed by
  the rounding \<open>rd\<close> to the nearest double, ties to the even significand. Infinities,
  not-a-number and the sign of zero are not represented: the tool divides only by a
  positive count, and its values are far below the largest double.
\<close>

section \<open>Rounding\<close>

type_synonym pyfloat = rat

text \<open>The nearest integer, the even one of two that are equally near.\<close>

definition round_half_even :: "rat \<Rightarrow> int" where
  "round_half_even r =
     (let f = \<lfloor>r\<rfloor>; d = r - of_int f
      in if d < 1 / 2 then f else if 1 / 2 < d then f + 1 else if even f then f else f + 1)"

text \<open>The binary exponent \<open>e\<close> of a number other than 0: \<open>2\<^sup>e \<le> \<bar>q\<bar> < 2\<^sup>e\<^sup>+\<^sup>1\<close>.\<close>

definition expo :: "rat \<Rightarrow> int" where
  "expo q =
     (let (a, b) = quotient_of \<bar>q\<bar>; e0 = bitlen a - bitlen b
      in if of_int b * power_int 2 e0 \<le> (of_int a :: rat) then e0 else e0 - 1)"

text \<open>
  The distance of two neighbouring doubles around \<open>q\<close>: 53 significant bits, and
  \<open>2\<^sup>-\<^sup>1\<^sup>0\<^sup>7\<^sup>4\<close> in the subnormal range.
\<close>

definition ulp :: "rat \<Rightarrow> rat" where
  "ulp q = power_int 2 (max (expo q - 52) (- 1074))"

definition rd :: "rat \<Rightarrow> pyfloat" where
  "rd q = (if q = 0 then 0 else of_int (round_half_even (q / ulp q)) * ulp q)"

section \<open>Operations\<close>

text \<open>\<open>float(n)\<close>, \<open>x * y\<close> and \<open>x / y\<close> on floats, and \<open>a / b\<close> on integers.\<close>

definition float_of_int :: "pyint \<Rightarrow> pyfloat" where
  "float_of_int n = rd (of_int n)"

definition float_mul :: "pyfloat \<Rightarrow> pyfloat \<Rightarrow> pyfloat" where
  "float_mul x y = rd (x * y)"

definition float_div :: "pyfloat \<Rightarrow> pyfloat \<Rightarrow> pyfloat" where
  "float_div x y = rd (x / y)"

definition int_truediv :: "pyint \<Rightarrow> pyint \<Rightarrow> pyfloat" where
  "int_truediv a b = rd (of_int a / of_int b)"

section \<open>Formatting\<close>

text \<open>\<open>s.rjust(n, "0")\<close>.\<close>

definition zfill :: "nat \<Rightarrow> string \<Rightarrow> string" where
  "zfill n s = replicate (n - length s) (CHR ''0'') @ s"

text \<open>
  The format \<open>.<p>f\<close>: the decimal with \<open>p\<close> digits after the point that is nearest to
  the value, ties to the even last digit.
\<close>

definition fmt_f :: "nat \<Rightarrow> pyfloat \<Rightarrow> string" where
  "fmt_f p x =
     (let n = round_half_even (\<bar>x\<bar> * 10 ^ p);
          body = fmt_d (n div 10 ^ p) @ (if p = 0 then [] else CHR ''.'' # zfill p (fmt_d (n mod 10 ^ p)))
      in if x < 0 then CHR ''-'' # body else body)"

text \<open>
  \<open>repr(x)\<close> and \<open>str(x)\<close>: the shortest digit string that rounds to \<open>x\<close>, the one
  nearest to \<open>x\<close> if there are two, the one with the even last digit if both are
  equally near. \<open>dec_expo\<close> is the decimal exponent \<open>k\<close> with \<open>10\<^sup>k \<le> x < 10\<^sup>k\<^sup>+\<^sup>1\<close>;
  \<open>best_candidate n x\<close> looks at the two numbers with \<open>n\<close> significant digits around
  \<open>x\<close> and returns one that rounds to \<open>x\<close>, as an integer and the exponent of its unit.
  Seventeen digits identify a double, so the search of \<open>shortest\<close> from 1 digit with
  fuel 17 ends before the fuel does.
\<close>

definition dec_expo :: "rat \<Rightarrow> int" where
  "dec_expo x =
     (let (a, b) = quotient_of x;
          k0 = int (length (digits_of 10 a)) - int (length (digits_of 10 b))
      in if of_int b * power_int 10 k0 \<le> (of_int a :: rat) then k0 else k0 - 1)"

definition best_candidate :: "nat \<Rightarrow> rat \<Rightarrow> (int \<times> int) option" where
  "best_candidate n x =
     (let j = dec_expo x - int n + 1; u = power_int 10 j; lo = \<lfloor>x / u\<rfloor>;
          ok = (\<lambda>c. rd (of_int c * u) = x);
          below = x - of_int lo * u; above = of_int (lo + 1) * u - x
      in if ok lo \<and> ok (lo + 1)
         then Some (if below < above \<or> below = above \<and> even lo then lo else lo + 1, j)
         else if ok lo then Some (lo, j)
         else if ok (lo + 1) then Some (lo + 1, j)
         else None)"

fun shortest :: "nat \<Rightarrow> nat \<Rightarrow> rat \<Rightarrow> int \<times> int" where
  "shortest 0 n x =
     (let j = dec_expo x - int n + 1 in (round_half_even (x / power_int 10 j), j))"
| "shortest (Suc fuel) n x =
     (case best_candidate n x of Some c \<Rightarrow> c | None \<Rightarrow> shortest fuel (Suc n) x)"

text \<open>Trailing zeros of the digits go into the exponent.\<close>

definition rstrip0 :: "string \<Rightarrow> string" where
  "rstrip0 s = rev (dropWhile (\<lambda>c. c = CHR ''0'') (rev s))"

text \<open>
  The digits are laid out with a point, or with an exponent when the point would be
  more than 16 places right of the first digit or more than 4 places left of it.
\<close>

definition repr_pos :: "rat \<Rightarrow> string" where
  "repr_pos x =
     (let (c, j) = shortest 17 1 x;
          all = fmt_d c;
          ds = rstrip0 all;
          decpt = int (length all) + j;
          nd = int (length ds)
      in if decpt \<le> - 4 \<or> 16 < decpt then
           take 1 ds @ (if 1 < nd then CHR ''.'' # drop 1 ds else [])
             @ ''e'' @ (if decpt - 1 < 0 then ''-'' else ''+'') @ zfill 2 (fmt_d \<bar>decpt - 1\<bar>)
         else if decpt \<le> 0 then ''0.'' @ replicate (nat (- decpt)) (CHR ''0'') @ ds
         else if decpt < nd then take (nat decpt) ds @ ''.'' @ drop (nat decpt) ds
         else ds @ replicate (nat (decpt - nd)) (CHR ''0'') @ ''.0'')"

definition float_repr :: "pyfloat \<Rightarrow> string" where
  "float_repr x =
     (if x = 0 then ''0.0'' else if x < 0 then CHR ''-'' # repr_pos (- x) else repr_pos x)"

section \<open>Rounding to an integer\<close>

lemma round_half_even_cases:
  "round_half_even r = \<lfloor>r\<rfloor> \<or> round_half_even r = \<lfloor>r\<rfloor> + 1 \<and> 1 / 2 \<le> r - of_int \<lfloor>r\<rfloor>"
  by (auto simp: round_half_even_def Let_def)

lemma round_half_even_of_int [simp]: "round_half_even (of_int n) = n"
  by (simp add: round_half_even_def)

lemma round_half_even_0 [simp]: "round_half_even 0 = 0"
  using round_half_even_of_int [of 0] by simp

lemma round_half_even_le: "r \<le> of_int n \<Longrightarrow> round_half_even r \<le> n"
  using round_half_even_cases [of r] by (auto simp: floor_le_iff)

lemma round_half_even_ge: "of_int n \<le> r \<Longrightarrow> n \<le> round_half_even r"
proof -
  assume "of_int n \<le> r"
  then have "n \<le> \<lfloor>r\<rfloor>" by (simp add: le_floor_iff)
  with round_half_even_cases [of r] show ?thesis by auto
qed

lemma round_half_even_error: "\<bar>of_int (round_half_even r) - r\<bar> \<le> 1 / 2"
proof -
  have "of_int \<lfloor>r\<rfloor> \<le> r" "r < of_int \<lfloor>r\<rfloor> + 1" by linarith+
  then show ?thesis
    unfolding round_half_even_def Let_def by (simp add: abs_le_iff)
qed

section \<open>The exponent\<close>

lemma bitlen_powi:
  assumes "0 < a"
  shows "power_int 2 (bitlen a - 1) \<le> (of_int a :: rat)" "(of_int a :: rat) < power_int 2 (bitlen a)"
proof -
  from assms have pos: "1 \<le> bitlen a" by (simp add: bitlen_alt_def)
  from bitlen_bounds [OF assms] have "(2 :: int) ^ nat (bitlen a - 1) \<le> a" "a < 2 ^ nat (bitlen a)"
    by simp_all
  then have "(of_int (2 ^ nat (bitlen a - 1)) :: rat) \<le> of_int a" "(of_int a :: rat) < of_int (2 ^ nat (bitlen a))"
    by (simp_all only: of_int_le_iff of_int_less_iff)
  with pos show "power_int 2 (bitlen a - 1) \<le> (of_int a :: rat)" "(of_int a :: rat) < power_int 2 (bitlen a)"
    by (simp_all add: power_int_nonneg_exp)
qed

lemma expo_bounds:
  assumes "q \<noteq> 0"
  shows "power_int 2 (expo q) \<le> \<bar>q\<bar>" "\<bar>q\<bar> < power_int 2 (expo q + 1)"
proof -
  obtain a b where ab: "quotient_of \<bar>q\<bar> = (a, b)" by (cases "quotient_of \<bar>q\<bar>")
  then have b: "0 < b" and q: "\<bar>q\<bar> = of_int a / of_int b"
    by (auto simp: quotient_of_denom_pos quotient_of_div)
  from assms have "0 < \<bar>q\<bar>" by simp
  with b q have a: "0 < a" by (simp add: zero_less_divide_iff)
  let ?e0 = "bitlen a - bitlen b"
  from bitlen_powi(1) [OF a] bitlen_powi(2) [OF b] b
  have "power_int 2 (bitlen a - 1) * of_int b < (of_int a :: rat) * power_int 2 (bitlen b)"
    by (intro mult_le_less_imp_less) simp_all
  moreover from bitlen_powi(2) [OF a] bitlen_powi(1) [OF b] a
  have "(of_int a :: rat) * power_int 2 (bitlen b - 1) < power_int 2 (bitlen a) * of_int b"
    by (intro mult_less_le_imp_less) simp_all
  ultimately
  have lo: "power_int 2 (?e0 - 1) * of_int b < (of_int a :: rat)"
    and hi: "(of_int a :: rat) < power_int 2 (?e0 + 1) * of_int b"
    by (simp_all add: power_int_diff power_int_add field_simps)
  have e: "expo q = (if of_int b * power_int 2 ?e0 \<le> (of_int a :: rat) then ?e0 else ?e0 - 1)"
    by (simp add: expo_def ab)
  show "power_int 2 (expo q) \<le> \<bar>q\<bar>" "\<bar>q\<bar> < power_int 2 (expo q + 1)"
    unfolding e q using lo hi b by (auto simp: field_simps)
qed

lemma powi2_less_iff [simp]: "power_int (2 :: rat) m < power_int 2 n \<longleftrightarrow> m < n"
  using power_int_strict_increasing [of m n "2 :: rat"] power_int_increasing [of n m "2 :: rat"]
  by (auto simp: not_less [symmetric])

lemma powi2_le_iff [simp]: "power_int (2 :: rat) m \<le> power_int 2 n \<longleftrightarrow> m \<le> n"
  using powi2_less_iff [of n m] by (simp only: not_less [symmetric])

lemma expo_less: "q \<noteq> 0 \<Longrightarrow> \<bar>q\<bar> < power_int 2 k \<Longrightarrow> expo q < k"
  using expo_bounds(1) [of q] powi2_less_iff [of "expo q" k] by linarith

lemma expo_ge: "q \<noteq> 0 \<Longrightarrow> power_int 2 k \<le> \<bar>q\<bar> \<Longrightarrow> k \<le> expo q"
  using expo_bounds(2) [of q] powi2_less_iff [of k "expo q + 1"] by linarith

lemma expo_eq:
  "power_int 2 k \<le> \<bar>q\<bar> \<Longrightarrow> \<bar>q\<bar> < power_int 2 (k + 1) \<Longrightarrow> expo q = k"
proof -
  assume lo: "power_int 2 k \<le> \<bar>q\<bar>" and hi: "\<bar>q\<bar> < power_int 2 (k + 1)"
  have "0 < power_int (2 :: rat) k" by simp
  from this lo have "0 < \<bar>q\<bar>" by (rule less_le_trans)
  then have "q \<noteq> 0" by simp
  from expo_ge [OF this lo] expo_less [OF this hi] show ?thesis by simp
qed

section \<open>Rounding to a double\<close>

lemma ulp_pos [simp]: "0 < ulp q"
  by (simp add: ulp_def)

lemma ulp_neq0 [simp]: "ulp q \<noteq> 0"
  by (simp add: ulp_def)

lemma ulp_nonneg [simp]: "0 \<le> ulp q"
  by (rule less_imp_le) (rule ulp_pos)

lemma expo_0: "expo 0 = - 2"
  by code_simp

lemma rd_0 [simp]: "rd 0 = 0"
  by (simp add: rd_def)

lemma rd_eq: "rd q = of_int (round_half_even (q / ulp q)) * ulp q"
  by (simp add: rd_def)

text \<open>A number on the grid of its own exponent is a double.\<close>

lemma rd_exact:
  assumes "q / ulp q = of_int m"
  shows "rd q = q"
proof -
  have "rd q = q / ulp q * ulp q" unfolding rd_eq assms by simp
  then show ?thesis by simp
qed

text \<open>Rounding does not cross a number on the grid.\<close>

lemma rd_le:
  assumes "q \<le> x" and "x / ulp q = of_int n"
  shows "rd q \<le> x"
proof -
  from divide_right_mono [OF assms(1), of "ulp q"] assms(2) have "q / ulp q \<le> of_int n"
    by simp
  then have "round_half_even (q / ulp q) \<le> n" by (rule round_half_even_le)
  then have "of_int (round_half_even (q / ulp q)) * ulp q \<le> of_int n * ulp q"
    by (intro mult_right_mono) simp_all
  with assms(2) show ?thesis by (simp add: rd_eq field_simps)
qed

lemma rd_ge:
  assumes "x \<le> q" and "x / ulp q = of_int n"
  shows "x \<le> rd q"
proof -
  from divide_right_mono [OF assms(1), of "ulp q"] assms(2) have "of_int n \<le> q / ulp q"
    by simp
  then have "n \<le> round_half_even (q / ulp q)" by (rule round_half_even_ge)
  then have "of_int n * ulp q \<le> of_int (round_half_even (q / ulp q)) * ulp q"
    by (intro mult_right_mono) simp_all
  with assms(2) show ?thesis by (simp add: rd_eq field_simps)
qed

lemma rd_nonneg: "0 \<le> q \<Longrightarrow> 0 \<le> rd q"
  by (rule rd_ge [where n = 0]) simp_all

lemma rd_error: "\<bar>rd q - q\<bar> \<le> ulp q / 2"
proof -
  have "rd q - q = (of_int (round_half_even (q / ulp q)) - q / ulp q) * ulp q"
    by (simp add: rd_eq field_simps)
  then have "\<bar>rd q - q\<bar> = \<bar>of_int (round_half_even (q / ulp q)) - q / ulp q\<bar> * ulp q"
    by (simp add: abs_mult)
  also have "\<dots> \<le> 1 / 2 * ulp q"
    by (intro mult_right_mono round_half_even_error) simp
  finally show ?thesis by simp
qed

text \<open>Below \<open>2\<^sup>5\<^sup>3\<close> every integer is on the grid.\<close>

lemma int_on_grid:
  assumes "\<bar>q\<bar> < 2 ^ 53"
  shows "\<exists>n. of_int m / ulp q = of_int n"
proof -
  define k where "k = max (expo q - 52) (- 1074)"
  have "k \<le> 0"
  proof (cases "q = 0")
    case True
    then show ?thesis by (simp add: k_def expo_0)
  next
    case False
    from assms have "\<bar>q\<bar> < power_int 2 53" by simp
    from expo_less [OF False this] show ?thesis by (simp add: k_def)
  qed
  then have "ulp q = 1 / 2 ^ nat (- k)"
    by (simp add: ulp_def k_def [symmetric] power_int_def inverse_eq_divide power_one_over [symmetric])
  then have "of_int m / ulp q = of_int (m * 2 ^ nat (- k))" by simp
  then show ?thesis ..
qed

lemma rd_of_int: "\<bar>n\<bar> < 2 ^ 53 \<Longrightarrow> rd (of_int n) = of_int n"
proof -
  assume "\<bar>n\<bar> < 2 ^ 53"
  then have "\<bar>of_int n :: rat\<bar> < 2 ^ 53"
    by (metis of_int_abs of_int_less_iff of_int_numeral of_int_power)
  from int_on_grid [OF this, of n] show ?thesis by (auto intro: rd_exact)
qed

lemma rd_le_int: "\<bar>q\<bar> < 2 ^ 53 \<Longrightarrow> q \<le> of_int m \<Longrightarrow> rd q \<le> of_int m"
  using int_on_grid [of q m] by (auto intro: rd_le)

lemma rd_ge_int: "\<bar>q\<bar> < 2 ^ 53 \<Longrightarrow> of_int m \<le> q \<Longrightarrow> of_int m \<le> rd q"
  using int_on_grid [of q m] by (auto intro: rd_ge)

text \<open>The significand of a rounded number has at most 53 bits.\<close>

lemma round_half_even_abs_le: "\<bar>r\<bar> \<le> of_int n \<Longrightarrow> \<bar>round_half_even r\<bar> \<le> n"
  using round_half_even_le [of r n] round_half_even_ge [of "- n" r] by (simp add: abs_le_iff)

lemma ulp_powi: "ulp q = power_int 2 (max (expo q - 52) (- 1074))"
  by (simp add: ulp_def)

lemma significand_bound:
  assumes "q \<noteq> 0"
  shows "\<bar>round_half_even (q / ulp q)\<bar> \<le> 2 ^ 53"
proof -
  let ?k = "max (expo q - 52) (- 1074)"
  have "\<bar>q\<bar> < power_int 2 (expo q + 1)" using assms by (rule expo_bounds)
  also have "\<dots> \<le> power_int 2 (?k + 53)" by simp
  also have "\<dots> = 2 ^ 53 * ulp q" by (simp add: ulp_powi power_int_add)
  finally have "\<bar>q / ulp q\<bar> < 2 ^ 53" by (simp add: abs_divide divide_less_eq)
  then have "\<bar>q / ulp q\<bar> \<le> of_int (2 ^ 53)" by simp
  then show ?thesis by (rule round_half_even_abs_le)
qed

text \<open>The result of rounding is a double: rounding it again changes nothing.\<close>

lemma rd_idem: "rd (rd q) = rd q"
proof (cases "rd q = 0")
  case True
  then show ?thesis by simp
next
  case False
  then have q: "q \<noteq> 0" by auto
  define k where "k = max (expo q - 52) (- 1074)"
  define m where "m = round_half_even (q / ulp q)"
  define k' where "k' = max (expo (rd q) - 52) (- 1074)"
  have rdq: "rd q = of_int m * power_int 2 k" and u': "ulp (rd q) = power_int 2 k'"
    by (simp_all add: rd_eq m_def k_def k'_def ulp_powi)
  from significand_bound [OF q] have m: "\<bar>m\<bar> \<le> 2 ^ 53" by (simp add: m_def)
  then have "\<bar>of_int m :: rat\<bar> \<le> 2 ^ 53"
    by (metis of_int_abs of_int_le_iff of_int_numeral of_int_power)
  then have "\<bar>rd q\<bar> \<le> 2 ^ 53 * power_int 2 k"
    by (simp add: rdq abs_mult mult_right_mono)
  also have "\<dots> < power_int 2 (k + 54)" by (simp add: power_int_add)
  finally have "expo (rd q) < k + 54" using False by (intro expo_less)
  then have le: "k' \<le> k + 1" by (simp add: k'_def k_def)
  have "\<exists>n. rd q / ulp (rd q) = of_int n"
  proof (cases "k' \<le> k")
    case True
    then have "power_int (2 :: rat) k = 2 ^ nat (k - k') * power_int 2 k'"
      using power_int_add [of "2 :: rat" "k - k'" k'] by (simp add: power_int_nonneg_exp)
    then have "rd q / ulp (rd q) = of_int (m * 2 ^ nat (k - k'))"
      unfolding u' by (simp add: rdq)
    then show ?thesis ..
  next
    case False
    with le have k': "k' = k + 1" by simp
    then have "expo (rd q) = k + 53" by (simp add: k'_def k_def split: if_splits)
    with expo_bounds(1) [OF \<open>rd q \<noteq> 0\<close>] have "2 ^ 53 * power_int 2 k \<le> \<bar>of_int m :: rat\<bar> * power_int 2 k"
      by (simp add: rdq abs_mult power_int_add mult.commute)
    then have "(2 :: rat) ^ 53 \<le> \<bar>of_int m\<bar>" by simp
    then have "2 ^ 53 \<le> \<bar>m\<bar>"
      by (metis of_int_abs of_int_le_iff of_int_numeral of_int_power)
    with m have "\<bar>m\<bar> = 2 ^ 53" by simp
    then have "even \<bar>m\<bar>" by simp
    then have "even m" by simp
    then obtain j where "m = 2 * j" ..
    then have "rd q / ulp (rd q) = of_int j"
      unfolding u' by (simp add: rdq k' power_int_add)
    then show ?thesis ..
  qed
  then show ?thesis by (auto intro: rd_exact)
qed

section \<open>Nearest\<close>

lemma round_half_even_nearest: "\<bar>of_int (round_half_even r) - r\<bar> \<le> \<bar>of_int j - r\<bar>"
proof (cases "j = round_half_even r")
  case False
  then have "1 \<le> \<bar>j - round_half_even r\<bar>" by simp
  then have "(1 :: rat) \<le> \<bar>of_int j - of_int (round_half_even r)\<bar>"
    by (metis of_int_1 of_int_abs of_int_diff of_int_le_iff)
  with round_half_even_error [of r] show ?thesis by linarith
qed simp

text \<open>Among the numbers on the grid of \<open>q\<close>, none is nearer to \<open>q\<close> than \<open>rd q\<close>.\<close>

lemma rd_nearest_on_grid:
  assumes "y / ulp q = of_int j"
  shows "\<bar>rd q - q\<bar> \<le> \<bar>y - q\<bar>"
proof -
  have "rd q - q = (of_int (round_half_even (q / ulp q)) - q / ulp q) * ulp q"
    by (simp add: rd_eq field_simps)
  then have "\<bar>rd q - q\<bar> = \<bar>of_int (round_half_even (q / ulp q)) - q / ulp q\<bar> * ulp q"
    by (simp add: abs_mult)
  also have "\<dots> \<le> \<bar>of_int j - q / ulp q\<bar> * ulp q"
    by (intro mult_right_mono round_half_even_nearest) simp
  also have "\<dots> = \<bar>(of_int j - q / ulp q) * ulp q\<bar>"
    by (simp add: abs_mult)
  also have "(of_int j - q / ulp q) * ulp q = y - q"
    by (simp add: assms [symmetric] field_simps)
  finally show ?thesis .
qed

text \<open>A double is on the grid of \<open>q\<close>, or its magnitude is below the binade of \<open>q\<close>.\<close>

lemma double_on_grid:
  assumes "rd y = y" and "q \<noteq> 0"
  shows "(\<exists>j. y / ulp q = of_int j) \<or> (\<bar>y\<bar> < power_int 2 (expo q) \<and> - 1074 < expo q - 52)"
proof (cases "y = 0")
  case True
  then have "y / ulp q = of_int 0" by simp
  then show ?thesis by blast
next
  case False
  let ?k = "max (expo q - 52) (- 1074)" and ?k' = "max (expo y - 52) (- 1074)"
  define n where "n = round_half_even (y / ulp y)"
  from assms(1) have y: "y = of_int n * ulp y"
    by (simp add: rd_eq n_def)
  show ?thesis
  proof (cases "?k \<le> ?k'")
    case True
    then have "ulp y = 2 ^ nat (?k' - ?k) * ulp q"
      using power_int_add [of "2 :: rat" "?k' - ?k" ?k]
      by (simp add: power_int_nonneg_exp ulp_powi)
    then have "of_int n * ulp y / ulp q = of_int (n * 2 ^ nat (?k' - ?k))" by simp
    with y have "y / ulp q = of_int (n * 2 ^ nat (?k' - ?k))" by simp
    then show ?thesis by blast
  next
    case False
    then have lt: "expo y < expo q" "- 1074 < expo q - 52" by simp_all
    from expo_bounds(2) [OF \<open>y \<noteq> 0\<close>] have "\<bar>y\<bar> < power_int 2 (expo y + 1)" .
    also from lt(1) have "\<dots> \<le> power_int 2 (expo q)" by simp
    finally show ?thesis using lt(2) by blast
  qed
qed

section \<open>Digits\<close>

lemma div_less_power:
  fixes base n :: int
  assumes "0 < base" and "n < base * b"
  shows "n div base < b"
proof -
  from assms(1) have "base * (n div base) \<le> n"
    using pos_mod_sign [of base n] mult_div_mod_eq [of base n] by linarith
  with assms(2) have "base * (n div base) < base * b" by simp
  with assms(1) show ?thesis by (simp add: mult_less_cancel_left_pos)
qed

lemma length_digits_of:
  "2 \<le> base \<Longrightarrow> 0 \<le> n \<Longrightarrow> n < base ^ p \<Longrightarrow> 0 < p \<Longrightarrow> length (digits_of base n) \<le> p"
proof (induction base n arbitrary: p rule: digits_of.induct)
  case (1 base n)
  show ?case
  proof (cases "n < base")
    case True
    with "1.prems" show ?thesis by (subst digits_of.simps) simp
  next
    case False
    obtain p' where p: "p = Suc p'" using "1.prems"(4) by (cases p) auto
    from False "1.prems" p have "0 < p'" by (cases p') auto
    moreover from "1.prems" p have "n div base < base ^ p'"
      by (intro div_less_power) simp_all
    moreover from "1.prems" have "0 \<le> n div base" by (simp add: pos_imp_zdiv_nonneg_iff)
    ultimately have "length (digits_of base (n div base)) \<le> p'"
      using False "1.prems"(1) by (intro "1.IH") simp_all
    with False "1.prems"(1) p show ?thesis by (subst digits_of.simps) simp
  qed
qed

lemma value_of_zeros: "value_of base (replicate k (CHR ''0'') @ s) = value_of base s"
  by (induction k) (simp_all add: value_of_def digit_val_def)

lemma value_of_zfill [simp]: "value_of base (zfill p s) = value_of base s"
  by (simp add: zfill_def value_of_zeros)

lemma length_zfill: "length s \<le> p \<Longrightarrow> length (zfill p s) = p"
  by (simp add: zfill_def)

section \<open>The fixed-point format\<close>

lemma fmt_f_nonneg:
  "0 \<le> x \<Longrightarrow> 0 < p \<Longrightarrow>
   fmt_f p x = fmt_d (round_half_even (x * 10 ^ p) div 10 ^ p)
     @ CHR ''.'' # zfill p (fmt_d (round_half_even (x * 10 ^ p) mod 10 ^ p))"
  by (simp add: fmt_f_def Let_def)

section \<open>The shortest digits\<close>

text \<open>The digits that the search finds round to the number they are printed for.\<close>

lemma best_candidate_sound:
  "best_candidate n x = Some (c, j) \<Longrightarrow> rd (of_int c * power_int 10 j) = x"
  by (auto simp: best_candidate_def Let_def split: if_splits)

section \<open>Properties\<close>



text \<open>
  C32 (roundtrip). What the formats \<open>.2f\<close> and \<open>.1f\<close> print can be read back: for a
  number that is not negative the text is digits, a point and as many digits as the
  format asks for, and the decimal it spells differs from the number by at most half
  a unit of its last digit.
\<close>

theorem fmt_f_roundtrip:
  assumes "0 \<le> x" and "0 < p"
  shows "\<exists>i f. fmt_f p x = i @ ''.'' @ f \<and> length f = p \<and>
           \<bar>of_int (value_of 10 i) + of_int (value_of 10 f) / 10 ^ p - x\<bar> \<le> 1 / (2 * 10 ^ p)"
proof -
  define n where "n = round_half_even (x * 10 ^ p)"
  let ?i = "fmt_d (n div 10 ^ p)" and ?f = "zfill p (fmt_d (n mod 10 ^ p))"
  from assms(1) have "of_int 0 \<le> x * 10 ^ p" by simp
  then have n: "0 \<le> n" unfolding n_def by (rule round_half_even_ge)
  then have d: "0 \<le> n div 10 ^ p" by (simp add: pos_imp_zdiv_nonneg_iff)
  have m: "0 \<le> n mod 10 ^ p" "n mod 10 ^ p < 10 ^ p" by simp_all
  from d have vi: "value_of 10 ?i = n div 10 ^ p"
    by (simp add: fmt_d_def fmt_int_nonneg value_of_digits_of)
  from m have vf: "value_of 10 (fmt_d (n mod 10 ^ p)) = n mod 10 ^ p"
    by (simp add: fmt_d_def fmt_int_nonneg value_of_digits_of)
  from m assms(2) have lf: "length ?f = p"
    by (intro length_zfill) (simp add: fmt_d_def fmt_int_nonneg length_digits_of)
  have "(of_int n :: rat) = of_int (n div 10 ^ p) * 10 ^ p + of_int (n mod 10 ^ p)"
    by (metis (no_types, lifting) mult_div_mod_eq mult_of_int_commute
        numeral_power_eq_of_int_cancel_iff of_int_add of_int_mult)
  then have "(of_int (n div 10 ^ p) :: rat) + of_int (n mod 10 ^ p) / 10 ^ p = of_int n / 10 ^ p"
    by (simp add: field_simps)
  then have "of_int (value_of 10 ?i) + of_int (value_of 10 ?f) / 10 ^ p - x
      = (of_int n - x * 10 ^ p) / 10 ^ p"
    by (simp add: vi vf diff_divide_distrib)
  then have "\<bar>of_int (value_of 10 ?i) + of_int (value_of 10 ?f) / 10 ^ p - x\<bar>
      = \<bar>of_int n - x * 10 ^ p\<bar> / 10 ^ p"
    by (simp only: abs_divide) simp
  also have "\<dots> \<le> (1 / 2) / 10 ^ p"
    unfolding n_def by (intro divide_right_mono round_half_even_error) simp
  finally have "\<bar>of_int (value_of 10 ?i) + of_int (value_of 10 ?f) / 10 ^ p - x\<bar> \<le> 1 / (2 * 10 ^ p)"
    by simp
  with lf fmt_f_nonneg [OF assms] show ?thesis
    unfolding n_def [symmetric] by (intro exI [of _ ?i] exI [of _ ?f]) simp
qed

theorem fmt_f_roundtrip_witness:
  "\<exists>i f. fmt_f 2 (1 / 3) = i @ ''.'' @ f \<and> length f = 2 \<and>
     \<bar>of_int (value_of 10 i) + of_int (value_of 10 f) / 10 ^ 2 - 1 / 3\<bar> \<le> (1 / (2 * 10 ^ 2) :: rat)"
  using fmt_f_roundtrip [of "1 / 3" 2] by simp

end
