(* ===== verification/PyRegex.thy ===== *)
theory PyRegex
  imports PyString
begin

text \<open>
  The part of Python's \<open>re\<close> module that the classifier calls: \<open>re.search(pattern, line)\<close>
  used as a truth value. A pattern is held in parsed form (\<open>rexp\<close>, with a flag for a
  leading \<open>^\<close>). What a pattern matches is given twice: as an inductive relation
  \<open>matches\<close>, which is the specification, and as a derivative-based matcher
  \<open>re_search\<close>, which computes. The section on correctness shows that they agree, so
  every fact proved about the classifier through \<open>re_search\<close> is a fact about the
  strings the pattern denotes.

  Only the existence of a match is modelled. A backtracking engine such as Python's
  finds a match exactly when one exists, so for the constructs below (no
  back-references, no look-around) the truth value of \<open>re.search\<close> is the one given here.
\<close>

section \<open>Patterns\<close>

text \<open>An item of a bracket expression: one character, or a range \<open>a-f\<close>.\<close>

datatype citem = CChar char | CRange char char

text \<open>
  What matches one character: a literal, a bracket expression \<open>[...]\<close>, a negated
  bracket expression \<open>[^...]\<close>, the class \<open>\s\<close>, or \<open>.\<close> (any character but a newline:
  the tools compile no pattern with DOTALL).
\<close>

datatype atom = Lit char | Cls "citem list" | NCls "citem list" | Space | AnyChar

datatype rexp =
    Zero
  | One
  | Atom atom
  | Alt rexp rexp
  | Seq rexp rexp
  | Star rexp

text \<open>
  \<open>Zero\<close> matches nothing; no pattern of the tools contains it, it is what is left of
  a pattern after a character that it cannot start with. \<open>One\<close> is the empty pattern.
\<close>

datatype pattern = Unanchored rexp | Anchored rexp

fun in_citem :: "char \<Rightarrow> citem \<Rightarrow> bool" where
  "in_citem c (CChar d) = (c = d)"
| "in_citem c (CRange lo hi) = (lo \<le> c \<and> c \<le> hi)"

fun accepts :: "atom \<Rightarrow> char \<Rightarrow> bool" where
  "accepts (Lit d) c = (c = d)"
| "accepts (Cls items) c = list_ex (in_citem c) items"
| "accepts (NCls items) c = (\<not> list_ex (in_citem c) items)"
| "accepts Space c = py_isspace c"
| "accepts AnyChar c = (c \<noteq> newline)"

subsection \<open>Notation of the pattern language as functions\<close>

text \<open>
  \<open>Str ''abc''\<close> is the pattern \<open>abc\<close>; \<open>Alts [r, s, t]\<close> is \<open>r|s|t\<close>; \<open>Plus1 r\<close> is \<open>r+\<close>.
\<close>

fun Str :: "string \<Rightarrow> rexp" where
  "Str [] = One"
| "Str [c] = Atom (Lit c)"
| "Str (c # d # cs) = Seq (Atom (Lit c)) (Str (d # cs))"

fun Alts :: "rexp list \<Rightarrow> rexp" where
  "Alts [] = Zero"
| "Alts [r] = r"
| "Alts (r # s # rs) = Alt r (Alts (s # rs))"

definition Plus1 :: "rexp \<Rightarrow> rexp" where
  "Plus1 r = Seq r (Star r)"

fun Seqs :: "rexp list \<Rightarrow> rexp" where
  "Seqs [] = One"
| "Seqs [r] = r"
| "Seqs (r # s # rs) = Seq r (Seqs (s # rs))"

section \<open>Specification: the strings a pattern matches\<close>

inductive matches :: "rexp \<Rightarrow> string \<Rightarrow> bool" where
  m_One: "matches One []"
| m_Atom: "accepts a c \<Longrightarrow> matches (Atom a) [c]"
| m_AltL: "matches r s \<Longrightarrow> matches (Alt r r') s"
| m_AltR: "matches r' s \<Longrightarrow> matches (Alt r r') s"
| m_Seq: "matches r u \<Longrightarrow> matches r' v \<Longrightarrow> matches (Seq r r') (u @ v)"
| m_StarNil: "matches (Star r) []"
| m_StarApp: "matches r u \<Longrightarrow> matches (Star r) v \<Longrightarrow> matches (Star r) (u @ v)"

inductive_cases m_ZeroE [elim!]: "matches Zero s"
inductive_cases m_OneE [elim!]: "matches One s"
inductive_cases m_AtomE [elim!]: "matches (Atom a) s"
inductive_cases m_AltE [elim!]: "matches (Alt r r') s"
inductive_cases m_SeqE [elim!]: "matches (Seq r r') s"
inductive_cases m_StarE: "matches (Star r) s"

inductive_simps matches_Zero [simp]: "matches Zero s"
inductive_simps matches_One [simp]: "matches One s"
inductive_simps matches_Atom: "matches (Atom a) s"
inductive_simps matches_Alt [simp]: "matches (Alt r r') s"
inductive_simps matches_Seq: "matches (Seq r r') s"

lemmas matches_intros [intro] = m_One m_Atom m_AltL m_AltR m_Seq m_StarNil m_StarApp

text \<open>
  \<open>search_spec\<close> is what \<open>re.search\<close> promises for an unanchored pattern: some
  contiguous piece of the line matches. \<open>match_spec\<close> is the promise of \<open>re.match\<close>, and
  of \<open>re.search\<close> with a leading \<open>^\<close>: some prefix of the line matches.
\<close>

definition match_spec :: "rexp \<Rightarrow> string \<Rightarrow> bool" where
  "match_spec r s \<longleftrightarrow> (\<exists>u v. s = u @ v \<and> matches r u)"

definition search_spec :: "rexp \<Rightarrow> string \<Rightarrow> bool" where
  "search_spec r s \<longleftrightarrow> (\<exists>u v w. s = u @ v @ w \<and> matches r v)"

section \<open>Implementation: matching by derivatives\<close>

primrec nullable :: "rexp \<Rightarrow> bool" where
  "nullable Zero = False"
| "nullable One = True"
| "nullable (Atom a) = False"
| "nullable (Alt r s) = (if nullable r then True else nullable s)"
| "nullable (Seq r s) = (if nullable r then nullable s else False)"
| "nullable (Star r) = True"

text \<open>Constructors that drop \<open>Zero\<close> and \<open>One\<close> where they change nothing.\<close>

fun alt :: "rexp \<Rightarrow> rexp \<Rightarrow> rexp" where
  "alt Zero r = r"
| "alt r Zero = r"
| "alt r s = Alt r s"

fun seq :: "rexp \<Rightarrow> rexp \<Rightarrow> rexp" where
  "seq Zero r = Zero"
| "seq r Zero = Zero"
| "seq One r = r"
| "seq r One = r"
| "seq r s = Seq r s"

primrec deriv :: "char \<Rightarrow> rexp \<Rightarrow> rexp" where
  "deriv c Zero = Zero"
| "deriv c One = Zero"
| "deriv c (Atom a) = (if accepts a c then One else Zero)"
| "deriv c (Alt r s) = alt (deriv c r) (deriv c s)"
| "deriv c (Seq r s) =
     (if nullable r then alt (seq (deriv c r) s) (deriv c s) else seq (deriv c r) s)"
| "deriv c (Star r) = seq (deriv c r) (Star r)"

text \<open>
  \<open>match_prefix r s\<close>: a prefix of \<open>s\<close> matches \<open>r\<close> (\<open>re.match\<close>). The conditionals,
  in place of disjunctions, keep the evaluation of a closed instance from looking
  beyond the first success.
\<close>

fun match_prefix :: "rexp \<Rightarrow> string \<Rightarrow> bool" where
  "match_prefix r [] = nullable r"
| "match_prefix r (c # cs) =
     (if nullable r then True
      else if r = Zero then False
      else match_prefix (deriv c r) cs)"

text \<open>\<open>search_from r s\<close>: a piece of \<open>s\<close> starting at some position matches \<open>r\<close>.\<close>

fun search_from :: "rexp \<Rightarrow> string \<Rightarrow> bool" where
  "search_from r [] = nullable r"
| "search_from r (c # cs) =
     (if match_prefix r (c # cs) then True else search_from r cs)"

fun re_search :: "pattern \<Rightarrow> string \<Rightarrow> bool" where
  "re_search (Unanchored r) s = search_from r s"
| "re_search (Anchored r) s = match_prefix r s"

section \<open>Correctness of the matcher\<close>

lemma nullable_iff: "nullable r \<longleftrightarrow> matches r []"
  by (induction r) (auto simp: matches_Seq matches_Atom)

lemma matches_alt [simp]: "matches (alt r s) w \<longleftrightarrow> matches r w \<or> matches s w"
  by (induction r s rule: alt.induct) auto

lemma matches_seq [simp]: "matches (seq r s) w \<longleftrightarrow> matches (Seq r s) w"
  by (induction r s rule: seq.induct) (auto simp: matches_Seq)

text \<open>
  A non-empty match of \<open>r*\<close> starts with a non-empty match of \<open>r\<close>: the inversion
  that the derivative of a star needs.
\<close>

lemma matches_Star_Cons:
  "matches R w \<Longrightarrow> R = Star r \<Longrightarrow> w = c # s \<Longrightarrow>
     \<exists>u v. s = u @ v \<and> matches r (c # u) \<and> matches (Star r) v"
proof (induction arbitrary: s rule: matches.induct)
  case (m_StarApp r' u v)
  show ?case
  proof (cases u)
    case Nil
    with m_StarApp show ?thesis by simp
  next
    case (Cons d u')
    with m_StarApp.prems m_StarApp.hyps(1,2) show ?thesis by auto
  qed
qed simp_all

lemma matches_Seq_Cons:
  "matches (Seq r r') (c # s) \<longleftrightarrow>
     (\<exists>u v. s = u @ v \<and> matches r (c # u) \<and> matches r' v) \<or>
     (matches r [] \<and> matches r' (c # s))"
  by (auto simp: matches_Seq Cons_eq_append_conv)

lemma matches_deriv: "matches (deriv c r) s \<longleftrightarrow> matches r (c # s)"
proof (induction r arbitrary: s)
  case (Atom a)
  show ?case by (auto simp: matches_Atom)
next
  case (Seq r1 r2)
  have "matches (deriv c (Seq r1 r2)) s \<longleftrightarrow>
      matches (Seq (deriv c r1) r2) s \<or> (nullable r1 \<and> matches (deriv c r2) s)"
    by simp
  also have "\<dots> \<longleftrightarrow> (\<exists>u v. s = u @ v \<and> matches r1 (c # u) \<and> matches r2 v) \<or>
      (matches r1 [] \<and> matches r2 (c # s))"
    by (simp add: matches_Seq Seq.IH nullable_iff)
  also have "\<dots> \<longleftrightarrow> matches (Seq r1 r2) (c # s)"
    by (simp add: matches_Seq_Cons)
  finally show ?case .
next
  case (Star r)
  show ?case
  proof
    assume "matches (deriv c (Star r)) s"
    then obtain u v where "s = u @ v" "matches r (c # u)" "matches (Star r) v"
      by (auto simp: matches_Seq Star.IH)
    then have "matches (Star r) ((c # u) @ v)" by (intro m_StarApp)
    with \<open>s = u @ v\<close> show "matches (Star r) (c # s)" by simp
  next
    assume "matches (Star r) (c # s)"
    from matches_Star_Cons [OF this refl refl]
    show "matches (deriv c (Star r)) s"
      by (auto simp: matches_Seq Star.IH)
  qed
qed auto

lemma match_prefix_Zero [simp]: "match_prefix Zero s = False"
  by (cases s) auto

lemma match_spec_Zero [simp]: "match_spec Zero s = False"
  by (simp add: match_spec_def)

lemma match_spec_Nil [simp]: "match_spec r [] \<longleftrightarrow> matches r []"
  by (simp add: match_spec_def)

lemma match_spec_Cons:
  "match_spec r (c # cs) \<longleftrightarrow> matches r [] \<or> match_spec (deriv c r) cs"
  by (auto simp: match_spec_def matches_deriv Cons_eq_append_conv)

lemma match_prefix_correct: "match_prefix r s \<longleftrightarrow> match_spec r s"
proof (induction s arbitrary: r)
  case Nil
  show ?case by (simp add: nullable_iff)
next
  case (Cons c cs)
  show ?case
    by (cases "r = Zero") (simp_all add: Cons match_spec_Cons nullable_iff)
qed

lemma search_spec_Nil [simp]: "search_spec r [] \<longleftrightarrow> matches r []"
  by (simp add: search_spec_def)

lemma search_spec_Cons:
  "search_spec r (c # cs) \<longleftrightarrow> match_spec r (c # cs) \<or> search_spec r cs"
proof
  assume "search_spec r (c # cs)"
  then obtain u v w where s: "c # cs = u @ v @ w" and m: "matches r v"
    by (auto simp: search_spec_def)
  show "match_spec r (c # cs) \<or> search_spec r cs"
  proof (cases u)
    case Nil
    with s m show ?thesis by (auto simp: match_spec_def)
  next
    case (Cons d u')
    with s m show ?thesis by (auto simp: search_spec_def)
  qed
next
  assume "match_spec r (c # cs) \<or> search_spec r cs"
  then show "search_spec r (c # cs)"
  proof
    assume "match_spec r (c # cs)"
    then obtain u v where "c # cs = [] @ u @ v" "matches r u"
      by (auto simp: match_spec_def)
    then show ?thesis unfolding search_spec_def by blast
  next
    assume "search_spec r cs"
    then obtain u v w where "c # cs = (c # u) @ v @ w" "matches r v"
      by (auto simp: search_spec_def)
    then show ?thesis unfolding search_spec_def by blast
  qed
qed

lemma search_from_correct: "search_from r s \<longleftrightarrow> search_spec r s"
  by (induction s) (auto simp: search_spec_Cons match_prefix_correct nullable_iff)

text \<open>What a pattern denotes, anchored or not, and that \<open>re_search\<close> decides it.\<close>

fun pattern_spec :: "pattern \<Rightarrow> string \<Rightarrow> bool" where
  "pattern_spec (Unanchored r) s = search_spec r s"
| "pattern_spec (Anchored r) s = match_spec r s"

lemma re_search_correct: "re_search p s \<longleftrightarrow> pattern_spec p s"
  by (cases p) (simp_all add: search_from_correct match_prefix_correct)

section \<open>Facts about the notation\<close>

lemma matches_Str [simp]: "matches (Str w) s \<longleftrightarrow> s = w"
  by (induction w arbitrary: s rule: Str.induct) (auto simp: matches_Atom matches_Seq)

lemma matches_Alts: "matches (Alts rs) s \<longleftrightarrow> (\<exists>r \<in> set rs. matches r s)"
  by (induction rs rule: Alts.induct) auto

lemma matches_Plus1:
  "matches (Plus1 r) s \<longleftrightarrow> (\<exists>u v. s = u @ v \<and> matches r u \<and> matches (Star r) v)"
  by (auto simp: Plus1_def matches_Seq)

lemma matches_Star_atoms:
  "matches (Star (Atom a)) s \<longleftrightarrow> (\<forall>c \<in> set s. accepts a c)"
proof
  assume "matches (Star (Atom a)) s"
  then show "\<forall>c \<in> set s. accepts a c"
    by (induction "Star (Atom a)" s rule: matches.induct) (auto simp: matches_Atom)
next
  assume "\<forall>c \<in> set s. accepts a c"
  then show "matches (Star (Atom a)) s"
  proof (induction s)
    case Nil
    show ?case by (rule m_StarNil)
  next
    case (Cons c cs)
    then have "matches (Atom a) [c]" "matches (Star (Atom a)) cs"
      by (auto intro: m_Atom)
    then have "matches (Star (Atom a)) ([c] @ cs)" by (rule m_StarApp)
    then show ?case by simp
  qed
qed

text \<open>\<open>r+\<close> over a one-character pattern: a non-empty run of accepted characters.\<close>

lemma matches_Plus1_Cons:
  "matches (Plus1 (Atom a)) (c # cs) \<longleftrightarrow> accepts a c \<and> matches (Star (Atom a)) cs"
proof
  assume "matches (Plus1 (Atom a)) (c # cs)"
  then show "accepts a c \<and> matches (Star (Atom a)) cs"
    by (auto simp: matches_Plus1 matches_Atom)
next
  assume "accepts a c \<and> matches (Star (Atom a)) cs"
  then have "matches (Seq (Atom a) (Star (Atom a))) ([c] @ cs)"
    by (intro m_Seq m_Atom) simp_all
  then show "matches (Plus1 (Atom a)) (c # cs)"
    by (simp add: Plus1_def)
qed

lemma matches_Plus1_atom:
  "matches (Plus1 (Atom a)) s \<longleftrightarrow> s \<noteq> [] \<and> (\<forall>c \<in> set s. accepts a c)"
proof (cases s)
  case Nil
  then show ?thesis by (simp add: matches_Plus1 matches_Atom)
next
  case (Cons c cs)
  then show ?thesis by (simp add: matches_Plus1_Cons matches_Star_atoms)
qed

text \<open>A match is found in a line as soon as it is found in a piece of the line.\<close>

lemma search_spec_sublist: "sublist s t \<Longrightarrow> search_spec r s \<Longrightarrow> search_spec r t"
proof -
  assume "sublist s t" and "search_spec r s"
  then obtain a b u v w where "t = a @ s @ b" "s = u @ v @ w" "matches r v"
    by (auto simp: sublist_def search_spec_def)
  then have "t = (a @ u) @ v @ (w @ b)" "matches r v" by simp_all
  then show ?thesis unfolding search_spec_def by blast
qed

lemma match_spec_imp_search_spec: "match_spec r s \<Longrightarrow> search_spec r s"
  unfolding match_spec_def search_spec_def by (metis append_Nil)

end
