(* ===== verification/Registry.thy ===== *)
theory Registry
  imports PyRegex
begin

text \<open>
  The capability pattern registry of \<^verbatim>\<open>arm64.inspect.py\<close>: the table \<open>INSPECT_ARRAY\<close>,
  one entry per instruction-set extension, in the order of the source (a Python \<open>dict\<close>
  keeps insertion order, and the report is built in that order). Each pattern string
  of the source is written here in parsed form; the comment before an entry quotes
  the string. The lemmas are the structural facts the classifier and the report
  need: the names are distinct, and every pattern starts with \<open>\s\<close>, which is what
  keeps a rule from matching inside the address field of a line.
\<close>

section \<open>Abbreviations for the pieces the patterns are made of\<close>

abbreviation ws :: rexp where
  "ws \<equiv> Atom Space"

abbreviation ws1 :: rexp where
  "ws1 \<equiv> Plus1 (Atom Space)"

abbreviation OneOf :: "string \<Rightarrow> rexp" where
  "OneOf cs \<equiv> Atom (Cls (map CChar cs))"

abbreviation digit :: rexp where
  "digit \<equiv> Atom (Cls [CRange (CHR ''0'') (CHR ''9'')])"

text \<open>\<open>\s(a|b|...)\<close>: whitespace, then one of the given mnemonics.\<close>

definition mnemonics :: "rexp list \<Rightarrow> pattern" where
  "mnemonics rs = Unanchored (Seq ws (Alts rs))"

text \<open>\<open>m\s+x\<close>: a mnemonic, whitespace, and the start of its first operand.\<close>

definition operand :: "string \<Rightarrow> string \<Rightarrow> rexp" where
  "operand m x = Seqs [Str m, ws1, Str x]"

section \<open>The table\<close>

definition INSPECT_ARRAY :: "(string \<times> pattern) list" where
  "INSPECT_ARRAY = [
    \<comment> \<open>1. Core architecture and SIMD\<close>
    (''asimd'', mnemonics [Str ''fadd'', Str ''fmul'', Str ''ld1'', Str ''st1'',
       Str ''saddl'', Str ''uaddl'', Str ''sqadd'', Str ''movi'',
       operand ''add'' ''v'', operand ''sub'' ''v'', operand ''mul'' ''v'',
       Seq (Str ''ld'') (OneOf ''234''), Seq (Str ''st'') (OneOf ''234''),
       Str ''umull'', Str ''smull'']),
    (''asimdhp'', mnemonics [operand ''fadd'' ''h'', operand ''fmul'' ''h'',
       operand ''fmla'' ''h'', operand ''fabs'' ''h'', operand ''fneg'' ''h'',
       operand ''fsqrt'' ''h'']),
    (''asimdfhm'', mnemonics [Str ''fmlal'', Str ''fmlsl'']),
    (''asimddp'', mnemonics [Str ''sdot'', Str ''udot'']),
    (''asimdrdm'', mnemonics [Str ''sqrdmlah'', Str ''sqrdmlsh'']),
    (''i8mm'', mnemonics [Str ''smmla'', Str ''ummla'', Str ''usmmla'']),
    (''bf16'', mnemonics [Str ''bfdot'', Str ''bfmmla'', Str ''bfcvt'']),
    (''bf16fml'', mnemonics [Str ''bfmlalb'', Str ''bfmlalt'']),
    (''sve'', Unanchored (Seqs [ws, Str ''z'', Plus1 digit, Str ''.''])),
    (''sve2'', mnemonics [operand ''sqrdmlah'' ''z'', operand ''sqrdmlsh'' ''z'',
       Str ''match'', Str ''nmatch'', Str ''histcnt'', Str ''histseg'',
       Str ''addhnb'', Str ''raddhnb'']),
    (''svei8mm'', mnemonics [operand ''smmla'' ''z'', operand ''ummla'' ''z'',
       operand ''usmmla'' ''z'']),
    (''svebf16'', mnemonics [operand ''bfdot'' ''z'', operand ''bfmmla'' ''z'',
       operand ''bfcvt'' ''z'']),
    (''sveaes'', mnemonics [operand ''aesd'' ''z'', operand ''aese'' ''z'',
       operand ''aesimc'' ''z'', operand ''aesmc'' ''z'']),
    (''svepmull'', mnemonics [operand ''pmull'' ''z'']),
    (''svebitperm'', mnemonics [Str ''bext'', Str ''bdep'', Str ''bgrp'']),
    (''svesha3'', mnemonics [Str ''rax1'', Str ''bcax'', Str ''eor3'', Str ''xar'']),
    (''svesm4'', mnemonics [operand ''sm4e'' ''z'', operand ''sm4ekey'' ''z'']),
    (''fphp'', mnemonics [operand ''fcvt'' ''h'', operand ''fadd'' ''h'',
       operand ''fmul'' ''h'', operand ''fdiv'' ''h'', operand ''fsub'' ''h'']),
    (''fcma'', mnemonics [Str ''fcmla'', Str ''fcadd'']),
    (''frint'', mnemonics [Str ''frint32x'', Str ''frint64x'', Str ''frint32z'',
       Str ''frint64z'']),
    \<comment> \<open>2. Cryptography and hash extensions\<close>
    (''aes'', mnemonics [Str ''aese'', Str ''aesd'', Str ''aesmc'', Str ''aesimc'']),
    (''pmull'', mnemonics [Str ''pmull'']),
    (''sha1'', mnemonics [Seq (Str ''sha1'') (OneOf ''cpmhsu'')]),
    (''sha2'', mnemonics [Seq (Str ''sha256'') (OneOf ''hsu''),
       Seq (Str ''sha512'') (OneOf ''hsu'')]),
    (''sha3'', mnemonics [Str ''rax1'', Str ''bcax'', Str ''eor3'', Str ''xar'']),
    (''sha512'', mnemonics [Seq (Str ''sha512'') (OneOf ''hsu'')]),
    (''sm3'', mnemonics [Str ''sm3ss1'',
       Seqs [Str ''sm3tt'', OneOf ''12'', OneOf ''ab''],
       Seq (Str ''sm3partw'') (OneOf ''12'')]),
    (''sm4'', mnemonics [Str ''sm4e'', Str ''sm4ekey'']),
    \<comment> \<open>3. Memory, atomics, and synchronization\<close>
    (''atomics'', mnemonics [Str ''ldadd'', Str ''ldclr'', Str ''ldeor'', Str ''ldset'',
       Str ''ldsmax'', Str ''ldsmin'', Str ''ldumax'', Str ''ldumin'', Str ''cas'',
       Str ''casp'', Str ''swp'']),
    (''dcpop'', Unanchored (Seq ws (operand ''dc'' ''cvap''))),
    (''dcpodp'', Unanchored (Seq ws (operand ''dc'' ''cvadp''))),
    (''uscat'', mnemonics [Str ''stset'', Str ''stclr'']),
    (''lrcpc'', mnemonics [Str ''ldapr'', Str ''stlr'']),
    (''ilrcpc'', mnemonics [Str ''ldapur'', Str ''stlur'']),
    (''dgh'', Unanchored (Seq ws (Str ''dgh''))),
    (''sb'', Unanchored (Seq ws (Str ''sb''))),
    (''wfxt'', mnemonics [Str ''wfet'', Str ''wfit'']),
    \<comment> \<open>4. Security and control-flow\<close>
    (''paca'', mnemonics [Str ''pacia'', Str ''pacib'', Str ''autia'', Str ''autib'']),
    (''pacg'', mnemonics [Str ''pacda'', Str ''pacdb'', Str ''pacga'', Str ''autda'',
       Str ''autdb'', Str ''autga'']),
    (''bti'', Unanchored (Seq ws (Str ''bti''))),
    (''flagm'', mnemonics [Str ''setf8'', Str ''setf16'', Str ''rmif'']),
    (''flagm2'', mnemonics [Str ''axflag'', Str ''xaflag'']),
    \<comment> \<open>5. Data conversion and integer extensions\<close>
    (''jscvt'', Unanchored (Seq ws (Str ''fjcvtzs''))),
    (''crc32'', Unanchored (Seqs [ws, Str ''crc32'', OneOf ''bhwxc''])),
    (''dit'', Unanchored (Seq ws (operand ''msr'' ''dit''))),
    (''cpuid'', Unanchored (Seqs [ws, Str ''mrs'', ws1, Star (Atom AnyChar), Str '','',
       Star ws, Str ''id_''])),
    (''evtstrm'', Unanchored (Seq ws (Str ''evtstrm'')))
  ]"

text \<open>The category names, in report order.\<close>

definition categories :: "string list" where
  "categories = map fst INSPECT_ARRAY"

section \<open>Structure of the table\<close>

text \<open>A pattern is \<^emph>\<open>guarded\<close> when it is unanchored and begins with \<open>\s\<close>.\<close>

fun guarded :: "pattern \<Rightarrow> bool" where
  "guarded (Unanchored (Seq (Atom Space) r)) = True"
| "guarded p = False"

lemma length_INSPECT_ARRAY: "length INSPECT_ARRAY = 47"
  by (simp add: INSPECT_ARRAY_def)

lemma distinct_categories: "distinct categories"
  by (simp add: categories_def INSPECT_ARRAY_def)

lemma INSPECT_ARRAY_guarded: "list_all (\<lambda>(name, p). guarded p) INSPECT_ARRAY"
  by (simp add: INSPECT_ARRAY_def mnemonics_def)

end
