(* ===== verification/Classifier.thy ===== *)
theory Classifier
  imports Registry
begin

text \<open>
  The instruction classifier of \<^verbatim>\<open>arm64.inspect.py\<close>: the two methods of
  \<open>BinaryInspector\<close> that scan a disassembly, \<open>count_instructions\<close> and
  \<open>find_sample_instructions\<close>. The disassembly is the text the external disassembler
  printed, passed in as a string. Each loop of the source is a recursive function over
  the lines with the loop's variables as accumulators; the lemmas give each loop a
  closed form (a filter over the lines) and the facts that follow from it.
\<close>

section \<open>Instruction lines\<close>

text \<open>
  A line of the disassembly is an instruction when \<open>re.search(r"^\s+[0-9a-f]+:", line)\<close>
  finds a match: leading whitespace, a hexadecimal offset, a colon.
\<close>

definition hex_cls :: atom where
  "hex_cls = Cls [CRange (CHR ''0'') (CHR ''9''), CRange (CHR ''a'') (CHR ''f'')]"

abbreviation hexdigit :: rexp where
  "hexdigit \<equiv> Atom hex_cls"

definition insn_line_re :: pattern where
  "insn_line_re = Anchored (Seqs [ws1, Plus1 hexdigit, Str '':''])"

definition is_insn_line :: "line \<Rightarrow> bool" where
  "is_insn_line l = re_search insn_line_re l"

section \<open>Counting\<close>

text \<open>
  The loop of \<open>count_instructions\<close>: \<open>count\<close> goes up by one for each instruction line
  in which the pattern is found.
\<close>

fun count_loop :: "pattern \<Rightarrow> line list \<Rightarrow> nat \<Rightarrow> nat" where
  "count_loop pattern [] count = count"
| "count_loop pattern (l # rest) count =
     count_loop pattern rest
       (if re_search insn_line_re l
        then (if re_search pattern l then count + 1 else count)
        else count)"

definition count_instructions :: "string \<Rightarrow> pattern \<Rightarrow> nat" where
  "count_instructions disasm pattern = count_loop pattern (split_on newline disasm) 0"

text \<open>The pattern \<open>r"."\<close> with which \<open>inspect\<close> counts all instructions.\<close>

definition any_insn :: pattern where
  "any_insn = Unanchored (Atom AnyChar)"

section \<open>Sampling\<close>

text \<open>
  The loop of \<open>find_sample_instructions\<close>: the stripped matching lines are collected
  in order; the loop is left as soon as, after an append, the list has \<open>limit\<close>
  entries or more. The test comes after the append, so a first match is always kept.
\<close>

fun sample_loop :: "pattern \<Rightarrow> pyint \<Rightarrow> line list \<Rightarrow> string list \<Rightarrow> string list" where
  "sample_loop pattern limit [] samples = samples"
| "sample_loop pattern limit (l # rest) samples =
     (if re_search insn_line_re l then
        (if re_search pattern l then
           (if int (length (samples @ [strip l])) \<ge> limit then samples @ [strip l]
            else sample_loop pattern limit rest (samples @ [strip l]))
         else sample_loop pattern limit rest samples)
      else sample_loop pattern limit rest samples)"

definition find_sample_instructions :: "string \<Rightarrow> pattern \<Rightarrow> pyint \<Rightarrow> string list" where
  "find_sample_instructions disasm pattern limit =
     sample_loop pattern limit (split_on newline disasm) []"

definition default_limit :: pyint where
  "default_limit = 5"

section \<open>What an instruction line is\<close>

definition is_hexdigit :: "char \<Rightarrow> bool" where
  "is_hexdigit c = accepts hex_cls c"

lemma is_hexdigit_iff:
  "is_hexdigit c \<longleftrightarrow> (CHR ''0'' \<le> c \<and> c \<le> CHR ''9'') \<or> (CHR ''a'' \<le> c \<and> c \<le> CHR ''f'')"
  by (simp add: is_hexdigit_def hex_cls_def)

lemma matches_insn_prefix:
  "matches (Seqs [ws1, Plus1 hexdigit, Str '':'']) u \<longleftrightarrow>
     (\<exists>w h. u = w @ h @ '':'' \<and> w \<noteq> [] \<and> (\<forall>c \<in> set w. py_isspace c)
        \<and> h \<noteq> [] \<and> (\<forall>c \<in> set h. is_hexdigit c))"
proof
  assume "matches (Seqs [ws1, Plus1 hexdigit, Str '':'']) u"
  then obtain w h t where "u = w @ h @ t" "matches ws1 w" "matches (Plus1 hexdigit) h"
      "matches (Str '':'') t"
    by (auto simp: matches_Seq)
  then show "\<exists>w h. u = w @ h @ '':'' \<and> w \<noteq> [] \<and> (\<forall>c \<in> set w. py_isspace c)
        \<and> h \<noteq> [] \<and> (\<forall>c \<in> set h. is_hexdigit c)"
    unfolding matches_Plus1_atom matches_Str is_hexdigit_def by auto
next
  assume "\<exists>w h. u = w @ h @ '':'' \<and> w \<noteq> [] \<and> (\<forall>c \<in> set w. py_isspace c)
        \<and> h \<noteq> [] \<and> (\<forall>c \<in> set h. is_hexdigit c)"
  then obtain w h where u: "u = w @ h @ '':''" and "matches ws1 w" "matches (Plus1 hexdigit) h"
    unfolding matches_Plus1_atom is_hexdigit_def by auto
  moreover have "matches (Str '':'') '':''"
    unfolding matches_Str ..
  ultimately have "matches (Seq ws1 (Seq (Plus1 hexdigit) (Str '':''))) (w @ h @ '':'')"
    by (intro m_Seq)
  with u show "matches (Seqs [ws1, Plus1 hexdigit, Str '':'']) u"
    by simp
qed

lemma is_insn_line_iff:
  "is_insn_line l \<longleftrightarrow>
     (\<exists>w h rest. l = w @ h @ '':'' @ rest \<and> w \<noteq> [] \<and> (\<forall>c \<in> set w. py_isspace c)
        \<and> h \<noteq> [] \<and> (\<forall>c \<in> set h. is_hexdigit c))"
proof -
  have "is_insn_line l \<longleftrightarrow> (\<exists>u v. l = u @ v \<and> matches (Seqs [ws1, Plus1 hexdigit, Str '':'']) u)"
    by (simp add: is_insn_line_def insn_line_re_def match_prefix_correct match_spec_def)
  also have "\<dots> \<longleftrightarrow> (\<exists>w h rest. l = (w @ h @ '':'') @ rest \<and> w \<noteq> [] \<and>
      (\<forall>c \<in> set w. py_isspace c) \<and> h \<noteq> [] \<and> (\<forall>c \<in> set h. is_hexdigit c))"
    unfolding matches_insn_prefix by blast
  finally show ?thesis by simp
qed

lemma insn_line_has_colon: "is_insn_line l \<Longrightarrow> CHR '':'' \<in> set l"
  by (auto simp: is_insn_line_iff)

lemma not_insn_line_Nil [simp]: "\<not> is_insn_line []"
  by (simp add: is_insn_line_iff)

lemma insn_line_starts_with_space: "is_insn_line l \<Longrightarrow> py_isspace (hd l)"
  by (auto simp: is_insn_line_iff)

section \<open>Closed form of the counting loop\<close>

definition counted :: "pattern \<Rightarrow> line \<Rightarrow> bool" where
  "counted p l \<longleftrightarrow> is_insn_line l \<and> re_search p l"

text \<open>One round of each loop, with the two tests of the source as one condition.\<close>

lemma count_loop_Cons:
  "count_loop p (l # rest) n = count_loop p rest (if counted p l then n + 1 else n)"
  by (simp add: counted_def is_insn_line_def)

lemma sample_loop_Cons:
  "sample_loop p limit (l # rest) samples =
     (if counted p l then
        (if int (length (samples @ [strip l])) \<ge> limit then samples @ [strip l]
         else sample_loop p limit rest (samples @ [strip l]))
      else sample_loop p limit rest samples)"
  by (simp add: counted_def is_insn_line_def)

lemmas loop_Cons = count_loop_Cons sample_loop_Cons

declare count_loop.simps(2) [simp del] sample_loop.simps(2) [simp del]

lemma count_loop_filter:
  "count_loop p ls n = n + length (filter (counted p) ls)"
  by (induction ls arbitrary: n) (auto simp: count_loop_Cons)

lemma count_instructions_filter:
  "count_instructions disasm p = length (filter (counted p) (split_on newline disasm))"
  by (simp add: count_instructions_def count_loop_filter)

lemma count_loop_append:
  "count_loop p (xs @ ys) n = count_loop p ys (count_loop p xs n)"
  by (induction xs arbitrary: n) (auto simp: count_loop_Cons)

lemma any_insn_counts_every_insn_line: "counted any_insn l \<longleftrightarrow> is_insn_line l"
proof -
  have "search_spec (Atom AnyChar) l" if "CHR '':'' \<in> set l"
  proof -
    from that obtain u w where "l = u @ CHR '':'' # w"
      by (auto simp: in_set_conv_decomp)
    then have "l = u @ '':'' @ w" and "matches (Atom AnyChar) '':''"
      by (auto simp: matches_Atom newline_def)
    then show ?thesis unfolding search_spec_def by blast
  qed
  then show ?thesis
    by (auto simp: counted_def any_insn_def search_from_correct dest: insn_line_has_colon)
qed

section \<open>Closed form of the sampling loop\<close>

lemma sample_loop_take:
  "int (length samples) < limit \<or> samples = [] \<Longrightarrow>
   sample_loop p limit ls samples =
     samples @ take (nat (max 1 limit) - length samples) (map strip (filter (counted p) ls))"
proof (induction ls arbitrary: samples)
  case Nil
  then show ?case by simp
next
  case (Cons l ls)
  show ?case
  proof (cases "counted p l")
    case False
    with Cons show ?thesis
      by (simp add: sample_loop_Cons)
  next
    case True
    let ?s' = "samples @ [strip l]"
    show ?thesis
    proof (cases "int (length ?s') \<ge> limit")
      case full: True
      with Cons.prems have "nat (max 1 limit) - length samples = 1"
        by auto
      with True full show ?thesis
        by (simp add: sample_loop_Cons)
    next
      case more: False
      then have "sample_loop p limit ls ?s' =
          ?s' @ take (nat (max 1 limit) - length ?s') (map strip (filter (counted p) ls))"
        by (intro Cons.IH) simp
      moreover from more have "nat (max 1 limit) - length samples = Suc (nat (max 1 limit) - length ?s')"
        by auto
      ultimately show ?thesis
        using True more by (simp add: sample_loop_Cons)
    qed
  qed
qed

lemma find_sample_instructions_take:
  "find_sample_instructions disasm p limit =
     take (nat (max 1 limit)) (map strip (filter (counted p) (split_on newline disasm)))"
  by (simp add: find_sample_instructions_def sample_loop_take)

section \<open>The loops against the denotation of the patterns\<close>

text \<open>
  \<open>counted_spec\<close> is the condition of the loops in terms of what the two patterns
  denote rather than of the matcher that decides it.
\<close>

definition counted_spec :: "pattern \<Rightarrow> line \<Rightarrow> bool" where
  "counted_spec p l \<longleftrightarrow> pattern_spec insn_line_re l \<and> pattern_spec p l"

lemma counted_iff: "counted p = counted_spec p"
  by (rule ext) (simp add: counted_def counted_spec_def is_insn_line_def re_search_correct)

lemma counted_any_insn: "counted any_insn = is_insn_line"
  by (rule ext) (rule any_insn_counts_every_insn_line)

lemma counted_imp_insn: "counted p l \<Longrightarrow> counted any_insn l"
  by (simp add: counted_any_insn) (simp add: counted_def)

lemma guarded_search:
  "re_search (Unanchored (Seq ws r)) l \<longleftrightarrow>
     (\<exists>u c v. l = u @ c # v \<and> py_isspace c \<and> match_spec r v)"
proof -
  have "search_spec (Seq ws r) l \<longleftrightarrow> (\<exists>u c v. l = u @ c # v \<and> py_isspace c \<and> match_spec r v)"
    unfolding search_spec_def match_spec_def
    by (auto simp: matches_Seq matches_Atom) (metis append.assoc append_Cons append_Nil)+
  then show ?thesis by (simp add: search_from_correct)
qed

lemma guardedE:
  assumes "guarded p"
  obtains r where "p = Unanchored (Seq ws r)"
  using assms by (cases p rule: guarded.cases) auto

section \<open>Properties\<close>

text \<open>
  C1 (refinement). \<open>count_instructions\<close> returns the number of lines of the
  disassembly that begin as an instruction line (whitespace, hexadecimal offset,
  colon) and contain a piece that the category's pattern denotes. The count is stated
  over the denotation \<open>pattern_spec\<close> of the two patterns, not over the matcher.
\<close>

theorem count_instructions_spec:
  "count_instructions disasm p =
     length (filter (counted_spec p) (split_on newline disasm))"
  by (simp add: count_instructions_filter counted_iff)

text \<open>
  C5 (functional). Counting with the pattern \<open>.\<close>, as \<open>inspect\<close> does for the total,
  counts every instruction line: an instruction line contains a colon, so \<open>.\<close> always
  finds a character in it.
\<close>

theorem total_counts_insn_lines:
  "count_instructions disasm any_insn =
     length (filter is_insn_line (split_on newline disasm))"
  by (simp add: count_instructions_filter counted_any_insn)

text \<open>
  C6 (bounds). No category counts more lines than the total: the count of any pattern
  is at most the count of \<open>.\<close>, so a percentage never exceeds 100.
\<close>

theorem count_le_total:
  "count_instructions disasm p \<le> count_instructions disasm any_insn"
  unfolding count_instructions_filter
  by (rule length_filter_mono) (rule counted_imp_insn)

text \<open>
  C10 (functional). \<open>find_sample_instructions\<close> returns, stripped and in first-seen
  order, the first \<open>limit\<close> lines that \<open>count_instructions\<close> would count; for a limit
  below 1 it still returns the first such line, because the loop tests the limit only
  after appending.
\<close>

theorem find_sample_instructions_spec:
  "find_sample_instructions disasm p limit =
     take (nat (max 1 limit)) (map strip (filter (counted_spec p) (split_on newline disasm)))"
  by (simp add: find_sample_instructions_take counted_iff)

text \<open>
  Sampling is an observation of the count, not a filter on it: the
  number of samples is the count of the pattern, capped at the limit (at 1 for a limit
  below 1).
\<close>

theorem sample_length:
  "length (find_sample_instructions disasm p limit) =
     min (count_instructions disasm p) (nat (max 1 limit))"
  by (simp add: find_sample_instructions_take count_instructions_filter min.commute)

text \<open>
  A pattern of the registry is found in a line only at a whitespace
  character: every pattern of \<open>INSPECT_ARRAY\<close> has the form \<open>\s r\<close>, and a line in
  which it is found splits into a part before the match, a whitespace character, and
  a rest of which a prefix matches \<open>r\<close>.
\<close>

theorem registry_match_starts_at_space:
  assumes "(name, p) \<in> set INSPECT_ARRAY" and "re_search p l"
  shows "\<exists>r u c v. p = Unanchored (Seq ws r) \<and> l = u @ c # v \<and> py_isspace c \<and> match_spec r v"
proof -
  from assms(1) INSPECT_ARRAY_guarded have "guarded p"
    by (auto simp: list_all_iff)
  then obtain r where p: "p = Unanchored (Seq ws r)"
    by (rule guardedE)
  with assms(2) have "\<exists>u c v. l = u @ c # v \<and> py_isspace c \<and> match_spec r v"
    by (simp only: guarded_search)
  with p show ?thesis by blast
qed

theorem registry_match_starts_at_space_witness:
  "(''asimddp'', mnemonics [Str ''sdot'', Str ''udot'']) \<in> set INSPECT_ARRAY
   \<and> re_search (mnemonics [Str ''sdot'', Str ''udot'']) ''  401000: sdot v0.4s, v1.16b, v2.16b''
   \<and> (\<exists>r u c v. mnemonics [Str ''sdot'', Str ''udot''] = Unanchored (Seq ws r)
        \<and> ''  401000: sdot v0.4s, v1.16b, v2.16b'' = u @ c # v \<and> py_isspace c \<and> match_spec r v)"
proof -
  have m: "(''asimddp'', mnemonics [Str ''sdot'', Str ''udot'']) \<in> set INSPECT_ARRAY"
    by (simp add: INSPECT_ARRAY_def)
  have s: "re_search (mnemonics [Str ''sdot'', Str ''udot'']) ''  401000: sdot v0.4s, v1.16b, v2.16b''"
    by code_simp
  from registry_match_starts_at_space [OF m s] m s show ?thesis by blast
qed

text \<open>
  Example. The line \<open>401000: sdot v0.4s, v1.16b, v2.16b\<close> is counted once, in
  category \<open>asimddp\<close>, and in no other category of the registry.
\<close>

theorem sdot_line_only_asimddp:
  "map (\<lambda>(name, p). (name, count_instructions ''  401000: sdot v0.4s, v1.16b, v2.16b'' p))
     (filter (\<lambda>(name, p). count_instructions ''  401000: sdot v0.4s, v1.16b, v2.16b'' p > 0)
        INSPECT_ARRAY) = [(''asimddp'', 1)]"
  by code_simp


end
