(* ===== verification/AddressField.thy ===== *)
theory AddressField
  imports Classifier
begin

text \<open>
  The patterns of the registry are searched in the whole line of the disassembly: the
  offset, the encoding and the instruction. This theory shows for which categories the
  first two fields cannot contribute a match. A line of \<^verbatim>\<open>llvm-objdump -d\<close> is
  whitespace, a hexadecimal offset, a colon, whitespace, the encoding in hexadecimal, a
  whitespace character, and the instruction. \<open>safe\<close> is a test on the syntax of a
  pattern \<open>\s r\<close>; for a safe pattern a match starts in the part from the whitespace
  after the encoding on.
\<close>

section \<open>A test on the syntax of a pattern\<close>

text \<open>The characters of a hexadecimal field and the characters that end one.\<close>

definition field_char :: "char \<Rightarrow> bool" where
  "field_char c \<longleftrightarrow> is_hexdigit c \<or> c = CHR '':'' \<or> py_isspace c"

fun hex_item :: "citem \<Rightarrow> bool" where
  "hex_item (CChar c) = is_hexdigit c"
| "hex_item (CRange lo hi) =
     ((CHR ''0'' \<le> lo \<and> hi \<le> CHR ''9'') \<or> (CHR ''a'' \<le> lo \<and> hi \<le> CHR ''f''))"

text \<open>Every text that \<open>r\<close> matches is made of hexadecimal digits.\<close>

fun hexonly :: "rexp \<Rightarrow> bool" where
  "hexonly Zero = True"
| "hexonly One = True"
| "hexonly (Atom (Lit c)) = is_hexdigit c"
| "hexonly (Atom (Cls items)) = list_all hex_item items"
| "hexonly (Atom a) = False"
| "hexonly (Alt r s) = (hexonly r \<and> hexonly s)"
| "hexonly (Seq r s) = (hexonly r \<and> hexonly s)"
| "hexonly (Star r) = hexonly r"

fun free_item :: "citem \<Rightarrow> bool" where
  "free_item (CChar c) = (\<not> field_char c)"
| "free_item (CRange lo hi) = False"

text \<open>
  Every text that \<open>r\<close> matches has, after hexadecimal digits or at once, a character
  that is neither a hexadecimal digit, nor a colon, nor whitespace.
\<close>

fun safe :: "rexp \<Rightarrow> bool" where
  "safe Zero = True"
| "safe One = False"
| "safe (Atom (Lit c)) = (\<not> field_char c)"
| "safe (Atom (Cls items)) = list_all free_item items"
| "safe (Atom a) = False"
| "safe (Alt r s) = (safe r \<and> safe s)"
| "safe (Seq r s) = (safe r \<or> (hexonly r \<and> safe s))"
| "safe (Star r) = False"

fun hex_safe :: "pattern \<Rightarrow> bool" where
  "hex_safe (Unanchored (Seq (Atom Space) r)) = safe r"
| "hex_safe p = False"

definition escapes :: "string \<Rightarrow> bool" where
  "escapes w \<longleftrightarrow> (\<exists>h c t. w = h @ c # t \<and> (\<forall>x \<in> set h. is_hexdigit x) \<and> \<not> field_char c)"

section \<open>The shape of a line of the disassembly\<close>

definition objdump_line :: "string \<Rightarrow> string \<Rightarrow> string \<Rightarrow> string \<Rightarrow> char \<Rightarrow> string \<Rightarrow> line" where
  "objdump_line w addr w2 enc sp insn = w @ addr @ CHR '':'' # w2 @ enc @ sp # insn"

definition well_shaped :: "string \<Rightarrow> string \<Rightarrow> string \<Rightarrow> string \<Rightarrow> char \<Rightarrow> bool" where
  "well_shaped w addr w2 enc sp \<longleftrightarrow>
     w \<noteq> [] \<and> list_all py_isspace w \<and> addr \<noteq> [] \<and> list_all is_hexdigit addr \<and>
     list_all py_isspace w2 \<and> list_all is_hexdigit enc \<and> py_isspace sp"

text \<open>The categories whose pattern does not pass the test.\<close>

definition hex_unsafe_categories :: "string list" where
  "hex_unsafe_categories = [''asimd'', ''asimdhp'', ''fphp'', ''fcma'', ''dcpop'', ''dcpodp'']"

section \<open>What the test means\<close>

lemma hexdigit_not_space: "is_hexdigit c \<Longrightarrow> \<not> py_isspace c"
  by (auto simp: is_hexdigit_iff py_isspace_def)

lemma hex_item_sound: "hex_item i \<Longrightarrow> in_citem c i \<Longrightarrow> is_hexdigit c"
  by (cases i) (auto simp: is_hexdigit_iff)

lemma hexonly_atom: "hexonly (Atom a) \<Longrightarrow> accepts a c \<Longrightarrow> is_hexdigit c"
  by (cases a) (auto simp: list_all_iff list_ex_iff dest: hex_item_sound)

lemma hexonly_sound: "matches r w \<Longrightarrow> hexonly r \<Longrightarrow> \<forall>c \<in> set w. is_hexdigit c"
  by (induction rule: matches.induct) (auto dest: hexonly_atom)

lemma free_item_sound: "free_item i \<Longrightarrow> in_citem c i \<Longrightarrow> \<not> field_char c"
  by (cases i) auto

lemma safe_atom: "safe (Atom a) \<Longrightarrow> accepts a c \<Longrightarrow> \<not> field_char c"
  by (cases a) (auto simp: list_all_iff list_ex_iff dest: free_item_sound)

lemma escapes_append: "escapes u \<Longrightarrow> escapes (u @ v)"
  unfolding escapes_def by (metis append.assoc append_Cons)

lemma escapes_hex_append: "\<forall>c \<in> set u. is_hexdigit c \<Longrightarrow> escapes v \<Longrightarrow> escapes (u @ v)"
proof -
  assume u: "\<forall>c \<in> set u. is_hexdigit c" and "escapes v"
  then obtain h c t where "v = h @ c # t" "\<forall>x \<in> set h. is_hexdigit x" "\<not> field_char c"
    by (auto simp: escapes_def)
  with u have "u @ v = (u @ h) @ c # t" "\<forall>x \<in> set (u @ h). is_hexdigit x" "\<not> field_char c"
    by auto
  then show ?thesis unfolding escapes_def by blast
qed

lemma safe_sound: "safe r \<Longrightarrow> matches r w \<Longrightarrow> escapes w"
proof (induction r arbitrary: w)
  case (Atom a)
  then obtain c where "w = [c]" "accepts a c" by (auto simp: matches_Atom)
  with safe_atom [OF Atom.prems(1)] have "w = [] @ c # []" "\<not> field_char c" by auto
  then show ?case unfolding escapes_def by fastforce
next
  case (Seq r s)
  from Seq.prems(2) obtain u v where w: "w = u @ v" and u: "matches r u" and v: "matches s v"
    by (auto simp: matches_Seq)
  show ?case
  proof (cases "safe r")
    case True
    with Seq.IH(1) u w show ?thesis by (simp add: escapes_append)
  next
    case False
    with Seq.prems(1) have "hexonly r" "safe s" by auto
    with hexonly_sound [OF u] Seq.IH(2) [OF _ v] w show ?thesis
      by (simp add: escapes_hex_append)
  qed
qed (auto simp: matches_Alt)

section \<open>No match in a hexadecimal field\<close>

lemma escape_not_in_field:
  "\<forall>x \<in> set h'. is_hexdigit x \<Longrightarrow> \<not> field_char c \<Longrightarrow> \<forall>x \<in> set h. is_hexdigit x \<Longrightarrow>
   field_char sep \<Longrightarrow> \<not> is_hexdigit sep \<Longrightarrow> \<not> prefix (h' @ c # t) (h @ sep # rest)"
proof (induction h' arbitrary: h)
  case Nil
  then show ?case by (cases h) (auto simp: field_char_def)
next
  case (Cons y h')
  then show ?case by (cases h) auto
qed

lemma no_match_at_field:
  assumes "safe r" and "\<forall>x \<in> set w. py_isspace x" and "\<forall>x \<in> set h. is_hexdigit x"
    and "field_char sep" and "\<not> is_hexdigit sep"
  shows "\<not> match_spec r (w @ h @ sep # rest)"
proof
  assume "match_spec r (w @ h @ sep # rest)"
  then obtain u v where "w @ h @ sep # rest = u @ v" and m: "matches r u"
    unfolding match_spec_def by (elim exE conjE)
  then have p: "prefix u (w @ h @ sep # rest)"
    by (simp add: prefix_def)
  from safe_sound [OF assms(1) m] obtain h' c t where u: "u = h' @ c # t"
    and h': "\<forall>x \<in> set h'. is_hexdigit x" and c: "\<not> field_char c"
    unfolding escapes_def by blast
  show False
  proof (cases w)
    case Nil
    with p u escape_not_in_field [OF h' c assms(3,4,5)] show False by simp
  next
    case (Cons s0 w')
    with assms(2) have s0: "py_isspace s0" by simp
    from p u Cons have "hd (h' @ c # t) = s0" by (cases h') (auto simp: prefix_def)
    with s0 h' c show False
      by (cases h') (auto simp: field_char_def dest: hexdigit_not_space)
  qed
qed

lemma match_specI: "s = u @ v \<Longrightarrow> matches r u \<Longrightarrow> match_spec r s"
  unfolding match_spec_def by (intro exI conjI)

lemma guarded_match_space:
  "match_spec (Seq ws r) (c # cs) \<longleftrightarrow> py_isspace c \<and> match_spec r cs"
proof
  assume "match_spec (Seq ws r) (c # cs)"
  then obtain x y where xy: "c # cs = x @ y" and m: "matches (Seq ws r) x"
    unfolding match_spec_def by (elim exE conjE)
  from m obtain a u where x: "x = a @ u" and a: "matches ws a" and u: "matches r u"
    by (rule m_SeqE)
  from a obtain d where a': "a = [d]" and d: "py_isspace d"
    by (rule m_AtomE) simp
  from xy x a' have "c = d" "cs = u @ y" by simp_all
  with d match_specI [OF _ u] show "py_isspace c \<and> match_spec r cs"
    by simp
next
  assume "py_isspace c \<and> match_spec r cs"
  then obtain u v where s: "py_isspace c" and cs: "cs = u @ v" and u: "matches r u"
    unfolding match_spec_def by (elim exE conjE)
  from s have "matches ws [c]" by (intro m_Atom) simp
  from m_Seq [OF this u] have "matches (Seq ws r) (c # u)" by simp
  moreover from cs have "c # cs = (c # u) @ v" by simp
  ultimately show "match_spec (Seq ws r) (c # cs)"
    by (intro match_specI)
qed

lemma skip_hex:
  "\<forall>x \<in> set h. is_hexdigit x \<Longrightarrow>
   search_spec (Seq ws r) (h @ rest) \<longleftrightarrow> search_spec (Seq ws r) rest"
  by (induction h) (auto simp: search_spec_Cons guarded_match_space dest: hexdigit_not_space)

lemma skip_field:
  assumes "safe r" and "\<forall>x \<in> set h. is_hexdigit x" and "field_char sep" and "\<not> is_hexdigit sep"
  shows "\<forall>x \<in> set w. py_isspace x \<Longrightarrow>
    search_spec (Seq ws r) (w @ h @ sep # rest) \<longleftrightarrow> search_spec (Seq ws r) (sep # rest)"
proof (induction w)
  case Nil
  from skip_hex [OF assms(2)] show ?case by simp
next
  case (Cons s0 w)
  from Cons.prems have "\<forall>x \<in> set w. py_isspace x" by simp
  from no_match_at_field [OF assms(1) this assms(2,3,4)] Cons show ?case
    by (simp add: search_spec_Cons guarded_match_space)
qed

section \<open>The two fields of a line\<close>

lemma hex_safeE:
  assumes "hex_safe p"
  obtains r where "p = Unanchored (Seq ws r)" "safe r"
  using assms by (cases p rule: hex_safe.cases) auto

lemma skip_fields:
  assumes "safe r" and "well_shaped w addr w2 enc sp"
  shows "search_spec (Seq ws r) (objdump_line w addr w2 enc sp insn) \<longleftrightarrow>
         search_spec (Seq ws r) (sp # insn)"
proof -
  from assms(2) have w: "\<forall>x \<in> set w. py_isspace x" and a: "\<forall>x \<in> set addr. is_hexdigit x"
    and w2: "\<forall>x \<in> set w2. py_isspace x" and e: "\<forall>x \<in> set enc. is_hexdigit x"
    and sp: "py_isspace sp"
    by (simp_all add: well_shaped_def list_all_iff)
  have colon: "field_char (CHR '':'')" "\<not> is_hexdigit (CHR '':'')" "\<not> py_isspace (CHR '':'')"
    by (simp_all add: field_char_def is_hexdigit_iff py_isspace_def)
  from sp have s: "field_char sp" "\<not> is_hexdigit sp"
    by (auto simp: field_char_def dest: hexdigit_not_space)
  have "search_spec (Seq ws r) (objdump_line w addr w2 enc sp insn) \<longleftrightarrow>
      search_spec (Seq ws r) (CHR '':'' # w2 @ enc @ sp # insn)"
    unfolding objdump_line_def by (rule skip_field [OF assms(1) a colon(1,2) w])
  also have "\<dots> \<longleftrightarrow> search_spec (Seq ws r) (w2 @ enc @ sp # insn)"
    by (simp add: search_spec_Cons guarded_match_space colon(3))
  also have "\<dots> \<longleftrightarrow> search_spec (Seq ws r) (sp # insn)"
    by (rule skip_field [OF assms(1) e s w2])
  finally show ?thesis .
qed

lemma well_shaped_insn_line:
  "well_shaped w addr w2 enc sp \<Longrightarrow> is_insn_line (objdump_line w addr w2 enc sp insn)"
  unfolding is_insn_line_iff objdump_line_def well_shaped_def list_all_iff
  by (intro exI [of _ w] exI [of _ addr] exI [of _ "w2 @ enc @ sp # insn"]) simp

lemma hex_safe_counted:
  assumes "hex_safe p" and "well_shaped w addr w2 enc sp"
  shows "counted p (objdump_line w addr w2 enc sp insn) \<longleftrightarrow> re_search p (sp # insn)"
proof -
  from assms(1) obtain r where p: "p = Unanchored (Seq ws r)" and r: "safe r"
    by (rule hex_safeE)
  from skip_fields [OF r assms(2)] well_shaped_insn_line [OF assms(2)] p show ?thesis
    by (simp add: counted_def search_from_correct)
qed

lemma registry_hex_safe:
  "list_all (\<lambda>(name, p). name \<in> set hex_unsafe_categories \<or> hex_safe p) INSPECT_ARRAY"
  by code_simp

section \<open>Properties\<close>

text \<open>
  C24 (safety). For every category of the registry but \<open>asimd\<close>, \<open>asimdhp\<close>, \<open>fphp\<close>,
  \<open>fcma\<close>, \<open>dcpop\<close> and \<open>dcpodp\<close>, the offset and the encoding of a line contribute
  nothing to the count: a line made of whitespace, a hexadecimal offset, a colon,
  whitespace, a hexadecimal encoding, a whitespace character and the instruction is
  counted exactly when the pattern is found in the instruction with the whitespace
  before it.
\<close>

theorem registry_address_field_independent:
  assumes "(name, p) \<in> set INSPECT_ARRAY" and "name \<notin> set hex_unsafe_categories"
    and "well_shaped w addr w2 enc sp"
  shows "counted p (objdump_line w addr w2 enc sp insn) \<longleftrightarrow> re_search p (sp # insn)"
proof -
  from registry_hex_safe assms(1,2) have "hex_safe p"
    by (auto simp: list_all_iff)
  then show ?thesis using assms(3) by (rule hex_safe_counted)
qed

theorem registry_address_field_independent_witness:
  "counted (mnemonics [Str ''sdot'', Str ''udot''])
     (objdump_line ''  '' ''401000'' '' '' ''4e829420'' (CHR '' '') ''sdot v0.4s, v1.16b, v2.16b'')
   = re_search (mnemonics [Str ''sdot'', Str ''udot'']) '' sdot v0.4s, v1.16b, v2.16b''"
proof -
  have a: "(''asimddp'', mnemonics [Str ''sdot'', Str ''udot'']) \<in> set INSPECT_ARRAY"
    by (simp add: INSPECT_ARRAY_def)
  have b: "''asimddp'' \<notin> set hex_unsafe_categories"
    by (simp add: hex_unsafe_categories_def)
  have c: "well_shaped ''  '' ''401000'' '' '' ''4e829420'' (CHR '' '')"
    by (simp add: well_shaped_def is_hexdigit_iff)
  from registry_address_field_independent [OF a b c] show ?thesis
    by simp
qed

end
