(* ===== verification/Inspect.thy ===== *)
theory Inspect
  imports Classifier Floats
begin

text \<open>
  The report of \<^verbatim>\<open>arm64.inspect.py\<close>: the method \<open>inspect\<close> of \<open>BinaryInspector\<close>. What
  the method obtains from other programs is a parameter here: the name of the binary,
  its size, the fields that \<open>parse_file_info\<close> extracted from the output of \<open>file\<close>, and
  the disassembly. The result is the ordered dictionary that \<open>inspect\<close> returns, as an
  association list in insertion order. A percentage and the size in megabytes are
  floats: the rational number that the double stands for, computed with the rounding of
  the theory \<open>Floats\<close>. The last section is the loop of \<open>main\<close> that prints the report.
\<close>

section \<open>Values and ordered dictionaries\<close>

datatype pyval = VStr string | VInt pyint | VFloat pyfloat

type_synonym odict = "(string \<times> pyval) list"

text \<open>\<open>d[k] = v\<close> on an ordered dictionary: in place for a key that is there, else at the end.\<close>

definition od_set :: "odict \<Rightarrow> string \<Rightarrow> pyval \<Rightarrow> odict" where
  "od_set d k v = AList.update k v d"

text \<open>\<open>d.update(e)\<close>: the assignments \<open>d[k] = v\<close> for the items of \<open>e\<close> in order.\<close>

definition od_update :: "odict \<Rightarrow> odict \<Rightarrow> odict" where
  "od_update d e = fold (\<lambda>(k, v) d. od_set d k v) e d"

text \<open>\<open>str(b).lower()\<close> for a Boolean.\<close>

definition bool_lower :: "bool \<Rightarrow> string" where
  "bool_lower b = (if b then ''true'' else ''false'')"

section \<open>The fields of the file description\<close>

record parsed_info =
  binary_format :: string
  arch :: string
  elf_version :: string
  dynamically_linked :: bool
  interpreter :: string
  android_api :: string
  builder :: string
  build_id_sha1 :: string
  debug_info :: bool
  stripped :: bool

section \<open>The loop over the registry\<close>

text \<open>The three variables that the loop of \<open>inspect\<close> updates.\<close>

record ext_state =
  detected :: "string list"
  undetected :: "string list"
  extension_results :: odict

definition ext_init :: ext_state where
  "ext_init = \<lparr>detected = [], undetected = [], extension_results = []\<rparr>"

text \<open>\<open>(count * 100.0) / total_insn if total_insn > 0 else 0.0\<close>.\<close>

definition percentage :: "nat \<Rightarrow> nat \<Rightarrow> pyfloat" where
  "percentage count total_insn =
     (if total_insn > 0
      then float_div (float_mul (float_of_int (int count)) 100) (float_of_int (int total_insn))
      else 0)"

text \<open>The keys \<open>f"{ext_name}_instructions"\<close> and \<open>f"{ext_name}_instructions_percentage"\<close>.\<close>

definition count_key :: "string \<Rightarrow> string" where
  "count_key ext_name = ext_name @ ''_instructions''"

definition pct_key :: "string \<Rightarrow> string" where
  "pct_key ext_name = ext_name @ ''_instructions_percentage''"

text \<open>One round of the loop, for the entry \<open>(ext_name, pattern)\<close> of the registry.\<close>

definition ext_step :: "string \<Rightarrow> nat \<Rightarrow> string \<times> pattern \<Rightarrow> ext_state \<Rightarrow> ext_state" where
  "ext_step disasm total_insn entry st =
     (let ext_name = fst entry;
          count = count_instructions disasm (snd entry);
          results = od_set (od_set (extension_results st)
                      (count_key ext_name) (VInt (int count)))
                      (pct_key ext_name)
                      (VFloat (percentage count total_insn))
      in if count > 0
         then st\<lparr>extension_results := results, detected := detected st @ [ext_name]\<rparr>
         else st\<lparr>extension_results := results, undetected := undetected st @ [ext_name]\<rparr>)"

definition ext_loop :: "string \<Rightarrow> nat \<Rightarrow> (string \<times> pattern) list \<Rightarrow> ext_state" where
  "ext_loop disasm total_insn table = fold (ext_step disasm total_insn) table ext_init"

text \<open>\<open>";".join(xs) if xs else "none"\<close>.\<close>

definition join_or_none :: "string list \<Rightarrow> string" where
  "join_or_none xs = (if xs \<noteq> [] then join '';'' xs else ''none'')"

section \<open>The report\<close>

text \<open>The fifteen assignments that start the final dictionary, in the order of the source.\<close>

definition output_items ::
  "string \<Rightarrow> parsed_info \<Rightarrow> pyfloat \<Rightarrow> nat \<Rightarrow> string \<Rightarrow> string \<Rightarrow> odict" where
  "output_items binary_name info size_mb total_insn detected_extensions undetected_extensions =
     fold (\<lambda>(k, v) d. od_set d k v) [
       (''binary_name'', VStr binary_name),
       (''detected_extensions'', VStr detected_extensions),
       (''undetected_extensions'', VStr undetected_extensions),
       (''binary_format'', VStr (binary_format info)),
       (''arch'', VStr (arch info)),
       (''elf_version'', VStr (elf_version info)),
       (''dynamically_linked'', VStr (bool_lower (dynamically_linked info))),
       (''interpreter'', VStr (interpreter info)),
       (''android_api'', VStr (android_api info)),
       (''builder'', VStr (builder info)),
       (''build_id_sha1'', VStr (build_id_sha1 info)),
       (''debug_info'', VStr (bool_lower (debug_info info))),
       (''stripped'', VStr (bool_lower (stripped info))),
       (''binary_size_mb'', VFloat size_mb),
       (''total_instructions'', VInt (int total_insn))] []"

text \<open>
  \<open>inspect\<close>, with the registry as a parameter so that its properties can be stated for
  any table; the tool runs it on \<open>INSPECT_ARRAY\<close>.
\<close>

definition inspect_with ::
  "(string \<times> pattern) list \<Rightarrow> string \<Rightarrow> parsed_info \<Rightarrow> pyint \<Rightarrow> string \<Rightarrow> odict" where
  "inspect_with table binary_name info size_bytes disasm =
     (let size_mb = int_truediv size_bytes (1024 * 1024);
          total_insn = count_instructions disasm any_insn;
          st = ext_loop disasm total_insn table;
          detected_extensions = join_or_none (detected st);
          undetected_extensions = join_or_none (undetected st);
          output = output_items binary_name info size_mb total_insn
                     detected_extensions undetected_extensions
      in od_update output (extension_results st))"

definition inspect :: "string \<Rightarrow> parsed_info \<Rightarrow> pyint \<Rightarrow> string \<Rightarrow> odict" where
  "inspect = inspect_with INSPECT_ARRAY"

section \<open>What \<open>main\<close> prints of the report\<close>

definition ends_with :: "string \<Rightarrow> string \<Rightarrow> bool" where
  "ends_with s suf = starts_with (rev suf) (rev s)"

text \<open>\<open>debug_level = 0 if args.quiet else args.debug\<close>.\<close>

definition debug_level_of :: "bool \<Rightarrow> pyint \<Rightarrow> pyint" where
  "debug_level_of quiet debug = (if quiet then 0 else debug)"

text \<open>The test of the \<open>continue\<close> in the printing loop of \<open>main\<close>.\<close>

definition skipped :: "pyint \<Rightarrow> string \<Rightarrow> bool" where
  "skipped debug_level key =
     (debug_level < 1 \<and>
      (ends_with key ''_instructions'' \<or> ends_with key ''_instructions_percentage''))"

text \<open>
  The three formats of the printing loop. The digits of a float are not modelled: a
  printed line is the key, its format, and the value.
\<close>

datatype line_format = Fixed2 | Fixed1 | Plain

definition format_of :: "string \<Rightarrow> line_format" where
  "format_of key =
     (if ends_with key ''_percentage'' then Fixed2
      else if key = ''binary_size_mb'' then Fixed1
      else Plain)"

definition printed_items :: "pyint \<Rightarrow> odict \<Rightarrow> (string \<times> line_format \<times> pyval) list" where
  "printed_items debug_level results =
     map (\<lambda>(key, v). (key, format_of key, v))
       (filter (\<lambda>(key, v). \<not> skipped debug_level key) results)"

section \<open>The printing loop of \<open>main\<close>\<close>

text \<open>
  An exception, as far as \<open>main\<close> tells exceptions apart: a \<open>FileNotFoundError\<close> or any
  other one, with the text of \<open>str(e)\<close>.
\<close>

datatype py_error = FileNotFoundError string | OtherError string

text \<open>
  \<open>f"{value:.<p>f}"\<close>: a float is printed with \<open>p\<close> decimals, an integer is converted to
  a float first, and a string raises \<open>ValueError\<close>.
\<close>

definition format_float :: "nat \<Rightarrow> pyval \<Rightarrow> py_error + string" where
  "format_float p v =
     (case v of
        VFloat x \<Rightarrow> Inr (fmt_f p x)
      | VInt n \<Rightarrow> Inr (fmt_f p (float_of_int n))
      | VStr s \<Rightarrow> Inl (OtherError (''Unknown format code '' @ [CHR 0x27] @ ''f'' @ [CHR 0x27]
                   @ '' for object of type '' @ [CHR 0x27] @ ''str'' @ [CHR 0x27])))"

text \<open>\<open>f"{value}"\<close>.\<close>

definition py_str :: "pyval \<Rightarrow> string" where
  "py_str v = (case v of VStr s \<Rightarrow> s | VInt n \<Rightarrow> fmt_d n | VFloat x \<Rightarrow> float_repr x)"

text \<open>The line that the body of the loop prints for an item, or what it raises.\<close>

definition print_line :: "string \<times> pyval \<Rightarrow> py_error + string" where
  "print_line item =
     (let key = fst item; v = snd item
      in if ends_with key ''_percentage'' then map_sum id (\<lambda>t. key @ '': '' @ t) (format_float 2 v)
         else if key = ''binary_size_mb'' then map_sum id (\<lambda>t. key @ '': '' @ t) (format_float 1 v)
         else Inr (key @ '': '' @ py_str v))"

text \<open>
  The loop \<open>for key, value in results.items()\<close>: the lines printed so far, and the
  exception that ended the loop, if one did.
\<close>

fun print_results :: "pyint \<Rightarrow> odict \<Rightarrow> string list \<Rightarrow> string list \<times> py_error option" where
  "print_results debug_level [] out = (out, None)"
| "print_results debug_level (item # rest) out =
     (if skipped debug_level (fst item) then print_results debug_level rest out
      else (case print_line item of
              Inl e \<Rightarrow> (out, Some e)
            | Inr l \<Rightarrow> print_results debug_level rest (out @ [l])))"

section \<open>Reference definitions\<close>

text \<open>The text of a value under a key, when the key and the type of the value fit.\<close>

definition value_text :: "string \<times> pyval \<Rightarrow> string" where
  "value_text item =
     (case (format_of (fst item), snd item) of
        (Fixed2, VFloat x) \<Rightarrow> fmt_f 2 x
      | (Fixed1, VFloat x) \<Rightarrow> fmt_f 1 x
      | (_, VInt n) \<Rightarrow> fmt_d n
      | (_, VStr s) \<Rightarrow> s
      | (_, VFloat x) \<Rightarrow> float_repr x)"

text \<open>The type that the formats of \<open>main\<close> expect under a key.\<close>

definition well_typed :: "string \<times> pyval \<Rightarrow> bool" where
  "well_typed item =
     (case (format_of (fst item), snd item) of
        (Plain, VFloat x) \<Rightarrow> False
      | (Plain, _) \<Rightarrow> True
      | (_, VFloat x) \<Rightarrow> True
      | (_, _) \<Rightarrow> False)"

text \<open>A category is detected when its pattern counts at least one line.\<close>

definition detects :: "string \<Rightarrow> string \<times> pattern \<Rightarrow> bool" where
  "detects disasm e = (count_instructions disasm (snd e) > 0)"

text \<open>The two items that a category contributes to the report.\<close>

definition ext_items :: "string \<Rightarrow> nat \<Rightarrow> string \<times> pattern \<Rightarrow> odict" where
  "ext_items disasm total_insn e =
     [(count_key (fst e), VInt (int (count_instructions disasm (snd e)))),
      (pct_key (fst e), VFloat (percentage (count_instructions disasm (snd e)) total_insn))]"

definition ext_keys :: "string list \<Rightarrow> string list" where
  "ext_keys names = concat (map (\<lambda>n. [count_key n, pct_key n]) names)"

definition fixed_keys :: "string list" where
  "fixed_keys = [''binary_name'', ''detected_extensions'', ''undetected_extensions'',
     ''binary_format'', ''arch'', ''elf_version'', ''dynamically_linked'', ''interpreter'',
     ''android_api'', ''builder'', ''build_id_sha1'', ''debug_info'', ''stripped'',
     ''binary_size_mb'', ''total_instructions'']"

definition report_keys :: "string list" where
  "report_keys = fixed_keys @ ext_keys categories"

section \<open>Ordered dictionaries\<close>

lemma od_set_fresh: "k \<notin> fst ` set d \<Longrightarrow> od_set d k v = d @ [(k, v)]"
  unfolding od_set_def by (induction d) auto

lemma od_update_Nil [simp]: "od_update d [] = d"
  by (simp add: od_update_def)

lemma od_update_Cons [simp]: "od_update d ((k, v) # e) = od_update (od_set d k v) e"
  by (simp add: od_update_def)

lemma od_update_append: "od_update d (a @ b) = od_update (od_update d a) b"
  by (simp add: od_update_def)

lemma od_update_fresh:
  "distinct (map fst e) \<Longrightarrow> fst ` set e \<inter> fst ` set d = {} \<Longrightarrow> od_update d e = d @ e"
proof (induction e arbitrary: d)
  case Nil
  then show ?case by simp
next
  case (Cons x e)
  obtain k v where x: "x = (k, v)" by (cases x)
  from Cons.prems x have fresh: "k \<notin> fst ` set d" by auto
  from Cons.prems x have "fst ` set e \<inter> fst ` set (d @ [(k, v)]) = {}" by auto
  with Cons.prems have "od_update (d @ [(k, v)]) e = (d @ [(k, v)]) @ e"
    by (intro Cons.IH) simp_all
  with fresh x show ?case by (simp add: od_set_fresh)
qed

lemma output_items_eq:
  "output_items n info mb t de un =
     [(''binary_name'', VStr n), (''detected_extensions'', VStr de),
      (''undetected_extensions'', VStr un), (''binary_format'', VStr (binary_format info)),
      (''arch'', VStr (arch info)), (''elf_version'', VStr (elf_version info)),
      (''dynamically_linked'', VStr (bool_lower (dynamically_linked info))),
      (''interpreter'', VStr (interpreter info)), (''android_api'', VStr (android_api info)),
      (''builder'', VStr (builder info)), (''build_id_sha1'', VStr (build_id_sha1 info)),
      (''debug_info'', VStr (bool_lower (debug_info info))),
      (''stripped'', VStr (bool_lower (stripped info))),
      (''binary_size_mb'', VFloat mb), (''total_instructions'', VInt (int t))]"
  by (simp add: output_items_def od_set_def)

lemma output_items_keys: "map fst (output_items n info mb t de un) = fixed_keys"
  by (simp add: output_items_eq fixed_keys_def)

section \<open>Keys\<close>

lemma count_key_inj [simp]: "count_key a = count_key b \<longleftrightarrow> a = b"
  by (simp add: count_key_def)

lemma pct_key_inj [simp]: "pct_key a = pct_key b \<longleftrightarrow> a = b"
  by (simp add: pct_key_def)

lemma count_key_neq_pct_key [simp]: "count_key a \<noteq> pct_key b" "pct_key b \<noteq> count_key a"
proof -
  have "last (count_key a) \<noteq> last (pct_key b)"
    by (simp add: count_key_def pct_key_def)
  then show "count_key a \<noteq> pct_key b" "pct_key b \<noteq> count_key a" by auto
qed

lemma set_ext_keys: "set (ext_keys ns) = count_key ` set ns \<union> pct_key ` set ns"
  by (auto simp: ext_keys_def)

lemma distinct_ext_keys: "distinct ns \<Longrightarrow> distinct (ext_keys ns)"
proof (induction ns)
  case Nil
  then show ?case by (simp add: ext_keys_def)
next
  case (Cons n ns)
  have "ext_keys (n # ns) = count_key n # pct_key n # ext_keys ns"
    by (simp add: ext_keys_def)
  with Cons show ?case by (auto simp: set_ext_keys)
qed

lemma ext_items_keys:
  "map fst (concat (map (ext_items d t) table)) = ext_keys (map fst table)"
  by (induction table) (simp_all add: ext_items_def ext_keys_def)

section \<open>The loop\<close>

lemma ext_step_detected:
  "detected (ext_step d t e st) = detected st @ (if detects d e then [fst e] else [])"
  by (simp add: ext_step_def detects_def Let_def)

lemma ext_step_undetected:
  "undetected (ext_step d t e st) = undetected st @ (if detects d e then [] else [fst e])"
  by (simp add: ext_step_def detects_def Let_def)

lemma ext_step_results:
  "extension_results (ext_step d t e st) = od_update (extension_results st) (ext_items d t e)"
  by (simp add: ext_step_def ext_items_def Let_def)

lemmas ext_step_fields = ext_step_detected ext_step_undetected ext_step_results

lemma fold_ext_step:
  shows "detected (fold (ext_step d t) table st) =
           detected st @ map fst (filter (detects d) table)"
    and "undetected (fold (ext_step d t) table st) =
           undetected st @ map fst (filter (\<lambda>e. \<not> detects d e) table)"
    and "extension_results (fold (ext_step d t) table st) =
           od_update (extension_results st) (concat (map (ext_items d t) table))"
  by (induction table arbitrary: st) (simp_all add: ext_step_fields od_update_append)

lemma ext_loop_fields:
  shows "detected (ext_loop d t table) = map fst (filter (detects d) table)"
    and "undetected (ext_loop d t table) = map fst (filter (\<lambda>e. \<not> detects d e) table)"
    and "extension_results (ext_loop d t table) =
           od_update [] (concat (map (ext_items d t) table))"
  by (simp_all add: ext_loop_def fold_ext_step ext_init_def)

lemma ext_loop_results_distinct:
  "distinct (map fst table) \<Longrightarrow>
   extension_results (ext_loop d t table) = concat (map (ext_items d t) table)"
  by (simp add: ext_loop_fields od_update_fresh ext_items_keys distinct_ext_keys)

section \<open>The shape of the report\<close>

lemma fixed_key_suffix:
  "k \<in> set fixed_keys \<Longrightarrow> suffix ''_instructions'' k \<Longrightarrow> k = ''total_instructions''"
  by (auto simp: fixed_keys_def suffix_Cons)

lemma fixed_key_not_pct: "k \<in> set fixed_keys \<Longrightarrow> \<not> suffix ''_percentage'' k"
  by (auto simp: fixed_keys_def suffix_Cons)

lemma ext_keys_fixed_disjoint:
  "''total'' \<notin> set ns \<Longrightarrow> set (ext_keys ns) \<inter> set fixed_keys = {}"
proof -
  assume nt: "''total'' \<notin> set ns"
  { fix n assume n: "n \<in> set ns" and "count_key n \<in> set fixed_keys"
    moreover have "suffix ''_instructions'' (count_key n)"
      unfolding count_key_def by (rule suffix_appendI) (rule suffix_order.refl)
    ultimately have "count_key n = ''total_instructions''"
      by (intro fixed_key_suffix)
    then have "n = ''total''" by (simp add: count_key_def)
    with nt n have False by simp }
  moreover
  { fix n assume "pct_key n \<in> set fixed_keys"
    then have "\<not> suffix ''_percentage'' (pct_key n)" by (rule fixed_key_not_pct)
    moreover have "pct_key n = (n @ ''_instructions'') @ ''_percentage''"
      by (simp add: pct_key_def)
    ultimately have False by (metis suffix_appendI suffix_order.refl) }
  ultimately show ?thesis by (auto simp: set_ext_keys)
qed

lemma inspect_with_eq:
  assumes "distinct (map fst table)" "''total'' \<notin> fst ` set table"
  shows "inspect_with table n info sz d =
     output_items n info (int_truediv sz (1024 * 1024)) (count_instructions d any_insn)
       (join_or_none (map fst (filter (detects d) table)))
       (join_or_none (map fst (filter (\<lambda>e. \<not> detects d e) table)))
     @ concat (map (ext_items d (count_instructions d any_insn)) table)"
proof -
  let ?out = "output_items n info (int_truediv sz (1024 * 1024)) (count_instructions d any_insn)
       (join_or_none (map fst (filter (detects d) table)))
       (join_or_none (map fst (filter (\<lambda>e. \<not> detects d e) table)))"
  let ?ext = "concat (map (ext_items d (count_instructions d any_insn)) table)"
  from assms(2) have "set (ext_keys (map fst table)) \<inter> set fixed_keys = {}"
    by (intro ext_keys_fixed_disjoint) simp
  then have "set (map fst ?ext) \<inter> set (map fst ?out) = {}"
    by (simp only: ext_items_keys output_items_keys)
  moreover from assms(1) have "distinct (map fst ?ext)"
    by (simp only: ext_items_keys distinct_ext_keys)
  ultimately have "od_update ?out ?ext = ?out @ ?ext"
    by (intro od_update_fresh) simp_all
  with assms(1) show ?thesis
    by (simp add: inspect_with_def Let_def ext_loop_fields(1,2) ext_loop_results_distinct)
qed

lemma total_not_category: "''total'' \<notin> set categories"
  by (simp add: categories_def INSPECT_ARRAY_def)

lemma inspect_eq:
  "inspect n info sz d =
     output_items n info (int_truediv sz (1024 * 1024)) (count_instructions d any_insn)
       (join_or_none (map fst (filter (detects d) INSPECT_ARRAY)))
       (join_or_none (map fst (filter (\<lambda>e. \<not> detects d e) INSPECT_ARRAY)))
     @ concat (map (ext_items d (count_instructions d any_insn)) INSPECT_ARRAY)"
  unfolding inspect_def using distinct_categories total_not_category
  by (intro inspect_with_eq) (simp_all add: categories_def)

lemma inspect_keys_eq: "map fst (inspect n info sz d) = report_keys"
  by (simp add: inspect_eq output_items_keys ext_items_keys report_keys_def categories_def)

lemma distinct_fixed_keys: "distinct fixed_keys"
  by (simp add: fixed_keys_def)

lemma distinct_report_keys: "distinct report_keys"
  using ext_keys_fixed_disjoint [OF total_not_category]
  by (auto simp: report_keys_def distinct_fixed_keys distinct_ext_keys distinct_categories)

lemma count_le_any: "count_instructions d p \<le> count_instructions d any_insn"
  unfolding count_instructions_filter
  by (rule length_filter_mono) (rule counted_imp_insn)

lemma count_instructions_Nil [simp]: "count_instructions [] p = 0"
  by (simp add: count_instructions_filter counted_def)

lemma percentage_nonneg: "0 \<le> percentage c t"
  by (simp add: percentage_def float_div_def float_mul_def float_of_int_def rd_nonneg)

lemma percentage_zero [simp]: "percentage 0 t = 0" "percentage c 0 = 0"
  by (simp_all add: percentage_def float_div_def float_mul_def float_of_int_def)

text \<open>
  Below \<open>2\<^sup>4\<^sup>6\<close> instructions the product \<open>count * 100.0\<close> is exact, and the percentage is
  the quotient rounded once.
\<close>

lemma percentage_exact:
  assumes "c \<le> t" and "0 < t" and "t < 2 ^ 46"
  shows "percentage c t = rd (of_nat c * 100 / of_nat t)"
proof -
  from assms have "\<bar>int c\<bar> < 2 ^ 53" "\<bar>int t\<bar> < 2 ^ 53" "\<bar>int c * 100\<bar> < 2 ^ 53"
    by simp_all
  then have "rd (of_int (int c)) = of_int (int c)" "rd (of_int (int t)) = of_int (int t)"
    "rd (of_int (int c * 100)) = of_int (int c * 100)"
    by (simp_all only: rd_of_int)
  with assms(2) show ?thesis
    by (simp add: percentage_def float_div_def float_mul_def float_of_int_def)
qed

lemma percentage_le:
  assumes "c \<le> t" and "t < 2 ^ 46"
  shows "percentage c t \<le> 100"
proof (cases "0 < t")
  case True
  let ?q = "of_nat c * 100 / of_nat t :: rat"
  from assms(1) True have q: "0 \<le> ?q" "?q \<le> of_int 100"
    by (simp_all add: divide_le_eq)
  then have "\<bar>?q\<bar> < 2 ^ 53" by simp
  from this q(2) have "rd ?q \<le> of_int 100" by (rule rd_le_int)
  with percentage_exact [OF assms(1) True assms(2)] show ?thesis by simp
qed simp

lemma detects_Nil [simp]: "\<not> detects [] e"
  by (simp add: detects_def)

lemma category_no_semicolon: "n \<in> set categories \<Longrightarrow> CHR '';'' \<notin> set n"
  by (auto simp: categories_def INSPECT_ARRAY_def)

lemma none_not_category: "''none'' \<notin> set categories"
  by (simp add: categories_def INSPECT_ARRAY_def)

lemma categories_nonempty: "categories \<noteq> []"
  by (simp add: categories_def INSPECT_ARRAY_def)

lemma map_filter_partition:
  "distinct (map f xs) \<Longrightarrow>
   set (map f (filter p xs)) \<inter> set (map f (filter (\<lambda>x. \<not> p x) xs)) = {}"
  by (auto simp: distinct_map dest: inj_onD)

lemma ends_with_suffix: "ends_with s suf \<longleftrightarrow> suffix suf s"
  by (simp add: ends_with_def starts_with_prefix suffix_to_prefix)

lemma skipped_ext_keys: "dl < 1 \<Longrightarrow> filter (\<lambda>k. \<not> skipped dl k) (ext_keys ns) = []"
  by (simp add: ext_keys_def skipped_def ends_with_suffix count_key_def pct_key_def
      filter_empty_conv suffix_def)

lemma printed_keys: "map fst (printed_items dl r) = filter (\<lambda>k. \<not> skipped dl k) (map fst r)"
  by (induction r) (auto simp: printed_items_def)

section \<open>Printing\<close>

lemma format_of_count_key [simp]: "format_of (count_key c) = Plain"
proof -
  have "\<not> suffix ''_percentage'' (c @ ''_instructions'')"
    by (auto simp: suffix_def dest: arg_cong [where f = last])
  moreover have "c @ ''_instructions'' \<noteq> ''binary_size_mb''"
    by (auto dest: arg_cong [where f = last])
  ultimately show ?thesis
    by (simp add: format_of_def ends_with_suffix count_key_def)
qed

lemma format_of_pct_key [simp]: "format_of (pct_key c) = Fixed2"
proof -
  have "pct_key c = (c @ ''_instructions'') @ ''_percentage''" by (simp add: pct_key_def)
  then have "suffix ''_percentage'' (pct_key c)" by (metis suffix_appendI suffix_order.refl)
  then show ?thesis by (simp add: format_of_def ends_with_suffix)
qed

lemma format_of_fixed_keys:
  "map format_of fixed_keys =
     [Plain, Plain, Plain, Plain, Plain, Plain, Plain, Plain, Plain, Plain, Plain, Plain, Plain,
      Fixed1, Plain]"
  by code_simp

lemma print_line_well_typed:
  "well_typed item \<Longrightarrow> print_line item = Inr (fst item @ '': '' @ value_text item)"
  by (cases "snd item"; cases "format_of (fst item)")
    (auto simp: well_typed_def print_line_def value_text_def format_float_def py_str_def
      format_of_def Let_def split: if_splits)

lemma print_results_well_typed:
  "list_all well_typed (filter (\<lambda>i. \<not> skipped dl (fst i)) r) \<Longrightarrow>
   print_results dl r out =
     (out @ map (\<lambda>i. fst i @ '': '' @ value_text i) (filter (\<lambda>i. \<not> skipped dl (fst i)) r), None)"
  by (induction r arbitrary: out) (auto simp: print_line_well_typed split: if_splits)

lemma ext_items_well_typed: "list_all well_typed (concat (map (ext_items d t) table))"
  by (induction table) (simp_all add: ext_items_def well_typed_def)

lemma output_items_well_typed: "list_all well_typed (output_items n info (int_truediv sz k) t de un)"
  using format_of_fixed_keys
  by (simp add: output_items_eq well_typed_def fixed_keys_def)

lemma inspect_well_typed: "list_all well_typed (inspect n info sz d)"
  by (simp add: inspect_eq ext_items_well_typed output_items_well_typed)

section \<open>Properties\<close>

text \<open>
  C7 (invariant). The keys of the report and their order do not depend on the binary:
  they are the fifteen fixed keys followed by the count key and the percentage key of
  each category in the order of the registry, and no key occurs twice. A category with
  no match is in the report like any other.
\<close>

theorem inspect_keys: "map fst (inspect n info sz d) = report_keys \<and> distinct report_keys"
  by (simp add: inspect_keys_eq distinct_report_keys)

text \<open>
  C4 (functional). The report lists as detected the categories whose pattern counts
  at least one line and as undetected those whose count is zero, each list in the order
  of the registry, joined by semicolons, or \<open>none\<close> when the list is empty.
\<close>

theorem inspect_detected:
  "map_of (inspect n info sz d) ''detected_extensions'' =
     Some (VStr (join_or_none
       (map fst (filter (\<lambda>(name, p). 0 < count_instructions d p) INSPECT_ARRAY)))) \<and>
   map_of (inspect n info sz d) ''undetected_extensions'' =
     Some (VStr (join_or_none
       (map fst (filter (\<lambda>(name, p). count_instructions d p = 0) INSPECT_ARRAY))))"
proof -
  have "detects d = (\<lambda>(name, p). 0 < count_instructions d p)"
    "(\<lambda>e. \<not> detects d e) = (\<lambda>(name, p). count_instructions d p = 0)"
    by (auto simp: detects_def fun_eq_iff)
  then show ?thesis
    by (simp add: inspect_eq output_items_eq)
qed

text \<open>
  C27 (invariant). After the loop of \<open>inspect\<close> over the registry the detected and the
  undetected categories partition the categories: no category is in both lists, every
  category is in one of them, and none is listed twice.
\<close>

theorem detected_undetected_partition:
  "set (detected (ext_loop d t INSPECT_ARRAY)) \<inter> set (undetected (ext_loop d t INSPECT_ARRAY)) = {} \<and>
   set (detected (ext_loop d t INSPECT_ARRAY)) \<union> set (undetected (ext_loop d t INSPECT_ARRAY))
     = set categories \<and>
   distinct (detected (ext_loop d t INSPECT_ARRAY) @ undetected (ext_loop d t INSPECT_ARRAY))"
proof -
  have dist: "distinct (map fst INSPECT_ARRAY)"
    using distinct_categories by (simp add: categories_def)
  have 1: "set (detected (ext_loop d t INSPECT_ARRAY)) \<inter> set (undetected (ext_loop d t INSPECT_ARRAY)) = {}"
    unfolding ext_loop_fields by (rule map_filter_partition [OF dist])
  have 2: "set (detected (ext_loop d t INSPECT_ARRAY)) \<union> set (undetected (ext_loop d t INSPECT_ARRAY))
     = set categories"
    unfolding ext_loop_fields categories_def by auto
  have 3: "distinct (detected (ext_loop d t INSPECT_ARRAY))"
    "distinct (undetected (ext_loop d t INSPECT_ARRAY))"
    unfolding ext_loop_fields using dist by (simp_all add: distinct_map_filter)
  from 1 2 3 show ?thesis by simp
qed

text \<open>
  C18 (bounds). A percentage of the report, computed in floating point as the tool
  computes it, lies between 0 and 100 for every disassembly of fewer than \<open>2\<^sup>4\<^sup>6\<close>
  instruction lines: the count of a pattern never exceeds the total, the product
  \<open>count * 100.0\<close> is exact, and rounding the quotient does not cross 100. The
  percentage is 0 when the total is 0.
\<close>

theorem percentage_bounds:
  assumes "count_instructions d any_insn < 2 ^ 46"
  shows "0 \<le> percentage (count_instructions d p) (count_instructions d any_insn) \<and>
         percentage (count_instructions d p) (count_instructions d any_insn) \<le> 100"
  using assms by (simp add: percentage_nonneg percentage_le count_le_any)

theorem percentage_bounds_witness:
  "percentage (count_instructions ''  401000: sdot v0.4s, v1.16b, v2.16b'' any_insn)
      (count_instructions ''  401000: sdot v0.4s, v1.16b, v2.16b'' any_insn) \<le> 100"
proof -
  have "count_instructions ''  401000: sdot v0.4s, v1.16b, v2.16b'' any_insn = 1"
    by code_simp
  with percentage_bounds [of "''  401000: sdot v0.4s, v1.16b, v2.16b''" any_insn]
  show ?thesis by simp
qed

text \<open>
  C28 (functional). For an empty disassembly the total is 0, no category is detected
  (\<open>detected_extensions\<close> is \<open>none\<close>, \<open>undetected_extensions\<close> lists every category), and every
  category has count 0 and percentage 0.
\<close>

theorem inspect_empty_stream:
  "inspect n info sz [] =
     output_items n info (int_truediv sz (1024 * 1024)) 0 ''none'' (join '';'' categories)
     @ concat (map (\<lambda>c. [(count_key c, VInt 0), (pct_key c, VFloat 0)]) categories)"
proof -
  have "concat (map (ext_items [] 0) table) =
      concat (map (\<lambda>c. [(count_key c, VInt 0), (pct_key c, VFloat 0)]) (map fst table))" for table
    by (induction table) (simp_all add: ext_items_def)
  with categories_nonempty show ?thesis
    by (simp add: inspect_eq join_or_none_def categories_def)
qed

text \<open>
  Reading the report at the keys of a category of the registry gives
  the count of the category's pattern over the disassembly and that count as a
  percentage of the total number of instruction lines.
\<close>

theorem inspect_lookup:
  assumes "(name, p) \<in> set INSPECT_ARRAY"
  shows "map_of (inspect n info sz d) (count_key name) =
           Some (VInt (int (count_instructions d p))) \<and>
         map_of (inspect n info sz d) (pct_key name) =
           Some (VFloat (percentage (count_instructions d p) (count_instructions d any_insn)))"
proof -
  have dist: "distinct (map fst (inspect n info sz d))"
    by (simp add: inspect_keys_eq distinct_report_keys)
  from assms have "set (ext_items d (count_instructions d any_insn) (name, p))
      \<subseteq> set (inspect n info sz d)"
    by (force simp: inspect_eq)
  then show ?thesis
    by (auto simp: ext_items_def intro!: map_of_is_SomeI [OF dist])
qed

theorem inspect_lookup_witness:
  "map_of (inspect ''x265'' \<lparr>binary_format = [], arch = [], elf_version = [],
       dynamically_linked = False, interpreter = [], android_api = [], builder = [],
       build_id_sha1 = [], debug_info = False, stripped = False\<rparr> 0 []) (count_key ''aes'') =
     Some (VInt 0)"
  using inspect_lookup [of "''aes''"
      "mnemonics [Str ''aese'', Str ''aesd'', Str ''aesmc'', Str ''aesimc'']" "''x265''" _ 0 "[]"]
  by (simp add: INSPECT_ARRAY_def)

text \<open>
  The semicolon-joined list of the report can be read back: for a list
  of category names the joined text is \<open>none\<close> only for the empty list, and splitting the
  text of a non-empty list at the semicolons gives the list again. No category is named
  \<open>none\<close> and no category name contains a semicolon.
\<close>

theorem extensions_roundtrip:
  assumes "set xs \<subseteq> set categories"
  shows "(join_or_none xs = ''none'' \<longleftrightarrow> xs = []) \<and>
         (xs \<noteq> [] \<longrightarrow> split_on (CHR '';'') (join_or_none xs) = xs)"
proof (cases "xs = []")
  case True
  then show ?thesis by (simp add: join_or_none_def)
next
  case False
  from assms have "\<forall>x \<in> set xs. CHR '';'' \<notin> set x"
    by (auto dest: category_no_semicolon)
  with False have rt: "split_on (CHR '';'') (join_or_none xs) = xs"
    by (simp add: join_or_none_def split_on_join)
  have "join_or_none xs \<noteq> ''none''"
  proof
    assume "join_or_none xs = ''none''"
    with rt have "xs = [''none'']" by (simp add: split_on_no_sep_id)
    with assms none_not_category show False by simp
  qed
  with rt False show ?thesis by simp
qed

text \<open>
  The results of the loop do not depend on the order in which the
  categories are visited: two tables with the same entries and distinct names give the
  same count and percentage for every key and the same sets of detected and undetected
  categories.
\<close>

theorem ext_loop_order_independent:
  assumes "set table = set table'" "distinct (map fst table)" "distinct (map fst table')"
  shows "map_of (extension_results (ext_loop d t table)) =
           map_of (extension_results (ext_loop d t table')) \<and>
         set (detected (ext_loop d t table)) = set (detected (ext_loop d t table')) \<and>
         set (undetected (ext_loop d t table)) = set (undetected (ext_loop d t table'))"
proof -
  have "set (concat (map (ext_items d t) table)) = set (concat (map (ext_items d t) table'))"
    using assms(1) by simp
  moreover have "distinct (map fst (concat (map (ext_items d t) table)))"
    "distinct (map fst (concat (map (ext_items d t) table')))"
    using assms(2,3) by (simp_all only: ext_items_keys distinct_ext_keys)
  ultimately have "map_of (concat (map (ext_items d t) table)) =
      map_of (concat (map (ext_items d t) table'))"
    by (simp add: map_of_inject_set)
  with assms show ?thesis
    by (simp add: ext_loop_results_distinct ext_loop_fields(1,2))
qed

text \<open>
  C38 (functional). At the default debug level, and with \<open>--quiet\<close>, \<open>main\<close> prints the first
  fourteen keys of the report only. The per-category keys are skipped as intended; the
  key \<open>total_instructions\<close> is skipped with them, because it ends with \<open>_instructions\<close>.
\<close>

theorem default_verbosity_keys:
  "map fst (printed_items (debug_level_of quiet 0) (inspect n info sz d)) =
     [''binary_name'', ''detected_extensions'', ''undetected_extensions'',
      ''binary_format'', ''arch'', ''elf_version'', ''dynamically_linked'', ''interpreter'',
      ''android_api'', ''builder'', ''build_id_sha1'', ''debug_info'', ''stripped'',
      ''binary_size_mb'']"
proof -
  have "filter (\<lambda>k. \<not> skipped 0 k) fixed_keys =
     [''binary_name'', ''detected_extensions'', ''undetected_extensions'',
      ''binary_format'', ''arch'', ''elf_version'', ''dynamically_linked'', ''interpreter'',
      ''android_api'', ''builder'', ''build_id_sha1'', ''debug_info'', ''stripped'',
      ''binary_size_mb'']"
    by code_simp
  then show ?thesis
    by (simp add: printed_keys inspect_keys_eq report_keys_def skipped_ext_keys
        debug_level_of_def)
qed

theorem extensions_roundtrip_witness:
  "split_on (CHR '';'') (join_or_none [''asimd'', ''aes'']) = [''asimd'', ''aes'']"
  using extensions_roundtrip [of "[''asimd'', ''aes'']"]
  by (simp add: categories_def INSPECT_ARRAY_def)

theorem ext_loop_order_independent_witness:
  "set (detected (ext_loop [] 0 (rev INSPECT_ARRAY))) = set (detected (ext_loop [] 0 INSPECT_ARRAY))"
  using ext_loop_order_independent [of "rev INSPECT_ARRAY" INSPECT_ARRAY "[]" 0] distinct_categories
  by (simp add: categories_def rev_map [symmetric])


text \<open>
  C19 (safety). The printing loop of \<open>main\<close> never raises on a report of \<open>inspect\<close>: under
  every key the value has the type that the format of the key expects. At every debug
  level it prints, for each key that is not skipped and in the order of the report, the
  key, a colon and the value: percentages with two decimals, the size with one,
  counts in decimal, texts as they are.
\<close>

theorem main_prints_report:
  "print_results dl (inspect n info sz d) [] =
     (map (\<lambda>item. fst item @ '': '' @ value_text item)
        (filter (\<lambda>item. \<not> skipped dl (fst item)) (inspect n info sz d)), None)"
proof -
  have "list_all well_typed (filter (\<lambda>i. \<not> skipped dl (fst i)) (inspect n info sz d))"
    using inspect_well_typed [of n info sz d] by (simp add: list_all_iff)
  from print_results_well_typed [OF this, of "[]"] show ?thesis by simp
qed

end
