(* ===== verification/FileInfo.thy ===== *)
theory FileInfo
  imports Inspect
begin

text \<open>
  The method \<open>parse_file_info\<close> of \<open>BinaryInspector\<close>, which cuts the output of \<open>file\<close> into
  the fields of the report. Its patterns have one group each and are linear: a literal,
  then literals and runs \<open>[...]+\<close> in sequence. For such a pattern the text of the group
  is computed by \<open>lin_match\<close>, which takes every run as long as it can; the lemmas relate
  it to the denotation of the pattern.
\<close>

section \<open>Linear patterns\<close>

datatype item = L string | R atom

fun item_rexp :: "item \<Rightarrow> rexp" where
  "item_rexp (L w) = Str w"
| "item_rexp (R a) = Plus1 (Atom a)"

fun lin_rexp :: "item list \<Rightarrow> rexp" where
  "lin_rexp [] = One"
| "lin_rexp (x # xs) = Seq (item_rexp x) (lin_rexp xs)"

text \<open>The text that the items match at the start of \<open>s\<close>, every run taken greedily.\<close>

fun lin_match :: "item list \<Rightarrow> string \<Rightarrow> string option" where
  "lin_match [] s = Some []"
| "lin_match (L w # xs) s =
     (if starts_with w s then map_option ((@) w) (lin_match xs (drop (length w) s)) else None)"
| "lin_match (R a # xs) s =
     (let run = takeWhile (accepts a) s in
      if run = [] then None
      else map_option ((@) run) (lin_match xs (drop (length run) s)))"

text \<open>\<open>m.group(1)\<close> for \<open>m = re.match(pre(grp), s)\<close>, or \<open>None\<close> when there is no match.\<close>

definition match_group :: "string \<Rightarrow> item list \<Rightarrow> string \<Rightarrow> string option" where
  "match_group pre grp s =
     (if starts_with pre s then lin_match grp (drop (length pre) s) else None)"

text \<open>The same for \<open>re.search\<close>: the match that starts first.\<close>

fun search_group :: "string \<Rightarrow> item list \<Rightarrow> string \<Rightarrow> string option" where
  "search_group pre grp [] = match_group pre grp []"
| "search_group pre grp (c # cs) =
     (case match_group pre grp (c # cs) of
        Some g \<Rightarrow> Some g
      | None \<Rightarrow> search_group pre grp cs)"

text \<open>\<open>re.search\<close> for a group of literal alternatives \<open>(a|b|c)\<close>.\<close>

fun search_alts :: "string list \<Rightarrow> string \<Rightarrow> string option" where
  "search_alts alts [] = find (\<lambda>w. starts_with w []) alts"
| "search_alts alts (c # cs) =
     (case find (\<lambda>w. starts_with w (c # cs)) alts of
        Some w \<Rightarrow> Some w
      | None \<Rightarrow> search_alts alts cs)"

text \<open>\<open>x if m else default\<close>.\<close>

definition group_or :: "string \<Rightarrow> string option \<Rightarrow> string" where
  "group_or dflt m = (case m of Some g \<Rightarrow> g | None \<Rightarrow> dflt)"

section \<open>The fields\<close>

abbreviation not_comma :: atom where
  "not_comma \<equiv> NCls [CChar (CHR '','')]"

abbreviation digit_cls :: atom where
  "digit_cls \<equiv> Cls [CRange (CHR ''0'') (CHR ''9'')]"

text \<open>\<open>file_info.split(":", 1)[1].strip()\<close> when the text has a colon.\<close>

definition drop_file_name :: "string \<Rightarrow> string" where
  "drop_file_name file_info =
     (if CHR '':'' \<in> set file_info
      then strip (tl (dropWhile (\<lambda>c. c \<noteq> CHR '':'') file_info))
      else file_info)"

definition parse_file_info :: "string \<Rightarrow> parsed_info" where
  "parse_file_info file_info0 =
     (let file_info = drop_file_name file_info0 in
      \<lparr>binary_format =
         group_or ''unknown'' (match_group [] [L ''ELF '', R not_comma] file_info),
       parsed_info.arch =
         group_or ''unknown'' (search_alts [''ARM aarch64'', ''x86-64'', ''i386'', ''MIPS''] file_info),
       elf_version =
         group_or ''unknown''
           (search_group [] [L ''version '', R digit_cls, L '' ('', R (NCls [CChar (CHR '')'')]), L '')'']
              file_info),
       dynamically_linked = contains ''dynamically linked'' file_info,
       interpreter =
         (case search_group ''interpreter '' [R not_comma] file_info of
            Some g \<Rightarrow> strip g | None \<Rightarrow> ''none''),
       android_api = group_or ''none'' (search_group ''for '' [L ''Android '', R digit_cls] file_info),
       builder = group_or ''unknown'' (search_group ''built by '' [L ''NDK '', R not_comma] file_info),
       build_id_sha1 = group_or ''none'' (search_group ''BuildID[sha1]='' [R hex_cls] file_info),
       debug_info = contains ''with debug_info'' file_info,
       stripped = (contains ''stripped'' file_info \<and> \<not> contains ''not stripped'' file_info)\<rparr>)"

text \<open>The first two steps of \<open>inspect\<close> composed with the rest.\<close>

definition inspect_file :: "string \<Rightarrow> string \<Rightarrow> pyint \<Rightarrow> string \<Rightarrow> odict" where
  "inspect_file binary_name file_info size_bytes disasm =
     inspect binary_name (parse_file_info file_info) size_bytes disasm"

section \<open>Reference: when a run cannot be cut short\<close>

text \<open>
  A linear pattern is deterministic when no run is followed by another run or by a
  literal that starts with a character of the run. Then a match cannot end a run
  early, so backtracking finds nothing that the greedy match misses.
\<close>

fun det :: "item list \<Rightarrow> bool" where
  "det [] = True"
| "det (L w # xs) = det xs"
| "det [R a] = True"
| "det (R a # L [] # xs) = False"
| "det (R a # L (c # w) # xs) = (\<not> accepts a c \<and> det xs)"
| "det (R a # R b # xs) = False"

section \<open>Greedy matching and the denotation\<close>

lemma lin_match_sound:
  "lin_match xs s = Some m \<Longrightarrow> prefix m s \<and> matches (lin_rexp xs) m"
proof (induction xs s arbitrary: m rule: lin_match.induct)
  case (1 s)
  then show ?case by simp
next
  case (2 w xs s)
  from "2.prems" obtain m2 where w: "prefix w s" and m2: "lin_match xs (drop (length w) s) = Some m2"
    and m: "m = w @ m2"
    by (auto simp: starts_with_prefix split: if_splits)
  from "2.IH" [OF _ m2] w have "prefix m2 (drop (length w) s)" "matches (lin_rexp xs) m2"
    by (simp_all add: starts_with_prefix)
  with w m show ?case
    by (auto simp: matches_Seq prefix_def)
next
  case (3 a xs s)
  let ?run = "takeWhile (accepts a) s"
  from "3.prems" obtain m2 where ne: "?run \<noteq> []"
    and m2: "lin_match xs (drop (length ?run) s) = Some m2" and m: "m = ?run @ m2"
    by (auto simp: Let_def split: if_splits)
  from "3.IH" [OF refl ne m2] have p: "prefix m2 (drop (length ?run) s)" and r: "matches (lin_rexp xs) m2"
    by simp_all
  have "s = ?run @ drop (length ?run) s"
    by (metis takeWhile_dropWhile_id dropWhile_eq_drop)
  with p have "prefix (?run @ m2) s"
    by (metis same_prefix_prefix)
  moreover from ne have "matches (Plus1 (Atom a)) ?run"
    by (auto simp: matches_Plus1_atom dest: set_takeWhileD)
  ultimately show ?case using r m
    by (auto simp: matches_Seq)
qed

lemma takeWhile_stop:
  "\<forall>c \<in> set u. p c \<Longrightarrow> \<not> p d \<Longrightarrow> takeWhile p (u @ d # t) = u"
  by (induction u) auto

lemma prefix_takeWhile:
  "prefix u s \<Longrightarrow> \<forall>c \<in> set u. p c \<Longrightarrow> prefix u (takeWhile p s)"
  by (auto simp: prefix_def takeWhile_append2)

lemma lin_match_complete:
  "det xs \<Longrightarrow> prefix m' s \<Longrightarrow> matches (lin_rexp xs) m' \<Longrightarrow>
     \<exists>m. lin_match xs s = Some m \<and> prefix m' m"
proof (induction xs arbitrary: m' s rule: det.induct)
  case 1
  then show ?case by simp
next
  case (2 w xs)
  from "2.prems"(3) obtain v where m': "m' = w @ v" and v: "matches (lin_rexp xs) v"
    by (auto simp: matches_Seq)
  from "2.prems"(2) m' obtain t where s: "s = w @ v @ t"
    by (auto simp: prefix_def)
  from "2.prems"(1) have "det xs" by simp
  from "2.IH" [OF this _ v, of "v @ t"] obtain m where "lin_match xs (v @ t) = Some m" "prefix v m"
    by auto
  with s m' show ?case
    by (simp add: starts_with_prefix)
next
  case (3 a)
  from "3.prems"(3) have ne: "m' \<noteq> []" and all: "\<forall>c \<in> set m'. accepts a c"
    by (auto simp: matches_Seq matches_Plus1_atom)
  from prefix_takeWhile [OF "3.prems"(2) all] ne
  have "prefix m' (takeWhile (accepts a) s)" "takeWhile (accepts a) s \<noteq> []"
    by auto
  then show ?case by (simp add: Let_def)
next
  case (5 a c w xs)
  from "5.prems"(3) obtain u v where m': "m' = u @ (c # w) @ v"
    and u: "u \<noteq> []" "\<forall>c \<in> set u. accepts a c" and v: "matches (lin_rexp xs) v"
    by (auto simp: matches_Seq matches_Plus1_atom)
  from "5.prems"(2) m' obtain t where s: "s = u @ c # (w @ v @ t)"
    by (auto simp: prefix_def)
  from "5.prems"(1) have na: "\<not> accepts a c" and d: "det xs" by simp_all
  from takeWhile_stop [OF u(2) na] s have run: "takeWhile (accepts a) s = u"
    by simp
  from "5.IH" [OF d _ v, of "v @ t"] obtain m where m: "lin_match xs (v @ t) = Some m" "prefix v m"
    by auto
  with run u s m' show ?case
    by (simp add: Let_def starts_with_prefix)
qed simp_all

lemma match_group_sound:
  "match_group pre grp s = Some g \<Longrightarrow> prefix (pre @ g) s \<and> matches (lin_rexp grp) g"
proof -
  assume "match_group pre grp s = Some g"
  then have p: "prefix pre s" and "lin_match grp (drop (length pre) s) = Some g"
    by (auto simp: match_group_def starts_with_prefix split: if_splits)
  from lin_match_sound [OF this(2)] p show ?thesis
    by (auto simp: prefix_def)
qed

lemma match_group_None:
  assumes "det grp"
  shows "match_group pre grp s = None \<longleftrightarrow> \<not> match_spec (Seq (Str pre) (lin_rexp grp)) s"
proof
  assume n: "match_group pre grp s = None"
  show "\<not> match_spec (Seq (Str pre) (lin_rexp grp)) s"
  proof
    assume "match_spec (Seq (Str pre) (lin_rexp grp)) s"
    then obtain m' t where s: "s = pre @ m' @ t" and m': "matches (lin_rexp grp) m'"
      by (auto simp: match_spec_def matches_Seq)
    from lin_match_complete [OF assms _ m', of "m' @ t"] s n show False
      by (auto simp: match_group_def starts_with_prefix)
  qed
next
  assume n: "\<not> match_spec (Seq (Str pre) (lin_rexp grp)) s"
  show "match_group pre grp s = None"
  proof (rule ccontr)
    assume "match_group pre grp s \<noteq> None"
    then obtain g where "match_group pre grp s = Some g" by auto
    from match_group_sound [OF this] obtain zs where "s = (pre @ g) @ zs"
      "matches (Seq (Str pre) (lin_rexp grp)) (pre @ g)"
      by (auto simp: matches_Seq prefix_def)
    then have "match_spec (Seq (Str pre) (lin_rexp grp)) s"
      unfolding match_spec_def by blast
    with n show False ..
  qed
qed

lemma search_group_sound:
  "search_group pre grp s = Some g \<Longrightarrow> sublist (pre @ g) s \<and> matches (lin_rexp grp) g"
proof (induction s)
  case Nil
  then show ?case by (auto dest: match_group_sound)
next
  case (Cons c cs)
  show ?case
  proof (cases "match_group pre grp (c # cs)")
    case None
    with Cons show ?thesis by (auto simp: sublist_Cons_right)
  next
    case (Some g')
    with Cons.prems have "g' = g" by simp
    with match_group_sound [OF Some] show ?thesis by auto
  qed
qed

lemma search_group_None:
  "det grp \<Longrightarrow>
   search_group pre grp s = None \<longleftrightarrow> \<not> search_spec (Seq (Str pre) (lin_rexp grp)) s"
proof (induction s)
  case Nil
  from match_group_None [OF Nil, of pre "[]"] show ?case by simp
next
  case (Cons c cs)
  from match_group_None [OF Cons.prems, of pre "c # cs"] Cons show ?case
    by (auto simp: search_spec_Cons split: option.splits)
qed

lemma drop_file_name_sublist: "sublist (drop_file_name s) s"
proof -
  let ?rest = "tl (dropWhile (\<lambda>c. c \<noteq> CHR '':'') s)"
  have "suffix ?rest s"
    by (meson suffix_dropWhile suffix_tl suffix_order.order_trans)
  then have "sublist ?rest s" by (rule suffix_imp_sublist)
  with strip_sublist [of ?rest] have "sublist (strip ?rest) s"
    by (rule sublist_order.order_trans)
  then show ?thesis by (simp add: drop_file_name_def)
qed

lemma file_info_patterns_det:
  "det [L ''ELF '', R not_comma]"
  "det [L ''version '', R digit_cls, L '' ('', R (NCls [CChar (CHR '')'')]), L '')'']"
  "det [R not_comma]" "det [L ''Android '', R digit_cls]" "det [L ''NDK '', R not_comma]"
  "det [R hex_cls]"
  by (simp_all add: hex_cls_def)

lemma search_alts_sound: "search_alts alts s = Some w \<Longrightarrow> w \<in> set alts \<and> sublist w s"
proof (induction s)
  case Nil
  then show ?case by (auto simp: find_Some_iff starts_with_prefix in_set_conv_nth)
next
  case (Cons c cs)
  then show ?case
    by (auto simp: find_Some_iff starts_with_prefix in_set_conv_nth sublist_Cons_right
        split: option.splits)
qed

lemma search_alts_None: "search_alts alts s = None \<longleftrightarrow> (\<forall>w \<in> set alts. \<not> sublist w s)"
proof (induction s)
  case Nil
  show ?case by (auto simp: find_None_iff starts_with_prefix)
next
  case (Cons c cs)
  have "search_alts alts (c # cs) = None \<longleftrightarrow>
      find (\<lambda>w. starts_with w (c # cs)) alts = None \<and> search_alts alts cs = None"
    by (simp split: option.splits)
  with Cons show ?case
    by (auto simp: find_None_iff starts_with_prefix sublist_Cons_right)
qed

lemma arch_field:
  "parsed_info.arch (parse_file_info s) \<in>
     set [''ARM aarch64'', ''x86-64'', ''i386'', ''MIPS'', ''unknown'']"
  by (cases "search_alts [''ARM aarch64'', ''x86-64'', ''i386'', ''MIPS''] (drop_file_name s)")
    (auto simp: parse_file_info_def group_or_def Let_def dest: search_alts_sound)

section \<open>Properties\<close>

text \<open>
  C23 (refinement). For a deterministic linear pattern, \<open>search_group\<close> finds no group
  exactly when no piece of the text is in the denotation of the pattern, so a field
  gets its default exactly when \<open>re.search\<close> fails; and a group that it returns is in the
  denotation of the group and occurs in the text right after the literal.
\<close>

theorem search_group_spec:
  assumes "det grp"
  shows "(search_group pre grp s = None \<longleftrightarrow> \<not> search_spec (Seq (Str pre) (lin_rexp grp)) s) \<and>
         (\<forall>g. search_group pre grp s = Some g \<longrightarrow>
            sublist (pre @ g) s \<and> matches (lin_rexp grp) g)"
  using search_group_None [OF assms] search_group_sound by blast

theorem search_group_spec_witness:
  "search_group ''for '' [L ''Android '', R digit_cls] ''pie, for Android 29, stripped''
     = Some ''Android 29'' \<and>
   matches (lin_rexp [L ''Android '', R digit_cls]) ''Android 29''"
proof -
  have e: "search_group ''for '' [L ''Android '', R digit_cls] ''pie, for Android 29, stripped''
     = Some ''Android 29''"
    by code_simp
  have d: "det [L ''Android '', R digit_cls]"
    by simp
  from search_group_spec [OF d, of "''for ''" "''pie, for Android 29, stripped''"] e
  show ?thesis by simp
qed

text \<open>
  Example. On a line as \<open>file\<close> prints it for an Android executable,
  \<open>parse_file_info\<close> drops the path, and extracts the format up to the first comma, the
  architecture, the version with its parenthesis, the interpreter, the API level, the
  builder and the build id; \<open>not stripped\<close> is not taken for \<open>stripped\<close>.
\<close>

theorem parse_file_info_example:
  "parse_file_info ''/data/x265: ELF 64-bit LSB pie executable, ARM aarch64, version 1 (SYSV), dynamically linked, interpreter /system/bin/linker64, BuildID[sha1]=0a1b2c3d, for Android 29, built by NDK r25c (9519653), not stripped''
   = \<lparr>binary_format = ''ELF 64-bit LSB pie executable'', parsed_info.arch = ''ARM aarch64'',
      elf_version = ''version 1 (SYSV)'', dynamically_linked = True,
      interpreter = ''/system/bin/linker64'', android_api = ''Android 29'',
      builder = ''NDK r25c (9519653)'', build_id_sha1 = ''0a1b2c3d'', debug_info = False,
      stripped = False\<rparr>"
  by code_simp

text \<open>What \<open>get_file_info\<close> returns when \<open>file\<close> fails has no field: every default.\<close>

lemma parse_file_info_error_text:
  "parse_file_info ''Error: Command returned non-zero exit status 1.''
   = \<lparr>binary_format = ''unknown'', parsed_info.arch = ''unknown'',
      elf_version = ''unknown'', dynamically_linked = False,
      interpreter = ''none'', android_api = ''none'',
      builder = ''unknown'', build_id_sha1 = ''none'', debug_info = False,
      stripped = False\<rparr>"
  by code_simp


text \<open>
  C39 (type). The build id of the report is the word \<open>none\<close>, or a non-empty run of
  lower-case hexadecimal digits that follows \<open>BuildID[sha1]=\<close> in the description.
\<close>

theorem build_id_shape:
  "build_id_sha1 (parse_file_info s) = ''none'' \<or>
   (build_id_sha1 (parse_file_info s) \<noteq> [] \<and>
    list_all is_hexdigit (build_id_sha1 (parse_file_info s)) \<and>
    sublist (''BuildID[sha1]='' @ build_id_sha1 (parse_file_info s)) s)"
proof (cases "search_group ''BuildID[sha1]='' [R hex_cls] (drop_file_name s)")
  case None
  then show ?thesis by (simp add: parse_file_info_def group_or_def Let_def)
next
  case (Some g)
  from search_group_sound [OF Some]
  have "sublist (''BuildID[sha1]='' @ g) (drop_file_name s)" "g \<noteq> []" "list_all is_hexdigit g"
    by (auto simp: matches_Seq matches_Plus1_atom is_hexdigit_def list_all_iff)
  moreover note drop_file_name_sublist [of s]
  ultimately show ?thesis using Some
    by (auto simp: parse_file_info_def group_or_def Let_def intro: sublist_order.order_trans)
qed

end
