(* ===== verification/Filesystem.thy ===== *)
theory Filesystem
  imports Inspect "HOL-Library.List_Lexorder" "HOL-Library.Char_ord"
begin

text \<open>
  What \<^verbatim>\<open>arm64.inspect.py\<close> sees of the machine it runs on. Paths are the values of
  \<open>pathlib.Path\<close> on a POSIX system: a root and the list of the parts, as
  \<open>Path(s)\<close> builds them from a string. The machine is the record \<open>world\<close> of the
  answers that the file system, the environment and other programs give; the tool
  only reads, so a run does not change it.
\<close>

section \<open>Paths\<close>

datatype path = Path (path_root: string) (path_parts: "string list")

text \<open>
  The root of a path string: none for a relative path, \<open>//\<close> for exactly two leading
  slashes, \<open>/\<close> for one or for three and more.
\<close>

definition splitroot :: "string \<Rightarrow> string \<times> string" where
  "splitroot p =
     (if take 1 p \<noteq> ''/'' then ([], p)
      else if take 1 (drop 1 p) \<noteq> ''/'' \<or> take 1 (drop 2 p) = ''/'' then (''/'', drop 1 p)
      else (''//'', drop 2 p))"

text \<open>\<open>Path(s)\<close>: the parts between slashes, without the empty ones and the dots.\<close>

definition to_path :: "string \<Rightarrow> path" where
  "to_path s =
     (let (rt, rel) = splitroot s
      in Path rt (filter (\<lambda>x. x \<noteq> [] \<and> x \<noteq> ''.'') (split_on (CHR ''/'') rel)))"

text \<open>\<open>str(p)\<close>.\<close>

definition path_str :: "path \<Rightarrow> string" where
  "path_str p =
     (if path_root p \<noteq> [] then path_root p @ join ''/'' (path_parts p)
      else if path_parts p = [] then ''.''
      else join ''/'' (path_parts p))"

text \<open>\<open>p.name\<close>.\<close>

definition path_name :: "path \<Rightarrow> string" where
  "path_name p = (if path_parts p = [] then [] else last (path_parts p))"

section \<open>The machine\<close>

text \<open>
  \<^item> \<open>path_exists\<close>: \<open>Path.exists\<close> on the string of a path;
  \<^item> \<open>file_size\<close>: \<open>Path.stat().st_size\<close>, or the exception of \<open>stat\<close>;
  \<^item> \<open>which\<close>: \<open>shutil.which\<close>;
  \<^item> \<open>home_dir\<close>: the home directory that \<open>os.path.expanduser\<close> finds, if it finds one;
  \<^item> \<open>glob_files\<close>: \<open>glob.glob\<close>, in the order it returns the paths;
  \<^item> \<open>run_process\<close>: \<open>subprocess.run\<close> with captured text output: the return code and the
    standard output of the program, or the exception that starting it or decoding its
    output raises;
  \<^item> \<open>signal_name\<close>: \<open>repr(signal.Signals(n))\<close>, for the numbers that name a signal.
\<close>

record world =
  path_exists :: "string \<Rightarrow> bool"
  file_size :: "string \<Rightarrow> py_error + nat"
  which :: "string \<Rightarrow> string option"
  home_dir :: "string option"
  glob_files :: "string \<Rightarrow> string list"
  run_process :: "string list \<Rightarrow> py_error + (pyint \<times> string)"
  signal_name :: "pyint \<Rightarrow> string option"

text \<open>
  \<open>os.path.expanduser("~" + rest)\<close> for a \<open>rest\<close> that starts with a slash: the home
  directory without its trailing slashes takes the place of the tilde; without a home
  directory the path stays as it is.
\<close>

definition rstrip_slash :: "string \<Rightarrow> string" where
  "rstrip_slash s = rev (dropWhile (\<lambda>c. c = CHR ''/'') (rev s))"

definition expand_home :: "world \<Rightarrow> string \<Rightarrow> string" where
  "expand_home w rest =
     (case home_dir w of
        None \<Rightarrow> ''~'' @ rest
      | Some userhome \<Rightarrow> (let r = rstrip_slash userhome @ rest in if r = [] then ''/'' else r))"

section \<open>The text of a failed command\<close>

text \<open>
  \<open>repr(s)\<close> for a string: in single quotes, or in double quotes when the string has a
  single quote and no double quote; the quote, the backslash and the characters that
  are not printable are escaped.
\<close>

definition printable :: "char \<Rightarrow> bool" where
  "printable c \<longleftrightarrow>
     (let n = (of_char c :: nat) in (32 \<le> n \<and> n < 127) \<or> (161 \<le> n \<and> n \<noteq> 173))"

definition hex2 :: "char \<Rightarrow> string" where
  "hex2 c = zfill 2 (fmt_x (of_char c))"

definition escape_char :: "char \<Rightarrow> char \<Rightarrow> string" where
  "escape_char quote c =
     (if c = quote \<or> c = CHR 0x5C then [CHR 0x5C, c]
      else if c = CHR 0x09 then [CHR 0x5C, CHR ''t'']
      else if c = CHR 0x0A then [CHR 0x5C, CHR ''n'']
      else if c = CHR 0x0D then [CHR 0x5C, CHR ''r'']
      else if \<not> printable c then [CHR 0x5C, CHR ''x''] @ hex2 c
      else [c])"

definition py_repr :: "string \<Rightarrow> string" where
  "py_repr s =
     (let quote = (if CHR 0x27 \<in> set s \<and> CHR 0x22 \<notin> set s then CHR 0x22 else CHR 0x27)
      in [quote] @ concat (map (escape_char quote) s) @ [quote])"

text \<open>\<open>repr\<close> of a list of strings.\<close>

definition py_repr_list :: "string list \<Rightarrow> string" where
  "py_repr_list xs = ''['' @ join '', '' (map py_repr xs) @ '']''"

text \<open>\<open>str(e)\<close> for the \<open>CalledProcessError\<close> of a command and its return code.\<close>

definition called_process_error :: "world \<Rightarrow> string list \<Rightarrow> pyint \<Rightarrow> string" where
  "called_process_error w cmd returncode =
     ''Command '' @ [CHR 0x27] @ py_repr_list cmd @ [CHR 0x27] @
     (if returncode < 0 then
        (case signal_name w (- returncode) of
           Some name \<Rightarrow> '' died with '' @ name @ ''.''
         | None \<Rightarrow> '' died with unknown signal '' @ fmt_d (- returncode) @ ''.'')
      else '' returned non-zero exit status '' @ fmt_d returncode @ ''.'')"

section \<open>Paths: what \<open>Path\<close> keeps of a string\<close>

lemma splitroot_cases:
  "splitroot s = ([], s) \<and> take 1 s \<noteq> ''/'' \<or>
   splitroot s = (''/'', drop 1 s) \<and> take 1 s = ''/'' \<or>
   splitroot s = (''//'', drop 2 s) \<and> take 2 s = ''//'' \<and> take 1 (drop 2 s) \<noteq> ''/''"
  by (cases s; cases "tl s") (auto simp: splitroot_def)

lemma part_no_slash: "x \<in> set (path_parts (to_path s)) \<Longrightarrow> CHR ''/'' \<notin> set x \<and> x \<noteq> [] \<and> x \<noteq> ''.''"
  by (auto simp: to_path_def split: prod.splits dest: split_on_no_sep)

text \<open>The name of a path has no slash in it.\<close>

lemma path_name_no_slash: "CHR ''/'' \<notin> set (path_name (to_path s))"
proof (cases "path_parts (to_path s) = []")
  case False
  then have "last (path_parts (to_path s)) \<in> set (path_parts (to_path s))" by simp
  then have "CHR ''/'' \<notin> set (last (path_parts (to_path s)))" by (simp add: part_no_slash)
  with False show ?thesis by (simp add: path_name_def)
qed (simp add: path_name_def)

lemma root_cases: "path_root (to_path s) \<in> {[], ''/'', ''//''}"
  using splitroot_cases [of s] by (auto simp: to_path_def)

lemma splitroot_simps:
  "splitroot [] = ([], [])"
  "c \<noteq> CHR ''/'' \<Longrightarrow> splitroot (c # p) = ([], c # p)"
  "splitroot ''/'' = (''/'', [])"
  "c \<noteq> CHR ''/'' \<Longrightarrow> splitroot (CHR ''/'' # c # p) = (''/'', c # p)"
  "splitroot ''//'' = (''//'', [])"
  "c \<noteq> CHR ''/'' \<Longrightarrow> splitroot (CHR ''/'' # CHR ''/'' # c # p) = (''//'', c # p)"
  "splitroot (CHR ''/'' # CHR ''/'' # CHR ''/'' # p) = (''/'', CHR ''/'' # CHR ''/'' # p)"
  by (simp_all add: splitroot_def)

lemma join_Cons_hd: "x \<noteq> [] \<Longrightarrow> \<exists>rest. join sep (x # xs) = hd x # rest"
  by (cases x; cases xs) simp_all

text \<open>A path built from a string is the path built from its own string.\<close>

lemma to_path_parts:
  assumes "rt \<in> {[], ''/'', ''//''}"
    and "\<forall>x \<in> set parts. CHR ''/'' \<notin> set x \<and> x \<noteq> [] \<and> x \<noteq> ''.''"
  shows "to_path (path_str (Path rt parts)) = Path rt parts"
proof (cases parts)
  case Nil
  have "to_path (path_str (Path [] [])) = Path [] []"
    "to_path (path_str (Path ''/'' [])) = Path ''/'' []"
    "to_path (path_str (Path ''//'' [])) = Path ''//'' []"
    by code_simp+
  with assms(1) Nil show ?thesis by auto
next
  case (Cons x xs)
  let ?j = "join ''/'' parts"
  from Cons assms(2) have "x \<noteq> []" and "CHR ''/'' \<notin> set x" by simp_all
  then have "hd x \<noteq> CHR ''/''" by (cases x) auto
  with join_Cons_hd [OF \<open>x \<noteq> []\<close>, of "''/''" xs] Cons obtain c rest
    where j: "?j = c # rest" and c: "c \<noteq> CHR ''/''" by auto
  from Cons have str: "path_str (Path rt parts) = rt @ ?j" by (simp add: path_str_def)
  from assms(2) Cons have "split_on (CHR ''/'') ?j = parts"
    by (intro split_on_join) simp_all
  moreover from assms(2) have "filter (\<lambda>x. x \<noteq> [] \<and> x \<noteq> ''.'') parts = parts"
    by (simp add: filter_id_conv)
  ultimately have "\<And>r. splitroot (r @ ?j) = (r, ?j) \<Longrightarrow> to_path (r @ ?j) = Path r parts"
    by (simp add: to_path_def)
  moreover from c have "splitroot ([] @ ?j) = ([], ?j)" "splitroot (''/'' @ ?j) = (''/'', ?j)"
    "splitroot (''//'' @ ?j) = (''//'', ?j)"
    unfolding j by (simp_all add: splitroot_simps)
  ultimately show ?thesis using assms(1) unfolding str by blast
qed

section \<open>Properties\<close>

text \<open>
  The string of a path names the same path: \<open>Path(str(Path(s)))\<close> is
  \<open>Path(s)\<close> for every string, so the path string that the tool hands to other
  programs is read by them as the path the tool tested; and the name of a path, which
  becomes \<open>binary_name\<close>, contains no slash.
\<close>

theorem to_path_idem:
  "to_path (path_str (to_path s)) = to_path s \<and> CHR ''/'' \<notin> set (path_name (to_path s))"
  using to_path_parts [of "path_root (to_path s)" "path_parts (to_path s)"]
    root_cases [of s] part_no_slash [of _ s] path_name_no_slash [of s]
  by simp

end
