(* ===== verification/Tools.thy ===== *)
theory Tools
  imports Filesystem FileInfo
begin

text \<open>
  The parts of \<^verbatim>\<open>arm64.inspect.py\<close> that ask the machine: the search for the
  disassembler \<open>find_llvm_objdump\<close>, the constructor of \<open>BinaryInspector\<close>, and its
  methods that run another program (\<open>file\<close>, \<open>nm\<close>, \<open>llvm-objdump\<close>, \<open>readelf\<close>,
  \<open>strings\<close>) or read the size of the binary. Each is a function of the \<open>world\<close>; what
  the source raises is the left injection of the result.
\<close>

section \<open>Finding the disassembler\<close>

text \<open>The three patterns of the NDK installations, the last two under the home directory.\<close>

definition ndk_paths :: "world \<Rightarrow> string list" where
  "ndk_paths w =
     [''/opt/android_sdk/ndk/*/toolchains/llvm/prebuilt/linux-x86_64/bin/llvm-objdump'',
      expand_home w ''/Android/Sdk/ndk/*/toolchains/llvm/prebuilt/linux-x86_64/bin/llvm-objdump'',
      expand_home w ''/android-ndk-*/toolchains/llvm/prebuilt/linux-x86_64/bin/llvm-objdump'']"

text \<open>
  The loop over the patterns: the first pattern with a match decides, and of its
  matches the first after \<open>matches.sort(reverse=True)\<close> is returned.
\<close>

fun first_glob :: "world \<Rightarrow> string list \<Rightarrow> path option" where
  "first_glob w [] = None"
| "first_glob w (pattern # rest) =
     (let matches = glob_files w pattern
      in if matches \<noteq> [] then Some (to_path (hd (rev (sort matches))))
         else first_glob w rest)"

definition not_found_anywhere :: string where
  "not_found_anywhere =
     ''llvm-objdump not found in PATH or common NDK locations. '' @
     ''Please specify with --llvm-objdump <path>''"

text \<open>
  \<open>if x:\<close> for an optional string: the string, when there is one and it is not empty.
\<close>

fun truthy :: "string option \<Rightarrow> string option" where
  "truthy None = None"
| "truthy (Some s) = (if s = [] then None else Some s)"

text \<open>The search when the user gave no path: \<open>PATH\<close> first, then the NDK patterns.\<close>

definition search_objdump :: "world \<Rightarrow> py_error + path" where
  "search_objdump w =
     (case truthy (which w ''llvm-objdump'') of
        Some objdump_in_path \<Rightarrow> Inr (to_path objdump_in_path)
      | None \<Rightarrow>
          (case first_glob w (ndk_paths w) of
             Some p \<Rightarrow> Inr p
           | None \<Rightarrow> Inl (FileNotFoundError not_found_anywhere)))"

definition find_llvm_objdump :: "world \<Rightarrow> string option \<Rightarrow> py_error + path" where
  "find_llvm_objdump w user_path =
     (case truthy user_path of
        Some up \<Rightarrow>
          (let objdump_path = to_path up
           in if \<not> path_exists w (path_str objdump_path)
              then Inl (FileNotFoundError (''llvm-objdump not found at: '' @ up))
              else Inr objdump_path)
      | None \<Rightarrow> search_objdump w)"

section \<open>The inspector\<close>

record inspector =
  binary_path :: path
  llvm_objdump :: path

text \<open>\<open>BinaryInspector.__init__\<close>.\<close>

definition new_inspector :: "world \<Rightarrow> string \<Rightarrow> path \<Rightarrow> py_error + inspector" where
  "new_inspector w binary llvm_objdump_path =
     (let bp = to_path binary
      in if \<not> path_exists w (path_str bp)
         then Inl (FileNotFoundError (''Binary not found: '' @ binary))
         else Inr \<lparr>binary_path = bp, llvm_objdump = llvm_objdump_path\<rparr>)"

text \<open>
  \<open>get_file_info\<close>: the output of \<open>file\<close>, stripped; for a return code other than 0 the
  text of the \<open>CalledProcessError\<close> after \<open>Error: \<close>; any other exception goes up.
\<close>

definition get_file_info :: "world \<Rightarrow> inspector \<Rightarrow> py_error + string" where
  "get_file_info w self =
     (let cmd = [''file'', path_str (binary_path self)]
      in case run_process w cmd of
           Inl e \<Rightarrow> Inl e
         | Inr (returncode, out) \<Rightarrow>
             if returncode \<noteq> 0 then Inr (''Error: '' @ called_process_error w cmd returncode)
             else Inr (strip out))"

text \<open>
  \<open>disassemble\<close>: the output of \<open>llvm-objdump -d\<close>; the empty string for a return code
  other than 0; any other exception goes up.
\<close>

definition disassemble :: "world \<Rightarrow> inspector \<Rightarrow> py_error + string" where
  "disassemble w self =
     (case run_process w [path_str (llvm_objdump self), ''-d'', path_str (binary_path self)] of
        Inl e \<Rightarrow> Inl e
      | Inr (returncode, out) \<Rightarrow> if returncode \<noteq> 0 then Inr [] else Inr out)"

section \<open>The size of the binary\<close>

text \<open>
  The variable \<open>size\<close> of \<open>get_file_size\<close> is an integer when the loop starts and a float
  after the first division.
\<close>

datatype pynum = NInt pyint | NFloat pyfloat

fun num_value :: "pynum \<Rightarrow> rat" where
  "num_value (NInt n) = of_int n"
| "num_value (NFloat x) = x"

text \<open>\<open>size / 1024.0\<close> and \<open>f"{size:.1f}"\<close>: an integer is converted to a float first.\<close>

fun as_float :: "pynum \<Rightarrow> pyfloat" where
  "as_float (NInt n) = float_of_int n"
| "as_float (NFloat x) = x"

fun size_loop :: "pynum \<Rightarrow> string list \<Rightarrow> string" where
  "size_loop sz [] = fmt_f 1 (as_float sz) @ '' TB''"
| "size_loop sz (unit # units) =
     (if num_value sz < 1024 then fmt_f 1 (as_float sz) @ '' '' @ unit
      else size_loop (NFloat (float_div (as_float sz) 1024)) units)"

definition get_file_size :: "world \<Rightarrow> inspector \<Rightarrow> py_error + string" where
  "get_file_size w self =
     (case file_size w (path_str (binary_path self)) of
        Inl e \<Rightarrow> Inl e
      | Inr sz \<Rightarrow> Inr (size_loop (NInt (int sz)) [''B'', ''KB'', ''MB'', ''GB'']))"

section \<open>Searching without regard to case\<close>

text \<open>
  \<open>re.search(pattern, line, re.IGNORECASE)\<close>. The compiler of \<open>re\<close> replaces every
  literal and every member of a bracket expression by its lower-case form, and the
  matcher compares the lower-case form of each character of the line. For code
  points below 256 the letters with a lower-case form are \<open>A\<close> to \<open>Z\<close> and \<open>0xC0\<close> to
  \<open>0xDE\<close> without the multiplication sign.
\<close>

definition py_lower :: "char \<Rightarrow> char" where
  "py_lower c =
     (let n = (of_char c :: nat)
      in if (65 \<le> n \<and> n \<le> 90) \<or> (192 \<le> n \<and> n \<le> 222 \<and> n \<noteq> 215) then char_of (n + 32) else c)"

fun fold_item :: "citem \<Rightarrow> citem list" where
  "fold_item (CChar d) = [CChar (py_lower d)]"
| "fold_item (CRange lo hi) =
     map (\<lambda>x. CChar (py_lower x)) (filter (\<lambda>x. lo \<le> x \<and> x \<le> hi) Enum.enum)"

fun fold_atom :: "atom \<Rightarrow> atom" where
  "fold_atom (Lit d) = Lit (py_lower d)"
| "fold_atom (Cls items) = Cls (concat (map fold_item items))"
| "fold_atom (NCls items) = NCls (concat (map fold_item items))"
| "fold_atom Space = Space"
| "fold_atom AnyChar = AnyChar"

primrec fold_rexp :: "rexp \<Rightarrow> rexp" where
  "fold_rexp Zero = Zero"
| "fold_rexp One = One"
| "fold_rexp (Atom a) = Atom (fold_atom a)"
| "fold_rexp (Alt r s) = Alt (fold_rexp r) (fold_rexp s)"
| "fold_rexp (Seq r s) = Seq (fold_rexp r) (fold_rexp s)"
| "fold_rexp (Star r) = Star (fold_rexp r)"

fun fold_pattern :: "pattern \<Rightarrow> pattern" where
  "fold_pattern (Unanchored r) = Unanchored (fold_rexp r)"
| "fold_pattern (Anchored r) = Anchored (fold_rexp r)"

definition re_search_ignorecase :: "pattern \<Rightarrow> string \<Rightarrow> bool" where
  "re_search_ignorecase pattern line = re_search (fold_pattern pattern) (map py_lower line)"

text \<open>A pattern without a negated bracket expression.\<close>

primrec positive :: "rexp \<Rightarrow> bool" where
  "positive Zero = True"
| "positive One = True"
| "positive (Atom a) = (case a of NCls items \<Rightarrow> False | _ \<Rightarrow> True)"
| "positive (Alt r s) = (positive r \<and> positive s)"
| "positive (Seq r s) = (positive r \<and> positive s)"
| "positive (Star r) = positive r"

section \<open>Symbols, build id and embedded strings\<close>

text \<open>The loop that \<open>get_symbols\<close> and \<open>get_embedded_strings\<close> share.\<close>

fun grep_loop :: "pattern \<Rightarrow> line list \<Rightarrow> string list \<Rightarrow> string list" where
  "grep_loop pattern [] found = found"
| "grep_loop pattern (l # rest) found =
     grep_loop pattern rest
       (if re_search_ignorecase pattern l then found @ [strip l] else found)"

text \<open>
  \<open>get_symbols\<close>: the stripped lines of the output of \<open>nm\<close> in which the pattern is
  found; the empty list for a return code other than 0 and for any exception.
\<close>

definition get_symbols :: "world \<Rightarrow> inspector \<Rightarrow> pattern \<Rightarrow> string list" where
  "get_symbols w self pattern =
     (case run_process w [''nm'', path_str (binary_path self)] of
        Inl e \<Rightarrow> []
      | Inr (returncode, out) \<Rightarrow>
          if returncode \<noteq> 0 then [] else grep_loop pattern (split_on newline out) [])"

text \<open>
  \<open>get_build_id\<close>: the first line of the output of \<open>readelf -n\<close> that contains
  \<open>Build ID\<close> or \<open>BuildID\<close>, stripped, whatever the return code; nothing when there is no
  such line or on any exception.
\<close>

fun build_id_loop :: "line list \<Rightarrow> string option" where
  "build_id_loop [] = None"
| "build_id_loop (l # rest) =
     (if contains ''Build ID'' l \<or> contains ''BuildID'' l then Some (strip l)
      else build_id_loop rest)"

definition get_build_id :: "world \<Rightarrow> inspector \<Rightarrow> string option" where
  "get_build_id w self =
     (case run_process w [''readelf'', ''-n'', path_str (binary_path self)] of
        Inl e \<Rightarrow> None
      | Inr (returncode, out) \<Rightarrow> build_id_loop (split_on newline out))"

text \<open>
  \<open>get_embedded_strings\<close>: the first ten stripped lines of the output of \<open>strings\<close> in
  which the pattern is found; the empty list for a return code other than 0 and for any
  exception.
\<close>

definition get_embedded_strings :: "world \<Rightarrow> inspector \<Rightarrow> pattern \<Rightarrow> string list" where
  "get_embedded_strings w self pattern =
     (case run_process w [''strings'', path_str (binary_path self)] of
        Inl e \<Rightarrow> []
      | Inr (returncode, out) \<Rightarrow>
          if returncode \<noteq> 0 then []
          else take 10 (grep_loop pattern (split_on newline out) []))"

section \<open>The search for the disassembler\<close>

lemma sorted_le_last: "sorted xs \<Longrightarrow> x \<in> set xs \<Longrightarrow> x \<le> last xs"
  by (induction xs) auto

lemma hd_rev_sort: "ms \<noteq> [] \<Longrightarrow> hd (rev (sort ms)) = Max (set ms)"
proof -
  assume "ms \<noteq> []"
  then have ne: "sort ms \<noteq> []" by (metis length_0_conv length_sort)
  have "Max (set (sort ms)) = last (sort ms)"
  proof (rule Max_eqI)
    show "last (sort ms) \<in> set (sort ms)" using ne by (rule last_in_set)
  qed (simp_all add: sorted_le_last del: set_sort)
  with ne show ?thesis by (simp add: hd_rev)
qed

text \<open>
  The loop returns the greatest match, in the order of strings, of the first pattern
  that has a match.
\<close>

lemma first_glob_find:
  "first_glob w ps =
     map_option (\<lambda>pat. to_path (Max (set (glob_files w pat)))) (find (\<lambda>pat. glob_files w pat \<noteq> []) ps)"
  by (induction ps) (simp_all add: Let_def hd_rev_sort)

lemma first_glob_None: "first_glob w ps = None \<longleftrightarrow> (\<forall>p \<in> set ps. glob_files w p = [])"
  by (auto simp: first_glob_find find_None_iff)

lemma truthy_Some [simp]: "truthy x = Some s \<longleftrightarrow> x = Some s \<and> s \<noteq> []"
  by (cases x) auto

lemma truthy_None: "truthy x = None \<longleftrightarrow> x = None \<or> x = Some []"
  by (cases x) auto

lemma search_objdump_error:
  "search_objdump w = Inl e \<longleftrightarrow>
     truthy (which w ''llvm-objdump'') = None \<and> (\<forall>p \<in> set (ndk_paths w). glob_files w p = []) \<and>
     e = FileNotFoundError not_found_anywhere"
  by (auto simp: search_objdump_def first_glob_None [symmetric] split: option.splits)

section \<open>The loops over the lines of an output\<close>

lemma grep_loop_filter:
  "grep_loop p ls found = found @ map strip (filter (re_search_ignorecase p) ls)"
  by (induction ls arbitrary: found) simp_all

lemma build_id_loop_find:
  "build_id_loop ls =
     map_option strip (find (\<lambda>l. sublist ''Build ID'' l \<or> sublist ''BuildID'' l) ls)"
  by (induction ls) (simp_all add: contains_sublist)

section \<open>Case\<close>

lemma py_lower_idem [simp]: "py_lower (py_lower c) = py_lower c"
  by (auto simp: py_lower_def Let_def)

lemma py_lower_fixed: "(of_char c :: nat) < 65 \<Longrightarrow> py_lower c = c"
  by (simp add: py_lower_def Let_def)

lemma py_lower_space: "py_isspace c \<Longrightarrow> py_isspace (py_lower c)"
  by (auto simp: py_isspace_def py_lower_def Let_def)

lemma py_lower_newline: "py_lower c = newline \<longleftrightarrow> c = newline"
  by (auto simp: py_lower_def Let_def newline_def dest: arg_cong [where f = "of_char :: char \<Rightarrow> nat"])

lemma in_fold_item: "in_citem c i \<Longrightarrow> \<exists>x \<in> set (fold_item i). in_citem (py_lower c) x"
  by (cases i) (auto simp: enum_UNIV)

lemma accepts_fold:
  assumes "accepts a c" and "positive (Atom a)"
  shows "accepts (fold_atom a) (py_lower c)"
proof (cases a)
  case (Cls items)
  with assms(1) obtain i where "i \<in> set items" "in_citem c i" by (auto simp: list_ex_iff)
  with in_fold_item [of c i] Cls show ?thesis by (auto simp: list_ex_iff)
qed (use assms in \<open>auto simp: py_lower_space py_lower_newline\<close>)

lemma matches_fold:
  "matches r s \<Longrightarrow> positive r \<Longrightarrow> matches (fold_rexp r) (map py_lower s)"
proof (induction rule: matches.induct)
  case (m_Atom a c)
  then show ?case by (simp add: accepts_fold matches.m_Atom)
qed (simp_all add: matches.intros)

lemma fold_Str: "fold_rexp (Str w) = Str (map py_lower w)"
  by (induction w rule: Str.induct) simp_all

lemma search_Str: "re_search (Unanchored (Str w)) s \<longleftrightarrow> sublist w s"
  by (simp add: re_search_correct search_spec_def sublist_def)

lemma fmt_f_int: "0 \<le> n \<Longrightarrow> fmt_f 1 (of_int n) = fmt_d n @ ''.0''"
proof -
  assume n: "0 \<le> n"
  have "(of_int n :: rat) * 10 = of_int (n * 10)" by simp
  then have "round_half_even (of_int n * 10) = n * 10" by (simp only: round_half_even_of_int)
  with n show ?thesis by (simp add: fmt_f_def zfill_def fmt_d_def fmt_int_def digits_of.simps digit_char_def)
qed

section \<open>Properties\<close>

text \<open>
  C21 (functional). \<open>find_llvm_objdump\<close> in closed form. A path given by the user
  decides alone: it is returned when it exists and is an error when it does not, also
  when the disassembler is on \<open>PATH\<close>. Without one, the answer of \<open>which\<close> is taken; without
  that, the first of the three NDK patterns that has a match, and of its matches the
  greatest in the order of strings; with no match at all the search is an error. An
  empty string counts as no path.
\<close>

theorem find_llvm_objdump_spec:
  "find_llvm_objdump w user_path =
     (case truthy user_path of
        Some up \<Rightarrow>
          if path_exists w (path_str (to_path up)) then Inr (to_path up)
          else Inl (FileNotFoundError (''llvm-objdump not found at: '' @ up))
      | None \<Rightarrow>
          (case truthy (which w ''llvm-objdump'') of
             Some p \<Rightarrow> Inr (to_path p)
           | None \<Rightarrow>
               (case find (\<lambda>pat. glob_files w pat \<noteq> []) (ndk_paths w) of
                  Some pat \<Rightarrow> Inr (to_path (Max (set (glob_files w pat))))
                | None \<Rightarrow> Inl (FileNotFoundError not_found_anywhere))))"
  by (simp add: find_llvm_objdump_def search_objdump_def first_glob_find Let_def
      split: option.splits)


text \<open>
  C30 (functional). \<open>get_symbols\<close> returns the lines of the output of \<open>nm\<close> in which the
  pattern is found without regard to case, stripped and in their order, when \<open>nm\<close>
  ends with return code 0; in every other case, a failure to start \<open>nm\<close> included, it
  returns the empty list. \<open>get_embedded_strings\<close> does the same with \<open>strings\<close> and keeps
  the first ten.
\<close>

theorem get_symbols_spec:
  "get_symbols w self pattern =
     (case run_process w [''nm'', path_str (binary_path self)] of
        Inr (returncode, out) \<Rightarrow>
          if returncode = 0
          then map strip (filter (re_search_ignorecase pattern) (split_on newline out))
          else []
      | Inl e \<Rightarrow> []) \<and>
   get_embedded_strings w self pattern =
     (case run_process w [''strings'', path_str (binary_path self)] of
        Inr (returncode, out) \<Rightarrow>
          if returncode = 0
          then take 10 (map strip (filter (re_search_ignorecase pattern) (split_on newline out)))
          else []
      | Inl e \<Rightarrow> [])"
  by (simp add: get_symbols_def get_embedded_strings_def grep_loop_filter split: sum.splits)

text \<open>
  C31 (refinement). Searching without regard to case finds at least what the plain
  search finds: a pattern without a negated bracket expression that is found in a
  line is also found with \<open>re.IGNORECASE\<close>, and a literal word is found exactly when its
  lower-case form occurs in the lower-case form of the line.
\<close>

theorem ignorecase_extends:
  assumes "positive r"
  shows "(re_search (Unanchored r) l \<longrightarrow> re_search_ignorecase (Unanchored r) l) \<and>
         (re_search_ignorecase (Unanchored (Str word)) l \<longleftrightarrow>
            sublist (map py_lower word) (map py_lower l))"
proof -
  { assume "re_search (Unanchored r) l"
    then obtain u v x where l: "l = u @ v @ x" and m: "matches r v"
      by (auto simp: re_search_correct search_spec_def)
    from matches_fold [OF m assms] l
    have "search_spec (fold_rexp r) (map py_lower l)"
      unfolding search_spec_def by (intro exI [of _ "map py_lower u"] exI [of _ "map py_lower v"]
        exI [of _ "map py_lower x"]) simp
    then have "re_search_ignorecase (Unanchored r) l"
      by (simp add: re_search_ignorecase_def re_search_correct) }
  moreover have "re_search_ignorecase (Unanchored (Str word)) l \<longleftrightarrow>
      sublist (map py_lower word) (map py_lower l)"
    by (simp only: re_search_ignorecase_def fold_pattern.simps fold_Str search_Str)
  ultimately show ?thesis by blast
qed

theorem ignorecase_extends_witness:
  "re_search_ignorecase (Unanchored (Str ''neon'')) ''_Z9NEON_blurv'' \<and>
   sublist (map py_lower ''neon'') (map py_lower ''_Z9NEON_blurv'')"
proof -
  have "positive (Str ''neon'')" by simp
  from ignorecase_extends [OF this, of "''_Z9NEON_blurv''" "''neon''"]
  have "re_search_ignorecase (Unanchored (Str ''neon'')) ''_Z9NEON_blurv'' \<longleftrightarrow>
      sublist (map py_lower ''neon'') (map py_lower ''_Z9NEON_blurv'')" by blast
  moreover have "re_search_ignorecase (Unanchored (Str ''neon'')) ''_Z9NEON_blurv''"
    by code_simp
  ultimately show ?thesis by simp
qed

text \<open>
  \<open>get_build_id\<close> returns the first line of the output of
  \<open>readelf -n\<close> that contains \<open>Build ID\<close> or \<open>BuildID\<close>, stripped, and nothing when no line
  does or when \<open>readelf\<close> cannot be started; the return code of \<open>readelf\<close> is not looked
  at.
\<close>

theorem get_build_id_spec:
  "get_build_id w self =
     (case run_process w [''readelf'', ''-n'', path_str (binary_path self)] of
        Inr (returncode, out) \<Rightarrow>
          map_option strip
            (find (\<lambda>l. sublist ''Build ID'' l \<or> sublist ''BuildID'' l) (split_on newline out))
      | Inl e \<Rightarrow> None)"
  by (simp add: get_build_id_def build_id_loop_find split: sum.splits)

text \<open>
  \<open>get_file_size\<close> prints a size below 1024
  bytes as the number of bytes with \<open>.0 B\<close>. The unit is chosen before the value is
  rounded for printing: a file of 1048575 bytes, one byte short of a megabyte, is
  reported as \<open>1024.0 KB\<close>.
\<close>

theorem get_file_size_bytes:
  assumes "file_size w (path_str (binary_path self)) = Inr n" and "n < 1024"
  shows "get_file_size w self = Inr (fmt_d (int n) @ ''.0 B'')"
proof -
  from assms(2) have "\<bar>int n\<bar> < 2 ^ 53" by simp
  then have "float_of_int (int n) = of_int (int n)" by (simp only: float_of_int_def rd_of_int)
  moreover have "fmt_f 1 (of_int (int n)) = fmt_d (int n) @ ''.0''"
    by (rule fmt_f_int) simp
  ultimately have "fmt_f 1 (float_of_int (int n)) = fmt_d (int n) @ ''.0''"
    by (simp only:)
  moreover from assms(2)
  have "size_loop (NInt (int n)) [''B'', ''KB'', ''MB'', ''GB''] = fmt_f 1 (float_of_int (int n)) @ '' B''"
    by simp
  ultimately show ?thesis using assms(1) by (simp add: get_file_size_def)
qed

theorem get_file_size_bytes_witness:
  "get_file_size \<lparr>path_exists = (\<lambda>p. True), file_size = (\<lambda>p. Inr 1000), which = (\<lambda>p. None),
      home_dir = None, glob_files = (\<lambda>pat. []), run_process = (\<lambda>cmd. Inr (0, [])),
      signal_name = (\<lambda>n. None)\<rparr> \<lparr>binary_path = to_path ''x265'', llvm_objdump = to_path ''o''\<rparr>
   = Inr ''1000.0 B''"
proof -
  have "fmt_d 1000 = ''1000''" by code_simp
  with get_file_size_bytes [of "\<lparr>path_exists = (\<lambda>p. True), file_size = (\<lambda>p. Inr 1000),
      which = (\<lambda>p. None), home_dir = None, glob_files = (\<lambda>pat. []),
      run_process = (\<lambda>cmd. Inr (0, [])), signal_name = (\<lambda>n. None)\<rparr>"
      "\<lparr>binary_path = to_path ''x265'', llvm_objdump = to_path ''o''\<rparr>" 1000]
  show ?thesis by simp
qed

text \<open>
  Example. The boundary case of the units: one byte short of a megabyte.
\<close>

theorem get_file_size_boundary:
  "size_loop (NInt 1048575) [''B'', ''KB'', ''MB'', ''GB''] = ''1024.0 KB''"
  by code_simp

end
