(* ===== verification/Arm64Main.thy ===== *)
theory Arm64Main
  imports Tools
begin

text \<open>
  \<^verbatim>\<open>arm64.inspect.py\<close> from the parsed command line to the exit code: the method
  \<open>inspect\<close> of \<open>BinaryInspector\<close> with the calls that fetch its data, and \<open>main\<close> with its
  two exception handlers. A run is a function of the \<open>world\<close> and the arguments; its
  result is what was printed on the two streams, whether a traceback was printed, and
  the exit code.
\<close>

section \<open>The inspection\<close>

text \<open>
  \<open>BinaryInspector.inspect\<close>: the description from \<open>file\<close>, the size, the disassembly,
  in this order, then the report. The first call that raises ends the method.
\<close>

definition run_inspect :: "world \<Rightarrow> inspector \<Rightarrow> py_error + odict" where
  "run_inspect w self =
     (case get_file_info w self of
        Inl e \<Rightarrow> Inl e
      | Inr file_info \<Rightarrow>
          (case file_size w (path_str (binary_path self)) of
             Inl e \<Rightarrow> Inl e
           | Inr size_bytes \<Rightarrow>
               (case disassemble w self of
                  Inl e \<Rightarrow> Inl e
                | Inr disasm \<Rightarrow>
                    Inr (inspect_file (path_name (binary_path self)) file_info
                           (int size_bytes) disasm))))"

section \<open>The program\<close>

record arm64_args =
  arg_binary :: string
  arg_llvm_objdump :: "string option"
  arg_debug :: pyint
  arg_quiet :: bool

record run_result =
  out_lines :: "string list"
  err_lines :: "string list"
  traceback :: bool
  exit_code :: pyint

text \<open>
  The two handlers: a \<open>FileNotFoundError\<close> is reported as an error, any other exception
  as an unexpected error with a traceback; both exit with code 1. \<open>out\<close> is what was
  printed before the exception.
\<close>

fun handler :: "string list \<Rightarrow> py_error \<Rightarrow> run_result" where
  "handler out (FileNotFoundError msg) =
     \<lparr>out_lines = out, err_lines = [''Error: '' @ msg], traceback = False, exit_code = 1\<rparr>"
| "handler out (OtherError msg) =
     \<lparr>out_lines = out, err_lines = [''Unexpected error: '' @ msg], traceback = True,
      exit_code = 1\<rparr>"

definition arm64_main :: "world \<Rightarrow> arm64_args \<Rightarrow> run_result" where
  "arm64_main w args =
     (let debug_level = debug_level_of (arg_quiet args) (arg_debug args)
      in case find_llvm_objdump w (arg_llvm_objdump args) of
           Inl e \<Rightarrow> handler [] e
         | Inr objdump \<Rightarrow>
             (case new_inspector w (arg_binary args) objdump of
                Inl e \<Rightarrow> handler [] e
              | Inr inspector \<Rightarrow>
                  (case run_inspect w inspector of
                     Inl e \<Rightarrow> handler [] e
                   | Inr results \<Rightarrow>
                       (case print_results debug_level results [] of
                          (out, Some e) \<Rightarrow> handler out e
                        | (out, None) \<Rightarrow>
                            \<lparr>out_lines = out, err_lines = [], traceback = False,
                             exit_code = 0\<rparr>))))"

section \<open>Reference definitions\<close>

text \<open>The lines of a report at a debug level.\<close>

definition report_lines :: "pyint \<Rightarrow> odict \<Rightarrow> string list" where
  "report_lines dl r =
     map (\<lambda>item. fst item @ '': '' @ value_text item) (filter (\<lambda>item. \<not> skipped dl (fst item)) r)"

text \<open>
  A machine for the examples: the binary \<open>x265\<close> of three megabytes in the working
  directory, the disassembler at \<open>/usr/bin/llvm-objdump\<close> and not on \<open>PATH\<close>, a
  disassembly of two instructions. \<open>broken_world\<close> is the same machine with a
  disassembler that ends with return code 1.
\<close>

definition example_disassembly :: string where
  "example_disassembly = join [newline] [
     ''x265:     file format elf64-littleaarch64'',
     [],
     ''0000000000400000 <main>:'',
     ''  400000: 4e20d400     fadd    v0.4s, v0.4s, v0.4s'',
     ''  400004: 4e829420     sdot    v0.4s, v1.16b, v2.16b'',
     []]"

definition example_description :: string where
  "example_description =
     ''x265: ELF 64-bit LSB executable, ARM aarch64, version 1 (SYSV), '' @
     ''statically linked, stripped''"

definition example_file_output :: string where
  "example_file_output = example_description @ [newline]"

definition example_world :: world where
  "example_world =
     \<lparr>path_exists = (\<lambda>p. p \<in> set [''x265'', ''/usr/bin/llvm-objdump'']),
      file_size = (\<lambda>p. if p = ''x265'' then Inr 3145728
                        else Inl (FileNotFoundError ''No such file or directory'')),
      which = (\<lambda>p. None),
      home_dir = Some ''/home/dev'',
      glob_files = (\<lambda>pat. []),
      run_process = (\<lambda>cmd.
        if cmd = [''file'', ''x265'']
        then Inr (0, example_file_output)
        else if cmd = [''/usr/bin/llvm-objdump'', ''-d'', ''x265''] then Inr (0, example_disassembly)
        else Inl (FileNotFoundError ''No such file or directory'')),
      signal_name = (\<lambda>n. None)\<rparr>"

definition broken_world :: world where
  "broken_world = example_world\<lparr>run_process := (\<lambda>cmd.
        if cmd = [''/usr/bin/llvm-objdump'', ''-d'', ''x265''] then Inr (1, [])
        else run_process example_world cmd)\<rparr>"

definition example_args :: arm64_args where
  "example_args = \<lparr>arg_binary = ''./x265'', arg_llvm_objdump = Some ''/usr/bin/llvm-objdump'',
     arg_debug = 1, arg_quiet = False\<rparr>"

section \<open>A run, case by case\<close>

lemma print_inspect_file:
  "print_results dl (inspect_file n fi sz d) [] = (report_lines dl (inspect_file n fi sz d), None)"
proof -
  have "list_all well_typed (filter (\<lambda>i. \<not> skipped dl (fst i)) (inspect_file n fi sz d))"
    using inspect_well_typed [of n "parse_file_info fi" sz d]
    by (simp add: list_all_iff inspect_file_def)
  from print_results_well_typed [OF this, of "[]"] show ?thesis by (simp add: report_lines_def)
qed

lemma report_lines_member:
  "(k, v) \<in> set r \<Longrightarrow> \<not> skipped dl k \<Longrightarrow> k @ '': '' @ value_text (k, v) \<in> set (report_lines dl r)"
  by (force simp: report_lines_def)

lemma run_inspect_report:
  "run_inspect w self = Inr r \<Longrightarrow> \<exists>fi sz d. r = inspect_file (path_name (binary_path self)) fi sz d"
  by (auto simp: run_inspect_def split: sum.splits)

lemma handler_fields [simp]:
  "out_lines (handler out e) = out" "exit_code (handler out e) = 1"
  "\<exists>msg. err_lines (handler out e) = [msg]"
  by (cases e; simp)+

text \<open>
  The run in closed form: the first step that raises decides the error; otherwise the
  lines of the report are printed and the exit code is 0. The printing loop is not a
  case: it does not raise on a report.
\<close>

lemma arm64_main_eq:
  "arm64_main w args =
     (case find_llvm_objdump w (arg_llvm_objdump args) of
        Inl e \<Rightarrow> handler [] e
      | Inr objdump \<Rightarrow>
          (case new_inspector w (arg_binary args) objdump of
             Inl e \<Rightarrow> handler [] e
           | Inr inspector \<Rightarrow>
               (case run_inspect w inspector of
                  Inl e \<Rightarrow> handler [] e
                | Inr results \<Rightarrow>
                    \<lparr>out_lines = report_lines (debug_level_of (arg_quiet args) (arg_debug args)) results,
                     err_lines = [], traceback = False, exit_code = 0\<rparr>)))"
  by (auto simp: arm64_main_def print_inspect_file split: sum.splits dest!: run_inspect_report)

lemma run_inspect_ok:
  assumes "run_process w [''file'', path_str (binary_path self)] = Inr (0, file_out)"
    and "file_size w (path_str (binary_path self)) = Inr sz"
    and "run_process w [path_str (llvm_objdump self), ''-d'', path_str (binary_path self)]
           = Inr (rc, out)"
  shows "run_inspect w self =
           Inr (inspect_file (path_name (binary_path self)) (strip file_out) (int sz)
                  (if rc \<noteq> 0 then [] else out))"
  using assms by (simp add: run_inspect_def get_file_info_def disassemble_def)

lemma find_user_path:
  "up \<noteq> [] \<Longrightarrow> path_exists w (path_str (to_path up)) \<Longrightarrow>
   find_llvm_objdump w (Some up) = Inr (to_path up)"
  by (simp add: find_llvm_objdump_def)

lemma new_inspector_ok:
  "path_exists w (path_str (to_path b)) \<Longrightarrow>
   new_inspector w b od = Inr \<lparr>binary_path = to_path b, llvm_objdump = od\<rparr>"
  by (simp add: new_inspector_def)

lemma example_paths:
  "path_str (to_path ''./x265'') = ''x265''" "path_name (to_path ''./x265'') = ''x265''"
  "path_str (to_path ''/usr/bin/llvm-objdump'') = ''/usr/bin/llvm-objdump''"
  by code_simp+

lemma example_strip: "strip example_file_output = example_description"
  by code_simp

lemma example_find:
  "find_llvm_objdump example_world (Some ''/usr/bin/llvm-objdump'') = Inr (to_path ''/usr/bin/llvm-objdump'')"
  "find_llvm_objdump broken_world (Some ''/usr/bin/llvm-objdump'') = Inr (to_path ''/usr/bin/llvm-objdump'')"
  by (simp_all add: find_user_path example_paths example_world_def broken_world_def)

lemma skipped_ext_items:
  "dl < 1 \<Longrightarrow> filter (\<lambda>item. \<not> skipped dl (fst item)) (concat (map (ext_items d t) table)) = []"
  by (induction table)
    (simp_all add: ext_items_def skipped_def ends_with_suffix count_key_def pct_key_def suffix_def)

lemma example_run:
  "arm64_main example_world (example_args\<lparr>arg_debug := dbg\<rparr>) =
     \<lparr>out_lines = report_lines dbg
        (inspect ''x265'' (parse_file_info example_description) 3145728 example_disassembly),
      err_lines = [], traceback = False, exit_code = 0\<rparr>"
proof -
  let ?self = "\<lparr>binary_path = to_path ''./x265'', llvm_objdump = to_path ''/usr/bin/llvm-objdump''\<rparr>"
  have "run_inspect example_world ?self =
      Inr (inspect_file ''x265'' (strip example_file_output) 3145728 example_disassembly)"
    using run_inspect_ok [of example_world ?self example_file_output 3145728 0 example_disassembly]
    by (simp add: example_paths) (simp add: example_world_def)
  moreover have "new_inspector example_world ''./x265'' (to_path ''/usr/bin/llvm-objdump'') = Inr ?self"
    by (rule new_inspector_ok) (simp add: example_paths example_world_def)
  ultimately show ?thesis
    by (simp add: arm64_main_eq example_find example_args_def debug_level_of_def
        inspect_file_def example_strip)
qed

section \<open>Properties\<close>

text \<open>
  C11 (refinement). A run in which the disassembler is found, the binary exists, and
  \<open>file\<close>, \<open>stat\<close> and the disassembler succeed prints the report of \<open>inspect\<close> on what
  they returned: the name of the binary path, the description without the whitespace
  around it, the size, the disassembly; one line per key that the debug level does
  not skip, in the order of the report. Nothing goes to the error stream and the exit
  code is 0.
\<close>

theorem main_success:
  assumes "find_llvm_objdump w (arg_llvm_objdump args) = Inr objdump"
    and "path_exists w (path_str (to_path (arg_binary args)))"
    and "run_process w [''file'', path_str (to_path (arg_binary args))] = Inr (0, file_out)"
    and "file_size w (path_str (to_path (arg_binary args))) = Inr sz"
    and "run_process w [path_str objdump, ''-d'', path_str (to_path (arg_binary args))]
           = Inr (0, disasm)"
  shows "arm64_main w args =
     \<lparr>out_lines = report_lines (debug_level_of (arg_quiet args) (arg_debug args))
        (inspect (path_name (to_path (arg_binary args))) (parse_file_info (strip file_out))
           (int sz) disasm),
      err_lines = [], traceback = False, exit_code = 0\<rparr>"
proof -
  let ?self = "\<lparr>binary_path = to_path (arg_binary args), llvm_objdump = objdump\<rparr>"
  from assms(3-5) have "run_inspect w ?self =
      Inr (inspect_file (path_name (to_path (arg_binary args))) (strip file_out) (int sz) disasm)"
    using run_inspect_ok [of w ?self file_out sz 0 disasm] by simp
  with assms(1,2) show ?thesis
    by (simp add: arm64_main_eq new_inspector_ok inspect_file_def)
qed

theorem main_success_witness:
  "arm64_main example_world example_args =
     \<lparr>out_lines = report_lines 1
        (inspect ''x265'' (parse_file_info example_description) 3145728 example_disassembly),
      err_lines = [], traceback = False, exit_code = 0\<rparr>"
  using main_success [of example_world example_args "to_path ''/usr/bin/llvm-objdump''"
      example_file_output 3145728 example_disassembly]
  by (simp add: example_find example_paths example_args_def debug_level_of_def example_strip)
    (simp add: example_world_def)

text \<open>
  C15 (error, a defect). A disassembler that fails is not an error of the run. When
  \<open>llvm-objdump\<close> ends with a return code other than 0, \<open>disassemble\<close> returns the empty
  string, and \<open>main\<close> prints the report of a binary without instructions (no extension
  detected, every count 0) and exits with code 0, as if the binary had been inspected.
\<close>

theorem failed_disassembly_reads_as_empty:
  assumes "find_llvm_objdump w (arg_llvm_objdump args) = Inr objdump"
    and "path_exists w (path_str (to_path (arg_binary args)))"
    and "run_process w [''file'', path_str (to_path (arg_binary args))] = Inr (0, file_out)"
    and "file_size w (path_str (to_path (arg_binary args))) = Inr sz"
    and "run_process w [path_str objdump, ''-d'', path_str (to_path (arg_binary args))]
           = Inr (returncode, out)"
    and "returncode \<noteq> 0"
  shows "arm64_main w args =
     \<lparr>out_lines = report_lines (debug_level_of (arg_quiet args) (arg_debug args))
        (inspect (path_name (to_path (arg_binary args))) (parse_file_info (strip file_out))
           (int sz) []),
      err_lines = [], traceback = False, exit_code = 0\<rparr>"
proof -
  let ?self = "\<lparr>binary_path = to_path (arg_binary args), llvm_objdump = objdump\<rparr>"
  from assms(3-6) have "run_inspect w ?self =
      Inr (inspect_file (path_name (to_path (arg_binary args))) (strip file_out) (int sz) [])"
    using run_inspect_ok [of w ?self file_out sz returncode out] by simp
  with assms(1,2) show ?thesis
    by (simp add: arm64_main_eq new_inspector_ok inspect_file_def)
qed

theorem failed_disassembly_reads_as_empty_witness:
  "exit_code (arm64_main broken_world example_args) = 0 \<and>
   ''detected_extensions: none'' \<in> set (out_lines (arm64_main broken_world example_args))"
proof -
  have "arm64_main broken_world example_args =
     \<lparr>out_lines = report_lines 1 (inspect ''x265'' (parse_file_info example_description) 3145728 []),
      err_lines = [], traceback = False, exit_code = 0\<rparr>"
    using failed_disassembly_reads_as_empty [of broken_world example_args
        "to_path ''/usr/bin/llvm-objdump''" example_file_output 3145728 1 "[]"]
    by (simp add: example_find example_paths example_args_def debug_level_of_def example_strip)
      (simp add: example_world_def broken_world_def)
  moreover have "(''detected_extensions'', VStr ''none'')
      \<in> set (inspect ''x265'' (parse_file_info example_description) 3145728 [])"
    by (simp add: inspect_eq output_items_eq join_or_none_def)
  moreover have "\<not> skipped 1 ''detected_extensions''" by (simp add: skipped_def)
  moreover have "value_text (''detected_extensions'', VStr ''none'') = ''none''"
    by code_simp
  ultimately show ?thesis
    using report_lines_member [of "''detected_extensions''" "VStr ''none''" _ 1] by simp
qed

text \<open>
  C22 (error). A missing disassembler or a missing binary ends the run before anything
  is printed: the message of the \<open>FileNotFoundError\<close> goes to the error stream after
  \<open>Error: \<close>, no traceback is printed, and the exit code is 1. The binary is looked for
  only after the disassembler has been found.
\<close>

theorem missing_file_is_fatal:
  "(find_llvm_objdump w (arg_llvm_objdump args) = Inl (FileNotFoundError msg) \<longrightarrow>
      arm64_main w args =
        \<lparr>out_lines = [], err_lines = [''Error: '' @ msg], traceback = False, exit_code = 1\<rparr>) \<and>
   (find_llvm_objdump w (arg_llvm_objdump args) = Inr objdump \<and>
    \<not> path_exists w (path_str (to_path (arg_binary args))) \<longrightarrow>
      arm64_main w args =
        \<lparr>out_lines = [], err_lines = [''Error: Binary not found: '' @ arg_binary args],
         traceback = False, exit_code = 1\<rparr>)"
  by (simp add: arm64_main_eq new_inspector_def)

theorem missing_file_is_fatal_witness:
  "arm64_main example_world (example_args\<lparr>arg_binary := ''y265''\<rparr>) =
     \<lparr>out_lines = [], err_lines = [''Error: Binary not found: y265''], traceback = False,
      exit_code = 1\<rparr>"
proof -
  have "path_str (to_path ''y265'') = ''y265''" by code_simp
  with missing_file_is_fatal [of example_world "example_args\<lparr>arg_binary := ''y265''\<rparr>" _
      "to_path ''/usr/bin/llvm-objdump''"]
  show ?thesis
    by (simp add: example_find example_args_def) (simp add: example_world_def)
qed

text \<open>
  C13 (safety). Every run ends in one of two ways. Either the exit code is 0, nothing
  is on the error stream, and the output is the lines of a report with the keys of
  \<open>inspect\<close>; or the exit code is 1, the error stream has one message, and nothing was
  printed on the output: there is no partial report.
\<close>

theorem main_outcomes:
  "(exit_code (arm64_main w args) = 0 \<and> err_lines (arm64_main w args) = [] \<and>
      (\<exists>results. map fst results = report_keys \<and>
         out_lines (arm64_main w args)
           = report_lines (debug_level_of (arg_quiet args) (arg_debug args)) results)) \<or>
   (exit_code (arm64_main w args) = 1 \<and> out_lines (arm64_main w args) = [] \<and>
      (\<exists>msg. err_lines (arm64_main w args) = [msg]))"
proof -
  have "run_inspect w i = Inr r \<Longrightarrow> map fst r = report_keys" for i r
    by (auto dest!: run_inspect_report simp: inspect_file_def inspect_keys_eq)
  then show ?thesis
    by (auto simp: arm64_main_eq split: sum.splits)
qed

end
