(* ===== verification/Auxv.thy ===== *)
theory Auxv
  imports Prelude
begin

text \<open>
  The auxiliary-vector decoder of \<^verbatim>\<open>auxv.print.py\<close>: \<open>parse_auxv\<close>. The function reads
  a file or takes bytes; here it takes the bytes. Two facts about the machine that runs
  the tool enter the result and are parameters of the model (\<open>platform\<close>): the size of a
  C \<open>unsigned long\<close>, which is the word size when no architecture is recognised, and
  the byte order, which \<open>struct.unpack\<close> uses in its native mode.

  The strided loop of the source is \<open>parse_loop\<close>, a recursion on the index \<open>i\<close>. Its
  specification \<open>decode_spec\<close> is the list of complete strides, decoded, up to the first
  \<open>AT_NULL\<close>. The lemmas show that the loop computes it, and derive from that the round
  trip with an encoder, the tolerance of a truncated tail, the bounds on what is
  returned, and the one error.
\<close>

section \<open>Errors\<close>

text \<open>
  \<open>RuntimeError("Unsupported word size: %d")\<close> is raised by \<open>parse_auxv\<close> itself. The
  other two are what the calls it makes would raise: \<open>range\<close> with step 0 and
  \<open>struct.unpack\<close> on a buffer of the wrong length. They are in the model so that
  their absence is a theorem.
\<close>

datatype auxv_error = UnsupportedWordSize nat | RangeStepZero | StructError

section \<open>The platform\<close>

datatype endian = Little | Big

record platform =
  native_ul_size :: nat
  byte_order :: endian

section \<open>Unsigned integers from bytes\<close>

fun uint_le :: "bytes \<Rightarrow> pyint" where
  "uint_le [] = 0"
| "uint_le (b # bs) = uint b + 256 * uint_le bs"

definition uint_of :: "endian \<Rightarrow> bytes \<Rightarrow> pyint" where
  "uint_of e bs = (case e of Little \<Rightarrow> uint_le bs | Big \<Rightarrow> uint_le (rev bs))"

text \<open>
  The two format strings of the source, \<open>"QQ"\<close> and \<open>"II"\<close>: two unsigned integers of 8
  or of 4 bytes. \<open>struct.unpack\<close> raises unless the buffer has exactly the size of the
  format.
\<close>

datatype fmt = QQ | II

fun field_size :: "fmt \<Rightarrow> nat" where
  "field_size QQ = 8"
| "field_size II = 4"

definition calcsize :: "fmt \<Rightarrow> nat" where
  "calcsize f = 2 * field_size f"

definition struct_unpack :: "endian \<Rightarrow> fmt \<Rightarrow> bytes \<Rightarrow> (pyint \<times> pyint) option" where
  "struct_unpack e f chunk =
     (if length chunk = calcsize f
      then Some (uint_of e (take (field_size f) chunk), uint_of e (drop (field_size f) chunk))
      else None)"

section \<open>The decoder\<close>

text \<open>The word size: from the architecture hint, else the native one.\<close>

definition ul_size_of :: "platform \<Rightarrow> string option \<Rightarrow> nat" where
  "ul_size_of pf arch =
     (if arch = Some ''aarch64'' \<or> arch = Some ''x86_64'' then 8
      else if arch \<in> set [Some ''i386'', Some ''i686''] then 4
      else native_ul_size pf)"

text \<open>The format and the stride for a word size, or the error.\<close>

definition fmt_step :: "nat \<Rightarrow> auxv_error + (fmt \<times> nat)" where
  "fmt_step ul_size =
     (if ul_size = 8 then Inr (QQ, 16)
      else if ul_size = 4 then Inr (II, 8)
      else Inl (UnsupportedWordSize ul_size))"

type_synonym entry = "pyint \<times> pyint"

text \<open>
  The loop \<open>for i in range(0, len(data), step)\<close> from index \<open>i\<close> on, with the entries
  collected so far.
\<close>

function parse_loop ::
  "endian \<Rightarrow> fmt \<Rightarrow> nat \<Rightarrow> bytes \<Rightarrow> nat \<Rightarrow> entry list \<Rightarrow> auxv_error + entry list" where
  "parse_loop e f step data i entries =
     (if step = 0 then Inl RangeStepZero
      else if i \<ge> length data then Inr entries
      else if length (py_slice data i (i + step)) < step then Inr entries
      else (case struct_unpack e f (py_slice data i (i + step)) of
              None \<Rightarrow> Inl StructError
            | Some (a_type, a_val) \<Rightarrow>
                if a_type = 0 then Inr entries
                else parse_loop e f step data (i + step) (entries @ [(a_type, a_val)])))"
  by pat_completeness auto
termination
  by (relation "measure (\<lambda>(e, f, step, data, i, entries). length data - i)") auto

declare parse_loop.simps [simp del]

definition parse_auxv :: "platform \<Rightarrow> bytes \<Rightarrow> string option \<Rightarrow> auxv_error + entry list" where
  "parse_auxv pf data arch =
     (case fmt_step (ul_size_of pf arch) of
        Inl err \<Rightarrow> Inl err
      | Inr (f, step) \<Rightarrow> parse_loop (byte_order pf) f step data 0 [])"

section \<open>Bytes and integers\<close>

lemma uint_le_nonneg [simp]: "0 \<le> uint_le bs"
  by (induction bs) auto

lemma uint_le_bound: "uint_le bs < 256 ^ length bs"
proof (induction bs)
  case Nil
  show ?case by simp
next
  case (Cons b bs)
  have "uint b < 256" using uint_bounded [of b] by simp
  moreover from Cons have "uint_le bs + 1 \<le> 256 ^ length bs" by simp
  then have "256 * (uint_le bs + 1) \<le> 256 * 256 ^ length bs"
    by (rule mult_left_mono) simp
  ultimately show ?case by (simp add: algebra_simps)
qed

lemma uint_le_append: "uint_le (xs @ ys) = uint_le xs + 256 ^ length xs * uint_le ys"
  by (induction xs) (auto simp: algebra_simps)

lemma uint_le_replicate_0 [simp]: "uint_le (replicate n 0) = 0"
  by (induction n) auto

lemma uint_of_nonneg [simp]: "0 \<le> uint_of e bs"
  by (cases e) (simp_all add: uint_of_def)

lemma uint_of_bound: "uint_of e bs < 256 ^ length bs"
  using uint_le_bound [of bs] uint_le_bound [of "rev bs"]
  by (cases e) (simp_all add: uint_of_def)

text \<open>The encoder that \<open>struct.pack\<close> is: the low \<open>k\<close> bytes of a number.\<close>

fun le_bytes :: "nat \<Rightarrow> pyint \<Rightarrow> bytes" where
  "le_bytes 0 n = []"
| "le_bytes (Suc k) n = word_of_int n # le_bytes k (n div 256)"

definition bytes_of :: "endian \<Rightarrow> nat \<Rightarrow> pyint \<Rightarrow> bytes" where
  "bytes_of e k n = (case e of Little \<Rightarrow> le_bytes k n | Big \<Rightarrow> rev (le_bytes k n))"

lemma length_le_bytes [simp]: "length (le_bytes k n) = k"
  by (induction k arbitrary: n) auto

lemma length_bytes_of [simp]: "length (bytes_of e k n) = k"
  by (cases e) (simp_all add: bytes_of_def)

lemma uint_byte_of_int: "uint (word_of_int n :: byte) = n mod 256"
  by (simp add: uint_word_of_int)

lemma uint_le_le_bytes: "uint_le (le_bytes k n) = n mod 256 ^ k"
proof (induction k arbitrary: n)
  case 0
  show ?case by simp
next
  case (Suc k)
  have "n mod 256 + 256 * (n div 256 mod 256 ^ k) = n mod (256 * 256 ^ k)"
    by (simp add: zmod_zmult2_eq)
  with Suc show ?case by (simp add: uint_byte_of_int)
qed

lemma uint_of_bytes_of: "uint_of e (bytes_of e k n) = n mod 256 ^ k"
  by (cases e) (simp_all add: uint_of_def bytes_of_def uint_le_le_bytes)

lemma uint_of_bytes_of_id: "0 \<le> n \<Longrightarrow> n < 256 ^ k \<Longrightarrow> uint_of e (bytes_of e k n) = n"
  by (simp add: uint_of_bytes_of)

section \<open>Specification of the decoder\<close>

text \<open>
  The complete strides of a buffer, in order; what is left over at the end, shorter
  than a stride, is not among them.
\<close>

function full_chunks :: "nat \<Rightarrow> 'a list \<Rightarrow> 'a list list" where
  "full_chunks n xs =
     (if n = 0 \<or> length xs < n then [] else take n xs # full_chunks n (drop n xs))"
  by pat_completeness auto
termination
  by (relation "measure (\<lambda>(n, xs). length xs)") auto

declare full_chunks.simps [simp del]

definition unpack_pair :: "endian \<Rightarrow> fmt \<Rightarrow> bytes \<Rightarrow> entry" where
  "unpack_pair e f chunk =
     (uint_of e (take (field_size f) chunk), uint_of e (drop (field_size f) chunk))"

definition not_null :: "entry \<Rightarrow> bool" where
  "not_null en \<longleftrightarrow> fst en \<noteq> 0"

definition decode_spec :: "endian \<Rightarrow> fmt \<Rightarrow> bytes \<Rightarrow> entry list" where
  "decode_spec e f data =
     takeWhile not_null (map (unpack_pair e f) (full_chunks (calcsize f) data))"

subsection \<open>Strides\<close>

lemma full_chunks_short [simp]: "length xs < n \<Longrightarrow> full_chunks n xs = []"
  by (simp add: full_chunks.simps)

lemma full_chunks_zero [simp]: "full_chunks 0 xs = []"
  by (simp add: full_chunks.simps)

lemma full_chunks_step:
  "0 < n \<Longrightarrow> n \<le> length xs \<Longrightarrow> full_chunks n xs = take n xs # full_chunks n (drop n xs)"
  by (subst full_chunks.simps) simp

lemma full_chunks_Nil [simp]: "full_chunks n [] = []"
  by (cases "n = 0") simp_all

lemma full_chunks_append_chunk:
  "0 < n \<Longrightarrow> length c = n \<Longrightarrow> full_chunks n (c @ xs) = c # full_chunks n xs"
  by (simp add: full_chunks_step)

lemma length_full_chunks: "length (full_chunks n xs) = length xs div n"
proof (induction n xs rule: full_chunks.induct)
  case (1 n xs)
  show ?case
  proof (cases "n = 0 \<or> length xs < n")
    case True
    then show ?thesis by (auto simp: full_chunks.simps)
  next
    case False
    then have "length xs div n = Suc ((length xs - n) div n)"
      by (simp add: le_div_geq)
    with False 1 show ?thesis
      by (simp add: full_chunks_step)
  qed
qed

lemma full_chunks_lengths: "c \<in> set (full_chunks n xs) \<Longrightarrow> length c = n"
proof (induction n xs rule: full_chunks.induct)
  case (1 n xs)
  show ?case
  proof (cases "n = 0 \<or> length xs < n")
    case True
    with "1.prems" show ?thesis by (auto simp: full_chunks.simps)
  next
    case False
    with "1.prems" have "c = take n xs \<or> c \<in> set (full_chunks n (drop n xs))"
      by (simp add: full_chunks_step)
    with False "1.IH" show ?thesis by auto
  qed
qed

lemma concat_full_chunks: "concat (full_chunks n xs) = take (length xs - length xs mod n) xs"
proof (induction n xs rule: full_chunks.induct)
  case (1 n xs)
  show ?case
  proof (cases "n = 0 \<or> length xs < n")
    case True
    then show ?thesis by (auto simp: full_chunks.simps)
  next
    case False
    then have m: "length xs mod n = (length xs - n) mod n"
      by (simp add: le_mod_geq)
    have le: "(length xs - n) mod n \<le> length xs - n"
      by (rule mod_less_eq_dividend)
    have "length xs - length xs mod n = n + (length xs - n - (length xs - n) mod n)"
      using False le unfolding m by arith
    with False 1 show ?thesis
      by (simp add: full_chunks_step take_add m)
  qed
qed

text \<open>A tail shorter than a stride adds no stride; cutting it off loses none.\<close>

lemma full_chunks_tail:
  "length xs mod n = 0 \<Longrightarrow> length tail < n \<Longrightarrow> full_chunks n (xs @ tail) = full_chunks n xs"
proof (induction n xs rule: full_chunks.induct)
  case (1 n xs)
  show ?case
  proof (cases "length xs < n")
    case True
    with "1.prems" have "xs = []" by (cases "n = 0") auto
    with "1.prems" show ?thesis by simp
  next
    case False
    with "1.prems" have n: "0 < n" "n \<le> length xs" "(length xs - n) mod n = 0"
      by (auto simp: le_mod_geq)
    with "1.IH" "1.prems" have "full_chunks n (drop n xs @ tail) = full_chunks n (drop n xs)"
      by simp
    with n show ?thesis
      by (simp add: full_chunks_step)
  qed
qed

lemma full_chunks_truncate:
  "full_chunks n (take (length xs - length xs mod n) xs) = full_chunks n xs"
proof (cases "n = 0")
  case True
  then show ?thesis by simp
next
  case False
  let ?k = "length xs - length xs mod n"
  have k: "?k \<le> length xs" by simp
  have "?k mod n = 0"
    by (simp add: minus_mod_eq_mult_div)
  moreover have "length (drop ?k xs) < n"
    using False k by simp
  ultimately have "full_chunks n (take ?k xs @ drop ?k xs) = full_chunks n (take ?k xs)"
    using k by (intro full_chunks_tail) simp_all
  then show ?thesis by simp
qed

subsection \<open>The loop computes the specification\<close>

lemma struct_unpack_full:
  "length chunk = calcsize f \<Longrightarrow> struct_unpack e f chunk = Some (unpack_pair e f chunk)"
  by (simp add: struct_unpack_def unpack_pair_def)

lemma calcsize_pos [simp]: "0 < calcsize f"
  by (cases f) (simp_all add: calcsize_def)

lemma parse_loop_spec:
  "step = calcsize f \<Longrightarrow>
   parse_loop e f step data i entries =
     Inr (entries @ takeWhile not_null (map (unpack_pair e f) (full_chunks step (drop i data))))"
proof (induction e f step data i entries rule: parse_loop.induct)
  case (1 e f step data i entries)
  let ?chunk = "py_slice data i (i + step)"
  have pos: "0 < step" using "1.prems" by simp
  show ?case
  proof (cases "length data - i < step")
    case True
    then show ?thesis
      using pos by (subst parse_loop.simps) (auto simp: py_slice_def)
  next
    case False
    then have len: "length ?chunk = step" and i: "i < length data"
      using pos by (auto simp: py_slice_def)
    have cs: "full_chunks step (drop i data) = ?chunk # full_chunks step (drop (i + step) data)"
      using False pos by (simp add: full_chunks_step py_slice_def add.commute)
    from len "1.prems" have un: "struct_unpack e f ?chunk = Some (unpack_pair e f ?chunk)"
      by (simp add: struct_unpack_full)
    obtain t v where tv: "unpack_pair e f ?chunk = (t, v)"
      by (cases "unpack_pair e f ?chunk")
    show ?thesis
    proof (cases "t = 0")
      case True
      with tv un len i pos show ?thesis
        by (subst parse_loop.simps) (simp add: cs not_null_def)
    next
      case False
      with "1.IH" [OF _ _ _ un [unfolded tv] refl False] "1.prems" pos i len
      have "parse_loop e f step data (i + step) (entries @ [(t, v)]) =
          Inr ((entries @ [(t, v)]) @
            takeWhile not_null (map (unpack_pair e f) (full_chunks step (drop (i + step) data))))"
        by simp
      with False tv un len i pos show ?thesis
        by (subst parse_loop.simps) (simp add: cs not_null_def)
    qed
  qed
qed

lemma fmt_step_cases:
  obtains (QQ) "n = 8" "fmt_step n = Inr (QQ, calcsize QQ)"
  | (II) "n = 4" "fmt_step n = Inr (II, calcsize II)"
  | (bad) "n \<noteq> 8" "n \<noteq> 4" "fmt_step n = Inl (UnsupportedWordSize n)"
  by (cases "n = 8"; cases "n = 4") (auto simp: fmt_step_def calcsize_def)

lemma parse_auxv_cases:
  obtains (ok) f where "fmt_step (ul_size_of pf arch) = Inr (f, calcsize f)"
      "field_size f = ul_size_of pf arch"
      "parse_auxv pf data arch = Inr (decode_spec (byte_order pf) f data)"
      "ul_size_of pf arch = 4 \<or> ul_size_of pf arch = 8"
  | (bad) "ul_size_of pf arch \<noteq> 8" "ul_size_of pf arch \<noteq> 4"
      "parse_auxv pf data arch = Inl (UnsupportedWordSize (ul_size_of pf arch))"
      "fmt_step (ul_size_of pf arch) = Inl (UnsupportedWordSize (ul_size_of pf arch))"
proof (cases "ul_size_of pf arch" rule: fmt_step_cases)
  case QQ
  then show ?thesis
    by (intro ok [of QQ]) (simp_all add: parse_auxv_def parse_loop_spec decode_spec_def)
next
  case II
  then show ?thesis
    by (intro ok [of II]) (simp_all add: parse_auxv_def parse_loop_spec decode_spec_def)
next
  case bad
  then show ?thesis
    by (intro that(2)) (simp_all add: parse_auxv_def)
qed

section \<open>An encoder, and what the decoder returns for its output\<close>

text \<open>
  \<open>struct.pack\<close> with the format of the decoder: each field as \<open>field_size\<close> bytes in
  the platform's byte order. It accepts a number only when it fits the field.
\<close>

definition in_range :: "fmt \<Rightarrow> pyint \<Rightarrow> bool" where
  "in_range f n \<longleftrightarrow> 0 \<le> n \<and> n < 256 ^ field_size f"

definition valid_entry :: "fmt \<Rightarrow> entry \<Rightarrow> bool" where
  "valid_entry f en \<longleftrightarrow> in_range f (fst en) \<and> in_range f (snd en) \<and> fst en \<noteq> 0"

definition pack_entry :: "endian \<Rightarrow> fmt \<Rightarrow> entry \<Rightarrow> bytes" where
  "pack_entry e f en =
     bytes_of e (field_size f) (fst en) @ bytes_of e (field_size f) (snd en)"

definition pack_entries :: "endian \<Rightarrow> fmt \<Rightarrow> entry list \<Rightarrow> bytes" where
  "pack_entries e f es = concat (map (pack_entry e f) es)"

lemma length_pack_entry [simp]: "length (pack_entry e f en) = calcsize f"
  by (simp add: pack_entry_def calcsize_def)

lemma length_pack_entries [simp]: "length (pack_entries e f es) = calcsize f * length es"
  by (induction es) (simp_all add: pack_entries_def)

lemma pack_entries_Cons [simp]:
  "pack_entries e f (en # es) = pack_entry e f en @ pack_entries e f es"
  by (simp add: pack_entries_def)

lemma pack_entries_Nil [simp]: "pack_entries e f [] = []"
  by (simp add: pack_entries_def)

lemma unpack_pack_entry:
  "in_range f (fst en) \<Longrightarrow> in_range f (snd en) \<Longrightarrow> unpack_pair e f (pack_entry e f en) = en"
  by (cases en) (simp add: unpack_pair_def pack_entry_def in_range_def uint_of_bytes_of_id)

lemma decode_spec_Nil [simp]: "decode_spec e f [] = []"
  by (simp add: decode_spec_def)

lemma decode_spec_short [simp]: "length tail < calcsize f \<Longrightarrow> decode_spec e f tail = []"
  by (simp add: decode_spec_def)

lemma decode_spec_entry:
  "decode_spec e f (pack_entry e f en @ rest) =
     (if not_null (unpack_pair e f (pack_entry e f en))
      then unpack_pair e f (pack_entry e f en) # decode_spec e f rest else [])"
  by (simp add: decode_spec_def full_chunks_append_chunk)

lemma decode_spec_valid:
  "valid_entry f en \<Longrightarrow> decode_spec e f (pack_entry e f en @ rest) = en # decode_spec e f rest"
  by (simp add: decode_spec_entry valid_entry_def unpack_pack_entry not_null_def)

lemma decode_spec_null:
  "in_range f v \<Longrightarrow> decode_spec e f (pack_entry e f (0, v) @ rest) = []"
  by (simp add: decode_spec_entry unpack_pack_entry in_range_def not_null_def)

lemma decode_spec_pack:
  "list_all (valid_entry f) es \<Longrightarrow>
   decode_spec e f (pack_entries e f es @ rest) = es @ decode_spec e f rest"
  by (induction es) (simp_all add: decode_spec_valid)

section \<open>What the decoder returns\<close>

lemma unpack_pair_range:
  "length chunk = calcsize f \<Longrightarrow>
   in_range f (fst (unpack_pair e f chunk)) \<and> in_range f (snd (unpack_pair e f chunk))"
  using uint_of_bound [of e "take (field_size f) chunk"]
    uint_of_bound [of e "drop (field_size f) chunk"]
  by (cases f) (simp_all add: unpack_pair_def in_range_def calcsize_def)

lemma decode_spec_valid_entries: "en \<in> set (decode_spec e f data) \<Longrightarrow> valid_entry f en"
proof -
  assume "en \<in> set (decode_spec e f data)"
  then have nn: "not_null en" and "en \<in> set (map (unpack_pair e f) (full_chunks (calcsize f) data))"
    unfolding decode_spec_def by (auto dest: set_takeWhileD)
  then obtain c where "c \<in> set (full_chunks (calcsize f) data)" "en = unpack_pair e f c"
    by auto
  with unpack_pair_range [of c f e] nn show ?thesis
    by (simp add: full_chunks_lengths valid_entry_def not_null_def)
qed

lemma length_decode_spec: "length (decode_spec e f data) \<le> length data div calcsize f"
proof -
  have "length (decode_spec e f data) \<le> length (full_chunks (calcsize f) data)"
    unfolding decode_spec_def
    by (metis length_map length_takeWhile_le)
  then show ?thesis by (simp add: length_full_chunks)
qed

lemma decode_spec_truncate:
  "decode_spec e f (take (length data - length data mod calcsize f) data) = decode_spec e f data"
  by (simp add: decode_spec_def full_chunks_truncate)

lemma calcsize_ul_size:
  "fmt_step n = Inr (f, step) \<Longrightarrow> field_size f = n \<and> calcsize f = 2 * n \<and> step = 2 * n"
  by (auto simp: fmt_step_def calcsize_def split: if_splits)

text \<open>The two outcomes of \<open>parse_auxv\<close>, by the outcome of the choice of the format.\<close>

lemma parse_auxv_Inr:
  "fmt_step (ul_size_of pf arch) = Inr (f, step) \<Longrightarrow>
   parse_auxv pf data arch = Inr (decode_spec (byte_order pf) f data)"
  by (cases rule: parse_auxv_cases [where pf = pf and arch = arch and data = data]) simp_all

lemma parse_auxv_Inl:
  "fmt_step (ul_size_of pf arch) = Inl err \<Longrightarrow> parse_auxv pf data arch = Inl err"
  by (cases rule: parse_auxv_cases [where pf = pf and arch = arch and data = data]) simp_all

section \<open>Properties\<close>

text \<open>
  C2 (refinement). For a word size of 4 or 8, \<open>parse_auxv\<close> returns the complete
  strides of the buffer, each decoded as a pair of unsigned integers in the platform's
  byte order, up to and without the first pair whose tag is 0; for any other word size
  it returns the error of \<open>fmt_step\<close>. The loop never fails in \<open>range\<close> or in
  \<open>struct.unpack\<close>.
\<close>

theorem parse_auxv_refines:
  "parse_auxv pf data arch =
     (case fmt_step (ul_size_of pf arch) of
        Inl err \<Rightarrow> Inl err
      | Inr (f, step) \<Rightarrow> Inr (decode_spec (byte_order pf) f data))"
  by (cases rule: parse_auxv_cases [where pf = pf and arch = arch and data = data]) simp_all

text \<open>
  C3 (roundtrip). Encoding entries with non-zero tags, followed by a pair with tag 0 and
  by anything at all, and decoding the buffer with the same word size and byte order
  yields exactly the entries, in their order: the terminator and what follows it are
  not in the output.
\<close>

theorem parse_auxv_roundtrip:
  assumes "fmt_step (ul_size_of pf arch) = Inr (f, step)"
    and "list_all (valid_entry f) es" and "in_range f v"
  shows "parse_auxv pf
      (pack_entries (byte_order pf) f es @ pack_entry (byte_order pf) f (0, v) @ rest) arch
    = Inr es"
proof (cases rule: parse_auxv_cases [where pf = pf and arch = arch and data =
    "pack_entries (byte_order pf) f es @ pack_entry (byte_order pf) f (0, v) @ rest"])
  case (ok f')
  with assms(1) have "f' = f" by simp
  with ok assms(2,3) show ?thesis
    by (simp add: decode_spec_pack decode_spec_null)
next
  case bad
  with assms(1) show ?thesis
    by (auto simp: fmt_step_def split: if_splits)
qed

theorem parse_auxv_roundtrip_witness:
  "fmt_step (ul_size_of \<lparr>native_ul_size = 8, byte_order = Little\<rparr> (Some ''i386'')) = Inr (II, 8)
   \<and> list_all (valid_entry II) [(6, 4096), (17, 3219913727)] \<and> in_range II 0
   \<and> parse_auxv \<lparr>native_ul_size = 8, byte_order = Little\<rparr>
       (pack_entries Little II [(6, 4096), (17, 3219913727)] @ pack_entry Little II (0, 0)
          @ [1, 2, 3]) (Some ''i386'')
     = Inr [(6, 4096), (17, 3219913727)]"
proof -
  let ?pf = "\<lparr>native_ul_size = 8, byte_order = Little\<rparr>"
  have a: "fmt_step (ul_size_of ?pf (Some ''i386'')) = Inr (II, 8)"
    by (simp add: fmt_step_def ul_size_of_def)
  have b: "list_all (valid_entry II) [(6, 4096), (17, 3219913727)]"
    by (simp add: valid_entry_def in_range_def)
  have c: "in_range II 0"
    by (simp add: in_range_def)
  from parse_auxv_roundtrip [OF a b c, of "[1, 2, 3]"] a b c show ?thesis
    by simp
qed

text \<open>
  C8 (functional). A truncated tail is ignored: decoding a buffer gives the same as
  decoding it with the trailing bytes beyond the last complete stride removed, for every
  buffer, architecture and platform (errors included).
\<close>

theorem parse_auxv_truncated:
  "parse_auxv pf (take (length data - length data mod (2 * ul_size_of pf arch)) data) arch
     = parse_auxv pf data arch"
proof (cases "fmt_step (ul_size_of pf arch)")
  case (Inl err)
  then show ?thesis by (simp add: parse_auxv_Inl)
next
  case (Inr fs)
  obtain f step where fs: "fs = (f, step)" by (cases fs)
  from calcsize_ul_size [OF Inr [unfolded fs]] decode_spec_truncate [of "byte_order pf" f data]
  show ?thesis
    using Inr fs by (simp add: parse_auxv_Inr)
qed

text \<open>
  C25 (error). \<open>parse_auxv\<close> fails exactly when the resolved word size is neither 4
  nor 8, and then with \<open>UnsupportedWordSize\<close> of that size; no input buffer makes it
  fail.
\<close>

theorem parse_auxv_error_iff:
  "parse_auxv pf data arch = Inl err \<longleftrightarrow>
     err = UnsupportedWordSize (ul_size_of pf arch) \<and>
     ul_size_of pf arch \<notin> set [4, 8]"
  by (cases rule: parse_auxv_cases [where pf = pf and arch = arch and data = data]) auto

text \<open>
  C26 (bounds). Every entry that \<open>parse_auxv\<close> returns has a tag other than 0 (the
  terminator never appears in the output), and tag and value are unsigned numbers of
  the word size; there are at most as many entries as the buffer has complete strides.
\<close>

theorem parse_auxv_entries_bounded:
  assumes "parse_auxv pf data arch = Inr es"
  shows "list_all (\<lambda>(t, v). 0 < t \<and> t < 2 ^ (8 * ul_size_of pf arch)
            \<and> 0 \<le> v \<and> v < 2 ^ (8 * ul_size_of pf arch)) es
         \<and> length es \<le> length data div (2 * ul_size_of pf arch)"
proof (cases rule: parse_auxv_cases [where pf = pf and arch = arch and data = data])
  case (ok f)
  have p: "(256::int) ^ field_size f = 2 ^ (8 * field_size f)"
    by (simp add: power_mult)
  from ok assms have es: "es = decode_spec (byte_order pf) f data" by simp
  have "list_all (valid_entry f) es"
    unfolding es list_all_iff by (blast intro: decode_spec_valid_entries)
  then have "list_all (\<lambda>(t, v). 0 < t \<and> t < 2 ^ (8 * field_size f)
            \<and> 0 \<le> v \<and> v < 2 ^ (8 * field_size f)) es"
    unfolding list_all_iff valid_entry_def in_range_def p by auto
  moreover have "length es \<le> length data div calcsize f"
    unfolding es by (rule length_decode_spec)
  ultimately show ?thesis
    using ok(2) by (simp add: calcsize_def)
next
  case bad
  with assms show ?thesis by simp
qed

theorem parse_auxv_entries_bounded_witness:
  "parse_auxv \<lparr>native_ul_size = 8, byte_order = Little\<rparr>
      [6, 0, 0, 0, 0, 16, 0, 0, 17, 0, 0, 0, 255, 251, 235, 191, 0, 0, 0, 0, 0, 0, 0, 0] (Some ''i386'')
     = Inr [(6, 4096), (17, 3219913727)]
   \<and> list_all (\<lambda>(t, v). 0 < t \<and> t < 2 ^ (8 * ul_size_of \<lparr>native_ul_size = 8, byte_order = Little\<rparr> (Some ''i386''))
            \<and> 0 \<le> v \<and> v < 2 ^ (8 * ul_size_of \<lparr>native_ul_size = 8, byte_order = Little\<rparr> (Some ''i386'')))
        [(6 :: int, 4096 :: int), (17, 3219913727)]
   \<and> length [(6, 4096), (17, 3219913727 :: int)]
        \<le> length [6, 0, 0, 0, 0, 16, 0, 0, 17, 0, 0, 0, 255, 251, 235, 191, 0, 0, 0, 0, 0, 0, 0, 0 :: byte]
            div (2 * ul_size_of \<lparr>native_ul_size = 8, byte_order = Little\<rparr> (Some ''i386''))"
proof -
  have a: "parse_auxv \<lparr>native_ul_size = 8, byte_order = Little\<rparr>
      [6, 0, 0, 0, 0, 16, 0, 0, 17, 0, 0, 0, 255, 251, 235, 191, 0, 0, 0, 0, 0, 0, 0, 0] (Some ''i386'')
     = Inr [(6, 4096), (17, 3219913727)]"
    by code_simp
  from parse_auxv_entries_bounded [OF a] a show ?thesis
    by (simp add: ul_size_of_def)
qed

text \<open>
  Example. With a word size of 4, a buffer of 24 bytes that encodes three pairs
  of which the third has tag 0 decodes to exactly the first two pairs.
\<close>

theorem parse_auxv_three_pairs:
  "parse_auxv \<lparr>native_ul_size = 8, byte_order = Little\<rparr>
      [6, 0, 0, 0, 0, 16, 0, 0, 17, 0, 0, 0, 255, 251, 235, 191, 0, 0, 0, 0, 0, 0, 0, 0] (Some ''i386'')
     = Inr [(6, 4096), (17, 3219913727)]"
  by code_simp


end
