(* ===== verification/AuxvMachine.thy ===== *)
theory AuxvMachine
  imports Auxv "HOL-Library.While_Combinator"
begin

text \<open>
  The loop of \<open>parse_auxv\<close> as a machine. A state is what the loop holds between two
  rounds: the index \<open>i\<close> of the next stride, the entries collected, and whether the loop
  still runs, has been left (by exhaustion of the range or by a \<open>break\<close>), or has raised.
  \<open>loop_next\<close> is one round; \<open>loop_step\<close> is the same as a relation, one rule per way
  through the body. The lemmas show that the machine cannot run forever, that it halts
  within one round per stride and one more, that every state it reaches holds the
  decoding of the bytes before its index, and that it halts with the value of
  \<open>parse_loop\<close>.
\<close>

section \<open>States and steps\<close>

datatype control = Running | Returned | Raised auxv_error

record loop_state =
  pos :: nat
  acc :: "entry list"
  ctl :: control

definition loop_init :: loop_state where
  "loop_init = \<lparr>pos = 0, acc = [], ctl = Running\<rparr>"

text \<open>One round of the loop from a running state.\<close>

definition loop_next :: "endian \<Rightarrow> fmt \<Rightarrow> nat \<Rightarrow> bytes \<Rightarrow> loop_state \<Rightarrow> loop_state" where
  "loop_next e f step data s =
     (if step = 0 then s\<lparr>ctl := Raised RangeStepZero\<rparr>
      else if length data \<le> pos s then s\<lparr>ctl := Returned\<rparr>
      else if length (py_slice data (pos s) (pos s + step)) < step then s\<lparr>ctl := Returned\<rparr>
      else (case struct_unpack e f (py_slice data (pos s) (pos s + step)) of
              None \<Rightarrow> s\<lparr>ctl := Raised StructError\<rparr>
            | Some (a_type, a_val) \<Rightarrow>
                if a_type = 0 then s\<lparr>ctl := Returned\<rparr>
                else s\<lparr>pos := pos s + step, acc := acc s @ [(a_type, a_val)]\<rparr>))"

inductive loop_step :: "endian \<Rightarrow> fmt \<Rightarrow> nat \<Rightarrow> bytes \<Rightarrow> loop_state \<Rightarrow> loop_state \<Rightarrow> bool"
  for e f step data where
  zero_step: "ctl s = Running \<Longrightarrow> step = 0 \<Longrightarrow>
     loop_step e f step data s (s\<lparr>ctl := Raised RangeStepZero\<rparr>)"
| exhausted: "ctl s = Running \<Longrightarrow> 0 < step \<Longrightarrow> length data \<le> pos s \<Longrightarrow>
     loop_step e f step data s (s\<lparr>ctl := Returned\<rparr>)"
| truncated: "ctl s = Running \<Longrightarrow> 0 < step \<Longrightarrow> pos s < length data \<Longrightarrow>
     length (py_slice data (pos s) (pos s + step)) < step \<Longrightarrow>
     loop_step e f step data s (s\<lparr>ctl := Returned\<rparr>)"
| malformed: "ctl s = Running \<Longrightarrow> 0 < step \<Longrightarrow> pos s < length data \<Longrightarrow>
     step \<le> length (py_slice data (pos s) (pos s + step)) \<Longrightarrow>
     struct_unpack e f (py_slice data (pos s) (pos s + step)) = None \<Longrightarrow>
     loop_step e f step data s (s\<lparr>ctl := Raised StructError\<rparr>)"
| at_null: "ctl s = Running \<Longrightarrow> 0 < step \<Longrightarrow> pos s < length data \<Longrightarrow>
     step \<le> length (py_slice data (pos s) (pos s + step)) \<Longrightarrow>
     struct_unpack e f (py_slice data (pos s) (pos s + step)) = Some (0, a_val) \<Longrightarrow>
     loop_step e f step data s (s\<lparr>ctl := Returned\<rparr>)"
| append: "ctl s = Running \<Longrightarrow> 0 < step \<Longrightarrow> pos s < length data \<Longrightarrow>
     step \<le> length (py_slice data (pos s) (pos s + step)) \<Longrightarrow>
     struct_unpack e f (py_slice data (pos s) (pos s + step)) = Some (a_type, a_val) \<Longrightarrow>
     a_type \<noteq> 0 \<Longrightarrow>
     loop_step e f step data s (s\<lparr>pos := pos s + step, acc := acc s @ [(a_type, a_val)]\<rparr>)"

inductive_cases loop_stepE: "loop_step e f step data s t"

text \<open>The states that the loop reaches from its start.\<close>

inductive reachable :: "endian \<Rightarrow> fmt \<Rightarrow> nat \<Rightarrow> bytes \<Rightarrow> loop_state \<Rightarrow> bool"
  for e f step data where
  start: "reachable e f step data loop_init"
| step: "reachable e f step data s \<Longrightarrow> loop_step e f step data s t \<Longrightarrow>
     reachable e f step data t"

text \<open>What the function returns or raises once the loop has halted.\<close>

fun outcome :: "loop_state \<Rightarrow> (auxv_error + entry list) option" where
  "outcome s = (case ctl s of Running \<Rightarrow> None | Returned \<Rightarrow> Some (Inr (acc s))
                | Raised err \<Rightarrow> Some (Inl err))"

text \<open>The loop kept as a loop: rounds while the state is running.\<close>

definition run_loop :: "endian \<Rightarrow> fmt \<Rightarrow> nat \<Rightarrow> bytes \<Rightarrow> loop_state option" where
  "run_loop e f step data =
     while_option (\<lambda>s. ctl s = Running) (loop_next e f step data) loop_init"

section \<open>Reference definitions\<close>

text \<open>The number of rounds that a state has left at most.\<close>

definition rank :: "nat \<Rightarrow> bytes \<Rightarrow> loop_state \<Rightarrow> nat" where
  "rank step data s =
     (if ctl s = Running then Suc ((length data - pos s) div step) else 0)"

text \<open>What the function is going to return, seen from a state.\<close>

definition result_of :: "endian \<Rightarrow> fmt \<Rightarrow> nat \<Rightarrow> bytes \<Rightarrow> loop_state \<Rightarrow> auxv_error + entry list" where
  "result_of e f step data s =
     (case ctl s of Running \<Rightarrow> parse_loop e f step data (pos s) (acc s)
      | Returned \<Rightarrow> Inr (acc s) | Raised err \<Rightarrow> Inl err)"

text \<open>The invariant: the entries are the decoding of the bytes before the index.\<close>

definition loop_inv :: "endian \<Rightarrow> fmt \<Rightarrow> nat \<Rightarrow> bytes \<Rightarrow> loop_state \<Rightarrow> bool" where
  "loop_inv e f step data s \<longleftrightarrow>
     pos s \<le> length data \<and> pos s mod step = 0 \<and>
     acc s = map (unpack_pair e f) (full_chunks step (take (pos s) data)) \<and>
     list_all not_null (acc s)"

section \<open>Steps and rounds\<close>

lemma chunk_short_iff:
  "length (py_slice data i (i + step)) < step \<longleftrightarrow> length data - i < step"
  by (auto simp: min_def)

lemma chunk_full_iff:
  "step \<le> length (py_slice data i (i + step)) \<longleftrightarrow> step \<le> length data - i"
  by (auto simp: min_def)

lemmas chunk_iff = chunk_short_iff chunk_full_iff

lemma loop_step_iff:
  "loop_step e f step data s t \<longleftrightarrow> ctl s = Running \<and> t = loop_next e f step data s"
proof
  assume "loop_step e f step data s t"
  then show "ctl s = Running \<and> t = loop_next e f step data s"
    by (induction rule: loop_step.induct) (simp_all add: loop_next_def del: length_py_slice)
next
  assume r: "ctl s = Running \<and> t = loop_next e f step data s"
  let ?chunk = "py_slice data (pos s) (pos s + step)"
  consider (z) "step = 0" | (x) "0 < step" "length data \<le> pos s"
    | (t) "0 < step" "pos s < length data" "length ?chunk < step"
    | (u) "0 < step" "pos s < length data" "step \<le> length ?chunk"
    by linarith
  then show "loop_step e f step data s t"
  proof cases
    case z
    with r show ?thesis by (simp add: loop_next_def loop_step.zero_step)
  next
    case x
    with r show ?thesis by (simp add: loop_next_def loop_step.exhausted)
  next
    case t
    with r loop_step.truncated [of s step data e f] show ?thesis
      by (simp add: loop_next_def chunk_iff del: length_py_slice)
  next
    case u
    then have nt: "\<not> length ?chunk < step" by simp
    show ?thesis
    proof (cases "struct_unpack e f ?chunk")
      case None
      with u nt r loop_step.malformed [of s step data e f] show ?thesis
        by (simp add: loop_next_def del: length_py_slice)
    next
      case (Some en)
      obtain a v where en: "en = (a, v)" by (cases en)
      show ?thesis
      proof (cases "a = 0")
        case True
        with u nt r Some en loop_step.at_null [of s step data e f v] show ?thesis
          by (simp add: loop_next_def del: length_py_slice)
      next
        case False
        with u nt r Some en loop_step.append [of s step data e f a v] show ?thesis
          by (simp add: loop_next_def del: length_py_slice)
      qed
    qed
  qed
qed

lemma loop_step_deterministic:
  "loop_step e f step data s t \<Longrightarrow> loop_step e f step data s u \<Longrightarrow> t = u"
  by (simp add: loop_step_iff)

lemma loop_step_progress: "ctl s = Running \<Longrightarrow> \<exists>t. loop_step e f step data s t"
  by (simp add: loop_step_iff)

lemma halted_no_step: "ctl s \<noteq> Running \<Longrightarrow> \<not> loop_step e f step data s t"
  by (simp add: loop_step_iff)

section \<open>Rank\<close>

lemma div_step_less: "0 < step \<Longrightarrow> step \<le> n \<Longrightarrow> (n - step) div step < n div (step :: nat)"
  by (simp add: le_div_geq)

lemma loop_step_rank:
  "loop_step e f step data s t \<Longrightarrow> rank step data t < rank step data s"
proof (induction rule: loop_step.induct)
  case (append s a_type a_val)
  then have "step \<le> length data - pos s" by (simp add: chunk_iff del: length_py_slice)
  from div_step_less [OF append(2) this] append(1) show ?case
    by (simp add: rank_def)
qed (simp_all add: rank_def)

lemma halts_within:
  "rank step data s \<le> n \<Longrightarrow>
     \<exists>k t. k \<le> n \<and> (loop_step e f step data ^^ k) s t \<and> ctl t \<noteq> Running"
proof (induction n arbitrary: s)
  case 0
  then have "ctl s \<noteq> Running" by (simp add: rank_def split: if_splits)
  then show ?case by (intro exI [of _ 0] exI [of _ s]) simp
next
  case (Suc n)
  show ?case
  proof (cases "ctl s = Running")
    case False
    then show ?thesis by (intro exI [of _ 0] exI [of _ s]) simp
  next
    case True
    then obtain u where u: "loop_step e f step data s u"
      using loop_step_progress by blast
    from loop_step_rank [OF u] Suc.prems have "rank step data u \<le> n" by simp
    from Suc.IH [OF this] obtain k t where k: "k \<le> n"
      and run: "(loop_step e f step data ^^ k) u t" and t: "ctl t \<noteq> Running"
      by blast
    from u run have "(loop_step e f step data ^^ Suc k) s t" by (rule relpowp_Suc_I2)
    with k t show ?thesis by (intro exI [of _ "Suc k"] exI [of _ t]) simp
  qed
qed

section \<open>The value of the function\<close>

lemma loop_step_result:
  "loop_step e f step data s t \<Longrightarrow> result_of e f step data t = result_of e f step data s"
proof (induction rule: loop_step.induct)
  case (append s a_type a_val)
  then show ?case
    by (subst (2) result_of_def, subst parse_loop.simps)
      (simp add: result_of_def chunk_iff parse_loop.simps [symmetric] del: length_py_slice)
qed (simp_all add: result_of_def parse_loop.simps chunk_iff del: length_py_slice)

lemma run_result:
  "(loop_step e f step data)\<^sup>*\<^sup>* s t \<Longrightarrow> result_of e f step data t = result_of e f step data s"
  by (induction rule: rtranclp_induct) (simp_all add: loop_step_result)

lemma outcome_result: "ctl t \<noteq> Running \<Longrightarrow> outcome t = Some (result_of e f step data t)"
  by (cases "ctl t") (simp_all add: result_of_def)

lemma result_of_init: "result_of e f step data loop_init = parse_loop e f step data 0 []"
  by (simp add: result_of_def loop_init_def)

lemma loop_next_step:
  "ctl s = Running \<Longrightarrow> loop_step e f step data s (loop_next e f step data s)"
  by (simp add: loop_step_iff)

lemma loop_next_rank:
  "ctl s = Running \<Longrightarrow> rank step data (loop_next e f step data s) < rank step data s"
  by (rule loop_step_rank) (rule loop_next_step)

lemma loop_next_result:
  "ctl s = Running \<Longrightarrow>
     result_of e f step data (loop_next e f step data s) = result_of e f step data s"
  by (rule loop_step_result) (rule loop_next_step)

lemma run_loop_Some:
  "\<exists>t. run_loop e f step data = Some t \<and> ctl t \<noteq> Running \<and>
       result_of e f step data t = parse_loop e f step data 0 []"
proof -
  let ?b = "\<lambda>s. ctl s = Running" and ?c = "loop_next e f step data"
  let ?P = "\<lambda>s. result_of e f step data s = parse_loop e f step data 0 []"
  have "\<exists>t. while_option ?b ?c loop_init = Some t"
    by (rule measure_while_option_Some [where P = "\<lambda>s. True" and f = "rank step data"])
      (simp_all add: loop_next_rank)
  then obtain t where t: "while_option ?b ?c loop_init = Some t" ..
  have "?P t"
    by (rule while_option_rule [where P = ?P, OF _ t])
      (simp_all add: loop_next_result result_of_init)
  with t while_option_stop [OF t] show ?thesis
    by (simp add: run_loop_def)
qed

section \<open>The invariant\<close>

lemma full_chunks_append_aligned:
  "0 < n \<Longrightarrow> length xs mod n = 0 \<Longrightarrow>
     full_chunks n (xs @ ys) = full_chunks n xs @ full_chunks n ys"
proof (induction n xs rule: full_chunks.induct)
  case (1 n xs)
  show ?case
  proof (cases "length xs < n")
    case True
    with "1.prems" have "xs = []" by (simp add: mod_less)
    then show ?thesis by simp
  next
    case False
    with "1.prems" have le: "n \<le> length xs" and m: "length (drop n xs) mod n = 0"
      by (simp_all add: le_mod_geq)
    from "1.prems"(1) False have "full_chunks n (drop n xs @ ys) =
        full_chunks n (drop n xs) @ full_chunks n ys"
      by (intro "1.IH" m) simp_all
    with "1.prems"(1) le show ?thesis
      by (simp add: full_chunks_step)
  qed
qed

lemma full_chunks_one: "0 < n \<Longrightarrow> length c = n \<Longrightarrow> full_chunks n c = [c]"
  using full_chunks_append_chunk [of n c "[]"] by simp

lemma loop_inv_init: "loop_inv e f step data loop_init"
  by (simp add: loop_inv_def loop_init_def)

lemma loop_step_inv:
  assumes "loop_step e f step data s t" and "loop_inv e f step data s" and "step = calcsize f"
  shows "loop_inv e f step data t"
  using assms
proof (induction rule: loop_step.induct)
  case (append s a_type a_val)
  let ?chunk = "py_slice data (pos s) (pos s + step)"
  from append have full: "pos s + step \<le> length data"
    by (simp add: chunk_iff del: length_py_slice)
  then have len: "length ?chunk = step" by simp
  from append.prems have i: "pos s \<le> length data" "pos s mod step = 0"
    and a: "acc s = map (unpack_pair e f) (full_chunks step (take (pos s) data))"
    and nn: "list_all not_null (acc s)"
    unfolding loop_inv_def by blast+
  have "take (pos s + step) data = take (pos s) data @ ?chunk"
    by (simp add: py_slice_def take_add)
  with i append(2) len have "full_chunks step (take (pos s + step) data) =
      full_chunks step (take (pos s) data) @ [?chunk]"
    by (simp add: full_chunks_append_aligned full_chunks_one del: length_py_slice)
  moreover from append(5) len append.prems(2) have "unpack_pair e f ?chunk = (a_type, a_val)"
    by (simp add: struct_unpack_full del: length_py_slice)
  ultimately show ?case using full i a nn append(6)
    by (auto simp: loop_inv_def not_null_def)
qed (auto simp: loop_inv_def)

lemma reachable_run: "reachable e f step data s \<longleftrightarrow> (loop_step e f step data)\<^sup>*\<^sup>* loop_init s"
proof
  show "reachable e f step data s \<Longrightarrow> (loop_step e f step data)\<^sup>*\<^sup>* loop_init s"
    by (induction rule: reachable.induct) auto
  show "(loop_step e f step data)\<^sup>*\<^sup>* loop_init s \<Longrightarrow> reachable e f step data s"
    by (induction rule: rtranclp_induct) (auto intro: reachable.intros)
qed

section \<open>An example buffer\<close>

text \<open>Two pairs of 32-bit words, little-endian: \<open>(6, 4096)\<close> and the terminator.\<close>

definition example_buffer :: bytes where
  "example_buffer = [6, 0, 0, 0, 0, 16, 0, 0, 0, 0, 0, 0, 0, 0, 0, 0]"

lemma example_first_step:
  "loop_step Little II 8 example_buffer loop_init \<lparr>pos = 8, acc = [(6, 4096)], ctl = Running\<rparr>"
  unfolding loop_step_iff by code_simp

lemma example_second_step:
  "loop_step Little II 8 example_buffer \<lparr>pos = 8, acc = [(6, 4096)], ctl = Running\<rparr>
     \<lparr>pos = 8, acc = [(6, 4096)], ctl = Returned\<rparr>"
  unfolding loop_step_iff by code_simp

section \<open>Properties\<close>

text \<open>
  The loop of \<open>parse_auxv\<close> cannot run forever: the step relation,
  read backwards, is well-founded for every byte order, format, stride (0 included)
  and buffer, so there is no infinite sequence of rounds from any state.
\<close>

theorem loop_terminates: "wf {(t, s). loop_step e f step data s t}"
  by (rule wf_subset [OF wf_measure [of "rank step data"]]) (auto simp: loop_step_rank)

text \<open>
  C20 (liveness). From its start the loop reaches a halted state (returned or raised)
  after at most one round per stride of the buffer and one more.
\<close>

theorem loop_halts:
  "\<exists>k t. k \<le> Suc (length data div step) \<and> (loop_step e f step data ^^ k) loop_init t
      \<and> ctl t \<noteq> Running"
  by (rule halts_within) (simp add: rank_def loop_init_def)

text \<open>
  C12 (termination). Run as a \<open>while\<close> loop, the rounds end: \<open>run_loop\<close> returns a
  state, that state is halted, and what it holds is the value of \<open>parse_loop\<close>, entries
  or error.
\<close>

theorem run_loop_returns:
  "\<exists>t. run_loop e f step data = Some t \<and> outcome t = Some (parse_loop e f step data 0 [])"
proof -
  from run_loop_Some [of e f step data] obtain t where "run_loop e f step data = Some t"
    and "ctl t \<noteq> Running" and "result_of e f step data t = parse_loop e f step data 0 []"
    by blast
  with outcome_result [of t e f step data] show ?thesis by simp
qed



text \<open>
  C16 (invariant). In every state that the loop reaches, with the stride of the format,
  the index is a multiple of the stride within the buffer, the entries collected are
  exactly the decoded strides of the bytes before the index, in order, and none of them
  has tag 0.
\<close>

theorem reachable_invariant:
  "reachable e f step data s \<Longrightarrow> step = calcsize f \<Longrightarrow> loop_inv e f step data s"
  by (induction rule: reachable.induct) (auto intro: loop_inv_init loop_step_inv)

theorem reachable_invariant_witness:
  "loop_inv Little II 8 example_buffer \<lparr>pos = 8, acc = [(6, 4096)], ctl = Running\<rparr>"
proof -
  have "reachable Little II 8 example_buffer \<lparr>pos = 8, acc = [(6, 4096)], ctl = Running\<rparr>"
    using reachable.start example_first_step by (rule reachable.step)
  from reachable_invariant [OF this] show ?thesis by (simp add: calcsize_def)
qed

end
