(* ===== verification/Hwcap.thy ===== *)
theory Hwcap
  imports PyString
begin

text \<open>
  The capability bit tables of \<^verbatim>\<open>auxv.print.py\<close> (\<open>AARCH64_HWCAP\<close>, \<open>AARCH64_HWCAP2\<close>,
  \<open>X86_HWCAP\<close>) and the expander that names the bits of a mask: \<open>bits_to_names\<close> and
  \<open>decode_hwcap\<close>. A table is a Python \<open>dict\<close> from bit position to name; it is an
  association list in the order of the source, because the expander walks the table in
  that order. The lemmas say which names the expander returns, that bits outside a table
  leave no trace, and that within a table nothing is lost: the names determine the bits.
\<close>

section \<open>The tables\<close>

type_synonym bit_table = "(nat \<times> string) list"

definition AARCH64_HWCAP :: bit_table where
  "AARCH64_HWCAP = [
    (0, ''FP''), (1, ''ASIMD''), (2, ''EVTSTRM''), (3, ''AES''), (4, ''PMULL''),
    (5, ''SHA1''), (6, ''SHA2''), (7, ''CRC32''), (8, ''ATOMICS''), (9, ''FPHP''),
    (10, ''ASIMDHP''), (11, ''CPUID''), (12, ''ASIMDRDM''), (13, ''JSCVT''),
    (14, ''FCMA''), (15, ''LRCPC''), (16, ''DCPOP''), (17, ''SHA3''), (18, ''SM3''),
    (19, ''SM4''), (20, ''ASIMDDP''), (21, ''SHA512''), (22, ''SVE''),
    (23, ''ASIMDFHM''), (28, ''ILRCPC''), (29, ''FLAGM''), (30, ''SSBS''), (31, ''SB'')]"

definition AARCH64_HWCAP2 :: bit_table where
  "AARCH64_HWCAP2 = [
    (0, ''DCPODP''), (1, ''SVE2''), (2, ''SVEAES''), (3, ''SVEPMULL''),
    (4, ''SVEBITPERM''), (5, ''SVESHA3''), (6, ''SVESM4''), (7, ''FLAGM2''),
    (8, ''FRINT''), (9, ''SVEI8MM''), (10, ''SVEF32MM''), (11, ''SVEF64MM''),
    (12, ''SVEBF16''), (13, ''I8MM''), (14, ''BF16''), (15, ''DGH''), (16, ''RNG''),
    (17, ''BTI''), (20, ''MTE''), (21, ''ECV''), (22, ''AFP''), (23, ''RPRFM''),
    (28, ''MTE3''), (29, ''SSELECT''), (30, ''IDST'')]"

definition X86_HWCAP :: bit_table where
  "X86_HWCAP = [
    (0, ''FPU''), (1, ''VME''), (2, ''DE''), (3, ''PSE''), (4, ''TSC''), (5, ''MSR''),
    (6, ''PAE''), (7, ''MCE''), (8, ''CX8''), (9, ''APIC''), (11, ''SEP''),
    (12, ''MTRR''), (13, ''PGE''), (14, ''MCA''), (15, ''CMOV''), (16, ''PAT''),
    (17, ''PSE36''), (19, ''CLFLUSH''), (23, ''MMX''), (25, ''SSE''), (26, ''SSE2'')]"

lemmas hwcap_tables [table_defs] = AARCH64_HWCAP_def AARCH64_HWCAP2_def X86_HWCAP_def

section \<open>The expander\<close>

text \<open>
  \<open>[name for bit, name in table.items() if (bits >> bit) & 1]\<close>. The mask is a Python
  integer; the shift and the mask are those of \<open>int\<close>, also for a negative number.
\<close>

definition bit_is_set :: "pyint \<Rightarrow> nat \<Rightarrow> bool" where
  "bit_is_set bits b \<longleftrightarrow> (drop_bit b bits) AND 1 \<noteq> 0"

definition bits_to_names :: "pyint \<Rightarrow> bit_table \<Rightarrow> string list" where
  "bits_to_names bits table = map snd (filter (\<lambda>(b, name). bit_is_set bits b) table)"

text \<open>
  One line of the decoded block: nothing when the list is empty, else the label and
  the names, sorted, joined by a comma and a space.
\<close>

definition names_line :: "string \<Rightarrow> string list \<Rightarrow> string list" where
  "names_line label names = (if names \<noteq> [] then [label @ join '', '' (sort names)] else [])"

definition decode_hwcap :: "string \<Rightarrow> pyint \<Rightarrow> pyint \<Rightarrow> string list" where
  "decode_hwcap arch hwcap hwcap2 =
     (if arch = ''aarch64'' then
        names_line ''HWCAP:  '' (bits_to_names hwcap AARCH64_HWCAP) @
        names_line ''HWCAP2: '' (bits_to_names hwcap2 AARCH64_HWCAP2)
      else if arch \<in> set [''x86_64'', ''i386'', ''i686''] then
        names_line ''HWCAP:  '' (bits_to_names hwcap X86_HWCAP) @
        (if hwcap2 \<noteq> 0 then [''HWCAP2: 0x'' @ fmt_x hwcap2 @ '' (rarely used on x86)''] else [])
      else [])"

section \<open>Structure of the tables\<close>

definition well_formed :: "bit_table \<Rightarrow> bool" where
  "well_formed t \<longleftrightarrow> distinct (map fst t) \<and> distinct (map snd t)"

lemma well_formed_AARCH64_HWCAP: "well_formed AARCH64_HWCAP"
  by (simp add: well_formed_def AARCH64_HWCAP_def)

lemma well_formed_AARCH64_HWCAP2: "well_formed AARCH64_HWCAP2"
  by (simp add: well_formed_def AARCH64_HWCAP2_def)

lemma well_formed_X86_HWCAP: "well_formed X86_HWCAP"
  by (simp add: well_formed_def X86_HWCAP_def)

lemmas well_formed_tables =
  well_formed_AARCH64_HWCAP well_formed_AARCH64_HWCAP2 well_formed_X86_HWCAP

section \<open>What the expander returns\<close>

lemma bit_is_set_iff [simp]: "bit_is_set bits b \<longleftrightarrow> bit bits b"
  by (simp add: bit_is_set_def bit_iff_and_drop_bit_eq_1 and_one_eq mod_2_eq_odd)

lemma bits_to_names_Nil [simp]: "bits_to_names bits [] = []"
  by (simp add: bits_to_names_def)

lemma bits_to_names_Cons [simp]:
  "bits_to_names bits ((b, name) # t) =
     (if bit bits b then name # bits_to_names bits t else bits_to_names bits t)"
  by (simp add: bits_to_names_def)

lemma mem_bits_to_names:
  "name \<in> set (bits_to_names bits t) \<longleftrightarrow> (\<exists>b. (b, name) \<in> set t \<and> bit bits b)"
  by (force simp: bits_to_names_def)

lemma bits_to_names_cong:
  "\<forall>b \<in> fst ` set t. bit x b = bit y b \<Longrightarrow> bits_to_names x t = bits_to_names y t"
  by (induction t) auto

lemma bits_to_names_0 [simp]: "bits_to_names 0 t = []"
  by (induction t) auto

lemma bits_to_names_subset: "set (bits_to_names bits t) \<subseteq> snd ` set t"
  by (force simp: mem_bits_to_names)

lemma distinct_bits_to_names: "distinct (map snd t) \<Longrightarrow> distinct (bits_to_names bits t)"
  using bits_to_names_subset by (induction t) fastforce+

lemma length_bits_to_names: "length (bits_to_names bits t) \<le> length t"
  by (simp add: bits_to_names_def)

text \<open>
  With distinct names, the list of names determines the bits of the table: no mapped
  bit is lost by the naming.
\<close>

lemma bits_to_names_inj:
  "distinct (map snd t) \<Longrightarrow> bits_to_names x t = bits_to_names y t \<Longrightarrow>
   (b, name) \<in> set t \<Longrightarrow> bit x b = bit y b"
proof (induction t)
  case Nil
  then show ?case by simp
next
  case (Cons p t)
  obtain c n where p: "p = (c, n)" by (cases p)
  from Cons.prems(1) p have n: "n \<notin> set (bits_to_names x t)" "n \<notin> set (bits_to_names y t)"
    using bits_to_names_subset by fastforce+
  from Cons.prems(2) have eq:
    "(if bit x c then n # bits_to_names x t else bits_to_names x t) =
     (if bit y c then n # bits_to_names y t else bits_to_names y t)"
    unfolding p by simp
  have hd: "bit x c = bit y c"
    using eq n by (metis list.set_intros(1))
  with eq have tl: "bits_to_names x t = bits_to_names y t"
    by (simp split: if_splits)
  show ?case
  proof (cases "(b, name) = p")
    case True
    with hd p show ?thesis by simp
  next
    case False
    with Cons.prems have "(b, name) \<in> set t" "distinct (map snd t)" by auto
    with tl show ?thesis by (intro Cons.IH)
  qed
qed

lemma bit_or_single: "bit (bits OR 2 ^ k) b \<longleftrightarrow> bit bits b \<or> b = k" for bits :: int
  by (auto simp: bit_or_iff bit_exp_iff)

lemma names_line_length: "length (names_line label names) \<le> 1"
  by (simp add: names_line_def)

section \<open>Properties\<close>


text \<open>
  Example. For the mask with bits 1, 3 and 22 set, the expander on the AArch64
  primary table returns \<open>ASIMD\<close>, \<open>AES\<close> and \<open>SVE\<close>, which sorted is
  \<open>["AES", "ASIMD", "SVE"]\<close>, and \<open>decode_hwcap\<close> prints them in that order.
\<close>

theorem expander_example:
  "bits_to_names (2 ^ 1 + 2 ^ 3 + 2 ^ 22) AARCH64_HWCAP = [''ASIMD'', ''AES'', ''SVE'']
   \<and> sort (bits_to_names (2 ^ 1 + 2 ^ 3 + 2 ^ 22) AARCH64_HWCAP) = [''AES'', ''ASIMD'', ''SVE'']
   \<and> decode_hwcap ''aarch64'' (2 ^ 1 + 2 ^ 3 + 2 ^ 22) 0 = [''HWCAP:  AES, ASIMD, SVE'']"
  by code_simp

text \<open>
  A bit that the table does not map leaves no trace in the names: setting
  it in the mask changes nothing in what the expander returns.
\<close>

theorem unmapped_bit_ignored:
  assumes "k \<notin> fst ` set t"
  shows "bits_to_names (bits OR push_bit k 1) t = bits_to_names bits t"
proof (rule bits_to_names_cong)
  show "\<forall>b \<in> fst ` set t. bit (bits OR push_bit k 1) b = bit bits b"
    using assms by (auto simp: bit_or_single)
qed

theorem unmapped_bit_ignored_witness:
  "24 \<notin> fst ` set AARCH64_HWCAP
   \<and> bits_to_names (10 OR push_bit 24 1) AARCH64_HWCAP = bits_to_names 10 AARCH64_HWCAP"
proof -
  have a: "24 \<notin> fst ` set AARCH64_HWCAP"
    by (simp add: AARCH64_HWCAP_def)
  from unmapped_bit_ignored [OF a, of 10] a show ?thesis
    by simp
qed

text \<open>
  Within a table nothing is lost by the naming: in a table whose names
  are distinct, two masks that expand to the same names agree on every bit that the
  table maps. The three tables of the tool are such tables.
\<close>

theorem names_determine_bits:
  assumes "well_formed t" and "bits_to_names x t = bits_to_names y t"
  shows "\<forall>b \<in> fst ` set t. bit x b = bit y b"
  using assms bits_to_names_inj [of t x y] by (auto simp: well_formed_def)

theorem names_determine_bits_witness:
  "well_formed AARCH64_HWCAP
   \<and> bits_to_names 10 AARCH64_HWCAP = bits_to_names (10 OR push_bit 24 1) AARCH64_HWCAP
   \<and> bit (10 :: int) 3 = bit (10 OR push_bit 24 1 :: int) 3"
proof -
  have a: "bits_to_names 10 AARCH64_HWCAP = bits_to_names (10 OR push_bit 24 1) AARCH64_HWCAP"
    by code_simp
  have b: "3 \<in> fst ` set AARCH64_HWCAP"
    by (simp add: AARCH64_HWCAP_def)
  from names_determine_bits [OF well_formed_AARCH64_HWCAP a] have
    "\<forall>b \<in> fst ` set AARCH64_HWCAP. bit (10 :: int) b = bit (10 OR push_bit 24 1 :: int) b" .
  from this b have "bit (10 :: int) 3 = bit (10 OR push_bit 24 1 :: int) 3" by (rule bspec)
  with well_formed_AARCH64_HWCAP a show ?thesis by blast
qed

end
