(* ===== verification/AuxvReport.thy ===== *)
theory AuxvReport
  imports Auxv Hwcap
begin

text \<open>
  The report of \<^verbatim>\<open>auxv.print.py\<close>: what \<open>main\<close> prints for a decoded vector. The names
  of the tags (\<open>AT_NAMES\<close>), the table of entries with its aligned name column, and the
  block of decoded capabilities. What \<open>main\<close> reads from its environment is a parameter:
  the bytes of the vector, the machine name that \<open>platform.machine()\<close> returns, the
  process id, and a function that stands for \<open>read_string_from_maps\<close>, the best-effort
  read of a string from the process's memory. What it prints is a list of lines.
\<close>

section \<open>Tag names\<close>

definition SUPPORTED_ARCH_LIST :: "string list" where
  "SUPPORTED_ARCH_LIST = [''aarch64'', ''x86_64'', ''i386'', ''i686'']"

definition AT_NAMES :: "(pyint \<times> string) list" where
  "AT_NAMES = [
    (0, ''AT_NULL''), (1, ''AT_IGNORE''), (2, ''AT_EXECFD''), (3, ''AT_PHDR''),
    (4, ''AT_PHENT''), (5, ''AT_PHNUM''), (6, ''AT_PAGESZ''), (7, ''AT_BASE''),
    (8, ''AT_FLAGS''), (9, ''AT_ENTRY''), (10, ''AT_NOTELF''), (11, ''AT_UID''),
    (12, ''AT_EUID''), (13, ''AT_GID''), (14, ''AT_EGID''), (15, ''AT_CLKTCK''),
    (16, ''AT_PLATFORM''), (17, ''AT_HWCAP''), (18, ''AT_FPUCW''),
    (19, ''AT_DCACHEBSIZE''), (20, ''AT_ICACHEBSIZE''), (21, ''AT_UCACHEBSIZE''),
    (22, ''AT_IGNOREPPC''), (23, ''AT_SECURE''), (24, ''AT_BASE_PLATFORM''),
    (25, ''AT_RANDOM''), (26, ''AT_HWCAP2''), (31, ''AT_EXECFN''), (32, ''AT_SYSINFO''),
    (33, ''AT_SYSINFO_EHDR''), (34, ''AT_L1I_CACHESHAPE''), (35, ''AT_L1D_CACHESHAPE''),
    (36, ''AT_L2_CACHESHAPE''), (37, ''AT_L3_CACHESHAPE'')]"

text \<open>\<open>AT_NAMES.get(t, "AT_%d" % t)\<close>: the name of the table, or one made from the number.\<close>

definition at_name :: "pyint \<Rightarrow> string" where
  "at_name t = (case map_of AT_NAMES t of Some name \<Rightarrow> name | None \<Rightarrow> ''AT_'' @ fmt_d t)"

section \<open>The table of entries\<close>

text \<open>\<open>f"{name:<{w}}"\<close>: the name, padded with spaces on the right to width \<open>w\<close>.\<close>

definition ljust :: "nat \<Rightarrow> string \<Rightarrow> string" where
  "ljust w s = s @ replicate (w - length s) (CHR '' '')"

text \<open>The width of the name column: the longest name, or 15 when there is no entry.\<close>

definition name_width :: "entry list \<Rightarrow> nat" where
  "name_width entries =
     (if entries \<noteq> [] then fold max (map (\<lambda>(t, v). length (at_name t)) entries) 0 else 15)"

definition decimal_names :: "string list" where
  "decimal_names = [''AT_PHENT'', ''AT_PHNUM'', ''AT_PAGESZ'', ''AT_CLKTCK'', ''AT_UID'',
     ''AT_EUID'', ''AT_GID'', ''AT_EGID'', ''AT_SECURE'']"

definition ptr_tags :: "pyint list" where
  "ptr_tags = [16, 24, 31]"

text \<open>
  One line of the table. \<open>str_cache\<close> holds the strings that were read for
  pointer-valued tags.
\<close>

definition render_entry :: "nat \<Rightarrow> (pyint \<rightharpoonup> string) \<Rightarrow> entry \<Rightarrow> string" where
  "render_entry name_w str_cache en =
     (let t = fst en; v = snd en; name = at_name t in
      if t \<in> set ptr_tags \<and> str_cache t \<noteq> None then
        ljust name_w name @ '' : 0x'' @ fmt_x v @ ''  \"'' @ the (str_cache t) @ ''\"''
      else if t = 25 then
        ljust name_w name @ '' : 0x'' @ fmt_x v @ ''  (pointer to 16 random bytes)''
      else if name \<in> set decimal_names then
        ljust name_w name @ '' : '' @ fmt_d v
      else
        ljust name_w name @ '' : 0x'' @ fmt_x v)"

definition render_entries :: "(pyint \<rightharpoonup> string) \<Rightarrow> entry list \<Rightarrow> string list" where
  "render_entries str_cache entries = map (render_entry (name_width entries) str_cache) entries"

section \<open>Strings for pointer-valued tags\<close>

text \<open>
  The loop that fills \<open>str_cache\<close> in self mode: for each entry with a pointer tag and
  a non-zero value, the string at that address, if one could be read and is not empty.
  A later entry with the same tag replaces an earlier one.
\<close>

fun build_str_cache ::
  "(pyint \<Rightarrow> string option) \<Rightarrow> entry list \<Rightarrow> (pyint \<rightharpoonup> string) \<Rightarrow> (pyint \<rightharpoonup> string)" where
  "build_str_cache read_string [] str_cache = str_cache"
| "build_str_cache read_string ((t, v) # rest) str_cache =
     build_str_cache read_string rest
       (if t \<in> set ptr_tags \<and> v \<noteq> 0 then
          (case read_string v of
             Some s \<Rightarrow> if s \<noteq> [] then str_cache(t \<mapsto> s) else str_cache
           | None \<Rightarrow> str_cache)
        else str_cache)"

section \<open>The block of decoded capabilities\<close>

text \<open>\<open>next((v for t, v in entries if t == tag), 0)\<close>: the first value with the tag, else 0.\<close>

fun first_value :: "pyint \<Rightarrow> entry list \<Rightarrow> pyint" where
  "first_value tag [] = 0"
| "first_value tag ((t, v) # rest) = (if t = tag then v else first_value tag rest)"

definition hwcap_block :: "string \<Rightarrow> entry list \<Rightarrow> string list" where
  "hwcap_block arch entries =
     (let hw1 = first_value 17 entries;
          hw2 = first_value 26 entries;
          lines = decode_hwcap arch hw1 hw2 in
      if lines \<noteq> [] then [[], ''Decoded HWCAP:''] @ map (\<lambda>ln. ''  '' @ ln) lines
      else [[], ''Decoded HWCAP: (no known mapping for arch='' @ arch @ '')''])"

section \<open>The program\<close>

record options =
  decode_auxv :: "string option"
  decode_arch :: "string option"
  decode_hwcap_opt :: bool
  try_strings :: bool

record environment =
  host :: platform
  machine :: string
  pid :: pyint
  read_string :: "pyint \<Rightarrow> string option"

record printed =
  stdout :: "string list"
  stderr :: "string list"

text \<open>
  \<open>main\<close> after the arguments are parsed. \<open>content\<close> is what the file named by
  \<open>--decode-auxv\<close> holds in file mode, and what \<^verbatim>\<open>/proc/self/auxv\<close> holds in self mode.
  An error of \<open>parse_auxv\<close> is not caught by \<open>main\<close>: nothing of the table is printed.
\<close>

definition auxv_main :: "environment \<Rightarrow> options \<Rightarrow> bytes \<Rightarrow> auxv_error + printed" where
  "auxv_main env args content =
     (let file_mode = (decode_auxv args \<noteq> None);
          arch = (if file_mode
                  then (case decode_arch args of Some a \<Rightarrow> if a \<noteq> [] then a else machine env
                        | None \<Rightarrow> machine env)
                  else machine env) in
      case parse_auxv (host env) content (Some arch) of
        Inl err \<Rightarrow> Inl err
      | Inr entries \<Rightarrow>
          (let source_desc =
                 (if file_mode
                  then ''File: '' @ the (decode_auxv args) @ '' (arch='' @ arch @ '')''
                  else ''PID '' @ fmt_d (pid env) @ '' (arch='' @ arch @ '')'');
               str_cache =
                 (if \<not> file_mode \<and> try_strings args
                  then build_str_cache (read_string env) entries Map.empty
                  else Map.empty);
               warning =
                 (if file_mode \<and> try_strings args
                  then [''Warning: --try-strings ignored in file mode''] else [])
           in Inr \<lparr>stdout =
                     [''auxv from '' @ source_desc @ '':''] @ render_entries str_cache entries @
                     (if decode_hwcap_opt args then hwcap_block arch entries else []),
                   stderr = warning\<rparr>))"

section \<open>Names\<close>

lemma distinct_AT_NAMES: "distinct (map fst AT_NAMES) \<and> distinct (map snd AT_NAMES)"
  by (simp add: AT_NAMES_def)

text \<open>
  A name of the table has a capital letter after \<open>AT_\<close>; a name made from a number has
  a digit or a minus sign there. So the two kinds never meet.
\<close>

lemma table_name_shape:
  "map_of AT_NAMES t = Some name \<Longrightarrow>
     \<exists>c rest. name = ''AT_'' @ c # rest \<and> c \<notin> set ''-0123456789abcdef''"
  by (drule map_of_SomeD) (auto simp: AT_NAMES_def)

lemma fmt_d_shape: "\<exists>c rest. fmt_d t = c # rest \<and> c \<in> set ''-0123456789abcdef''"
proof (cases "t < 0")
  case True
  then show ?thesis by (simp add: fmt_d_def fmt_int_neg)
next
  case False
  then have "set (digits_of 10 t) \<subseteq> set ''0123456789abcdef''"
    by (intro digits_of_chars) simp_all
  moreover obtain c rest where "digits_of 10 t = c # rest"
    by (cases "digits_of 10 t") simp_all
  ultimately show ?thesis
    using False by (auto simp: fmt_d_def fmt_int_nonneg)
qed

lemma fmt_d_inj: "fmt_d n = fmt_d m \<Longrightarrow> n = m"
  unfolding fmt_d_def by (rule fmt_int_inj [of 10]) simp_all

lemma at_name_known: "map_of AT_NAMES t = Some name \<Longrightarrow> at_name t = name"
  by (simp add: at_name_def)

lemma at_name_unknown: "map_of AT_NAMES t = None \<Longrightarrow> at_name t = ''AT_'' @ fmt_d t"
  by (simp add: at_name_def)

lemma at_name_inj: "at_name t = at_name t' \<Longrightarrow> t = t'"
proof (cases "map_of AT_NAMES t"; cases "map_of AT_NAMES t'")
  fix n n' assume k: "map_of AT_NAMES t = Some n" "map_of AT_NAMES t' = Some n'"
  assume "at_name t = at_name t'"
  with k have "n = n'" by (simp add: at_name_known)
  with k distinct_AT_NAMES show ?thesis by (auto intro: map_of_inj)
next
  assume k: "map_of AT_NAMES t = None" "map_of AT_NAMES t' = None"
  assume "at_name t = at_name t'"
  with k show ?thesis by (simp add: at_name_unknown fmt_d_inj)
next
  fix n assume k: "map_of AT_NAMES t = Some n" "map_of AT_NAMES t' = None"
  assume "at_name t = at_name t'"
  with k table_name_shape [OF k(1)] fmt_d_shape [of t'] show ?thesis
    by (auto simp: at_name_known at_name_unknown)
next
  fix n assume k: "map_of AT_NAMES t = None" "map_of AT_NAMES t' = Some n"
  assume "at_name t = at_name t'"
  with k table_name_shape [OF k(2)] fmt_d_shape [of t] show ?thesis
    by (auto simp: at_name_known at_name_unknown)
qed

section \<open>The name column\<close>

lemma length_ljust: "length (ljust w s) = max w (length s)"
  by (simp add: ljust_def)

lemma name_width_ge: "(t, v) \<in> set entries \<Longrightarrow> length (at_name t) \<le> name_width entries"
proof -
  assume m: "(t, v) \<in> set entries"
  then have "length (at_name t) \<in> set (map (\<lambda>(t, v). length (at_name t)) entries)"
    by force
  then have "length (at_name t) \<le> fold max (map (\<lambda>(t, v). length (at_name t)) entries) 0"
    by (rule fold_max_ge)
  with m show ?thesis by (auto simp: name_width_def)
qed

lemma render_entry_prefix:
  "\<exists>rest. render_entry w c en = ljust w (at_name (fst en)) @ '' : '' @ rest"
  by (simp add: render_entry_def Let_def)

lemma length_render_entries [simp]: "length (render_entries c entries) = length entries"
  by (simp add: render_entries_def)

section \<open>Strings that cannot be read\<close>

lemma build_str_cache_no_strings:
  "\<forall>a. read a = None \<Longrightarrow> build_str_cache read entries c = c"
  by (induction entries arbitrary: c) auto

lemma build_str_cache_dom:
  "dom (build_str_cache read entries c) \<subseteq> dom c \<union> set ptr_tags"
proof (induction entries arbitrary: c)
  case Nil
  show ?case by simp
next
  case (Cons en entries)
  obtain t v where en: "en = (t, v)" by (cases en)
  let ?c' = "if t \<in> set ptr_tags \<and> v \<noteq> 0 then
          (case read v of Some s \<Rightarrow> if s \<noteq> [] then c(t \<mapsto> s) else c | None \<Rightarrow> c)
        else c"
  have 1: "dom ?c' \<subseteq> dom c \<union> set ptr_tags"
    by (auto split: option.splits if_splits)
  have 2: "dom (build_str_cache read entries ?c') \<subseteq> dom ?c' \<union> set ptr_tags"
    by (rule Cons)
  have 3: "build_str_cache read (en # entries) c = build_str_cache read entries ?c'"
    unfolding en by simp
  show ?case
    unfolding 3 using 1 2 by blast
qed

section \<open>The capability block\<close>

lemma decode_hwcap_0: "decode_hwcap arch 0 0 = []"
  by (simp add: decode_hwcap_def names_line_def)

section \<open>Properties\<close>

text \<open>
  Tags are displayed without ambiguity: two different tags never get the
  same display name, whether the names come from \<open>AT_NAMES\<close> or are made from the
  number as \<open>AT_<number>\<close>.
\<close>

theorem at_name_injective: "at_name t = at_name t' \<longleftrightarrow> t = t'"
  by (auto dest: at_name_inj)

text \<open>
  The table has one line for every decoded entry, known tag or not,
  and the lines are aligned: line \<open>i\<close> is the display name of entry \<open>i\<close>, padded with
  spaces to the common width \<open>name_width\<close>, then \<open>" : "\<close>, then the value. No name is
  longer than the width.
\<close>

theorem render_entries_aligned:
  assumes "i < length entries"
  shows "\<exists>rest. render_entries c entries ! i =
           at_name (fst (entries ! i))
           @ replicate (name_width entries - length (at_name (fst (entries ! i)))) (CHR '' '')
           @ '' : '' @ rest
         \<and> length (at_name (fst (entries ! i))) \<le> name_width entries
         \<and> length (render_entries c entries) = length entries"
proof -
  from assms have "(fst (entries ! i), snd (entries ! i)) \<in> set entries"
    by simp
  then have "length (at_name (fst (entries ! i))) \<le> name_width entries"
    by (rule name_width_ge)
  moreover obtain rest where "render_entry (name_width entries) c (entries ! i) =
      ljust (name_width entries) (at_name (fst (entries ! i))) @ '' : '' @ rest"
    using render_entry_prefix by blast
  ultimately show ?thesis
    using assms by (simp add: render_entries_def ljust_def)
qed

theorem render_entries_aligned_witness:
  "(1 :: nat) < length [(6 :: int, 4096 :: int), (17, 3219913727), (40, 7)]
   \<and> (\<exists>rest. render_entries Map.empty [(6, 4096), (17, 3219913727), (40, 7)] ! 1 =
           at_name (fst ([(6 :: int, 4096 :: int), (17, 3219913727), (40, 7)] ! 1))
           @ replicate (name_width [(6, 4096), (17, 3219913727), (40, 7)]
               - length (at_name (fst ([(6 :: int, 4096 :: int), (17, 3219913727), (40, 7)] ! 1))))
               (CHR '' '')
           @ '' : '' @ rest
         \<and> length (at_name (fst ([(6 :: int, 4096 :: int), (17, 3219913727), (40, 7)] ! 1)))
             \<le> name_width [(6, 4096), (17, 3219913727), (40, 7)]
         \<and> length (render_entries Map.empty [(6, 4096), (17, 3219913727), (40, 7)])
             = length [(6 :: int, 4096 :: int), (17, 3219913727), (40, 7)])"
proof -
  have a: "(1 :: nat) < length [(6 :: int, 4096 :: int), (17, 3219913727), (40, 7)]"
    by simp
  from render_entries_aligned [OF a, of Map.empty] a show ?thesis
    by blast
qed

text \<open>
  C36 (error). Best-effort strings: in self mode, when no string can be read from the
  process's memory, \<open>--try-strings\<close> changes nothing; the program prints exactly what
  it prints without the option, every pointer as a hexadecimal number.
\<close>

theorem unreadable_strings_degrade:
  assumes "decode_auxv args = None" and "\<forall>a. read_string env a = None"
  shows "auxv_main env args content = auxv_main env (args\<lparr>try_strings := False\<rparr>) content"
  using assms
  by (simp add: auxv_main_def build_str_cache_no_strings Let_def split: sum.splits)

theorem unreadable_strings_degrade_witness:
  "decode_auxv \<lparr>decode_auxv = None, decode_arch = None, decode_hwcap_opt = False, try_strings = True\<rparr> = None
   \<and> (\<forall>a. read_string \<lparr>host = \<lparr>native_ul_size = 8, byte_order = Little\<rparr>, machine = ''aarch64'',
        pid = 1, read_string = (\<lambda>a. None)\<rparr> a = None)
   \<and> auxv_main \<lparr>host = \<lparr>native_ul_size = 8, byte_order = Little\<rparr>, machine = ''aarch64'',
        pid = 1, read_string = (\<lambda>a. None)\<rparr>
        \<lparr>decode_auxv = None, decode_arch = None, decode_hwcap_opt = False, try_strings = True\<rparr>
        (pack_entries Little QQ [(16, 4096)])
     = auxv_main \<lparr>host = \<lparr>native_ul_size = 8, byte_order = Little\<rparr>, machine = ''aarch64'',
        pid = 1, read_string = (\<lambda>a. None)\<rparr>
        (\<lparr>decode_auxv = None, decode_arch = None, decode_hwcap_opt = False, try_strings = True\<rparr>
           \<lparr>try_strings := False\<rparr>)
        (pack_entries Little QQ [(16, 4096)])"
proof -
  let ?args = "\<lparr>decode_auxv = None, decode_arch = None, decode_hwcap_opt = False, try_strings = True\<rparr>"
  let ?env = "\<lparr>host = \<lparr>native_ul_size = 8, byte_order = Little\<rparr>, machine = ''aarch64'',
        pid = 1, read_string = (\<lambda>a. None)\<rparr>"
  have a: "decode_auxv ?args = None" by simp
  have b: "\<forall>a. read_string ?env a = None" by simp
  from unreadable_strings_degrade [OF a b] a b show ?thesis
    by blast
qed

text \<open>
  C37 (functional, a gap). The message \<open>no known mapping for arch\<close> does not mean that
  the architecture is unknown: it is printed for every architecture, \<open>aarch64\<close>
  included, whenever the vector has no capability bit set (no \<open>AT_HWCAP\<close> or
  \<open>AT_HWCAP2\<close> entry, or both zero).
\<close>

theorem hwcap_block_no_bits:
  assumes "first_value 17 entries = 0" and "first_value 26 entries = 0"
  shows "hwcap_block arch entries =
           [[], ''Decoded HWCAP: (no known mapping for arch='' @ arch @ '')'']"
  using assms by (simp add: hwcap_block_def decode_hwcap_0)

theorem hwcap_block_no_bits_witness:
  "first_value 17 [(6, 4096), (17, 0)] = 0 \<and> first_value 26 [(6, 4096), (17, 0)] = 0
   \<and> hwcap_block ''aarch64'' [(6, 4096), (17, 0)] =
        [[], ''Decoded HWCAP: (no known mapping for arch='' @ ''aarch64'' @ '')'']"
proof -
  have a: "first_value 17 [(6, 4096), (17, 0)] = 0" by simp
  have b: "first_value 26 [(6, 4096), (17, 0)] = 0" by simp
  from hwcap_block_no_bits [OF a b] a b show ?thesis
    by blast
qed

end
