(* ===== verification/Spec2Isabelle.thy ===== *)
theory Spec2Isabelle
  imports Prelude PyString Floats PyRegex Registry Classifier AddressField Inspect FileInfo
    Filesystem Tools Arm64Main Auxv AuxvMachine Hwcap AuxvReport
begin

text \<open>
  A verification development for the two capability-inspection tools of the repository:
  \<^verbatim>\<open>src/tools/arm64.inspect.py\<close>, which classifies the instructions of a disassembled
  ARM64 binary into instruction-set extensions, and \<^verbatim>\<open>src/tools/auxv.print.py\<close>, which
  decodes a Linux auxiliary vector and names the hardware-capability bits in it.

  \<^bold>\<open>The program.\<close> The two tools share no code. Each is a pipeline that ends in a
  report:

  \<^item> \<^verbatim>\<open>arm64.inspect.py\<close>: \<open>find_llvm_objdump\<close> looks for the disassembler; the constructor
    of \<open>BinaryInspector\<close> checks that the binary exists; the method \<open>inspect\<close> runs \<open>file\<close>
    and the disassembler, reads the size, and builds the report: \<open>parse_file_info\<close>
    extracts the fields of the description, \<open>count_instructions\<close> scans the disassembly
    once with the pattern \<open>.\<close> for the total and once per entry of the table
    \<open>INSPECT_ARRAY\<close> (category name to regular expression). \<open>main\<close> prints the report and
    turns exceptions into a message and the exit code 1. Five more methods
    (\<open>get_file_size\<close>, \<open>get_symbols\<close>, \<open>get_build_id\<close>, \<open>get_embedded_strings\<close>,
    \<open>find_sample_instructions\<close>) are defined and not called by \<open>main\<close>.
  \<^item> \<^verbatim>\<open>auxv.print.py\<close>: \<open>parse_auxv\<close>, which cuts a byte buffer into pairs of machine
    words until a pair with tag 0; the tables \<open>AARCH64_HWCAP\<close>, \<open>AARCH64_HWCAP2\<close>,
    \<open>X86_HWCAP\<close> and \<open>AT_NAMES\<close>; \<open>bits_to_names\<close> and \<open>decode_hwcap\<close>, which expand a
    bitmask into names; and \<open>main\<close>, which prints one aligned line per pair and the
    decoded capability block.

  \<^bold>\<open>The theories.\<close> Python values are modelled as follows: a \<open>str\<close> is a \<open>string\<close> (code
  points below 256), a \<open>bytes\<close> object a list of 8-bit words, an \<open>int\<close> an \<open>int\<close>, a
  \<open>float\<close> the rational number that the double stands for, a \<open>dict\<close> an association
  list in insertion order, a raised exception the left injection of a sum type, a loop
  a recursive function. What a tool asks of the machine (files, other programs, the
  environment) is read from a record of answers that is a parameter of the model.

  \<^item> \<open>Prelude\<close>: type names, fact collections, list lemmas, and the slice \<open>py_slice\<close>.
  \<^item> \<open>PyString\<close>: the string methods the tools call: \<open>split_on\<close> (\<open>str.split(sep)\<close>),
    \<open>join\<close>, \<open>strip\<close>, \<open>starts_with\<close>, \<open>contains\<close>, and \<open>fmt_d\<close>, \<open>fmt_x\<close> for the formats
    \<open>%d\<close> and \<open>%x\<close>; with the round trips between \<open>split_on\<close> and \<open>join\<close> and between
    \<open>digits_of\<close> and \<open>value_of\<close>.
  \<^item> \<open>Floats\<close>: the float arithmetic of \<open>inspect\<close> and the float formats of \<open>main\<close>.
    \<open>rd\<close> rounds a rational to the nearest double, ties to even, with 53 bits and
    the subnormal grid \<open>2\<^sup>-\<^sup>1\<^sup>0\<^sup>7\<^sup>4\<close>; \<open>float_of_int\<close>, \<open>float_mul\<close>, \<open>float_div\<close> and
    \<open>int_truediv\<close> are the exact operations followed by \<open>rd\<close>; \<open>fmt_f\<close> is the format
    \<open>.<p>f\<close> and \<open>float_repr\<close> is \<open>str\<close> of a float. The lemmas show that \<open>rd\<close> returns a
    double, that no double is nearer, that integers below \<open>2\<^sup>5\<^sup>3\<close> are exact, and that
    rounding does not cross an integer.
  \<^item> \<open>PyRegex\<close>: the fragment of \<open>re\<close> that the patterns of the tool are written in. The
    denotation of an expression is the inductive predicate \<open>matches\<close>; \<open>re_search\<close> is an
    executable matcher by derivatives, and \<open>re_search_correct\<close> shows that it decides
    \<open>pattern_spec\<close>, the existence of a matching piece of the line (at the start of the
    line for a pattern that begins with \<open>^\<close>). Only the Boolean result of \<open>re.search\<close> and
    \<open>re.match\<close> is modelled here; the groups of \<open>parse_file_info\<close> are in \<open>FileInfo\<close>.
  \<^item> \<open>Registry\<close>: \<open>INSPECT_ARRAY\<close>, entry by entry in the order of the source, as syntax
    trees of the pattern strings (\<open>mnemonics\<close> for \<open>\s(a|b|...)\<close>, \<open>operand\<close> for
    \<open>m\s+x\<close>); the names are distinct and every pattern starts with \<open>\s\<close> (\<open>guarded\<close>).
  \<^item> \<open>Classifier\<close>: \<open>count_loop\<close> and \<open>count_instructions\<close>, \<open>sample_loop\<close> and
    \<open>find_sample_instructions\<close>, with the test \<open>insn_line_re\<close> for an instruction line
    (\<open>^\s+[0-9a-f]+:\<close>). The lemmas characterise both loops as a filter over the lines
    (\<open>count_instructions_filter\<close>, \<open>find_sample_instructions_take\<close>) and \<open>counted\<close> by the
    denotations of the two patterns (\<open>counted_iff\<close>).
  \<^item> \<open>AddressField\<close>: a test \<open>safe\<close> on the syntax of a pattern, and the lemma
    \<open>skip_fields\<close> that a pattern which passes it finds nothing in the offset and the
    encoding of a line; the test is evaluated on the registry.
  \<^item> \<open>Inspect\<close>: the computation of \<open>BinaryInspector.inspect\<close> on the data it has
    fetched, as the function \<open>inspect\<close> of the name, the parsed description, the size
    and the disassembly: the loop over the registry as the fold \<open>ext_loop\<close> of \<open>ext_step\<close>
    on the record \<open>ext_state\<close> of the three variables it updates, the percentage in
    floating point, the ordered dictionary operations \<open>od_set\<close> and \<open>od_update\<close>; and
    the printing loop of \<open>main\<close>, \<open>print_results\<close>, with \<open>print_line\<close> for the three
    formats. \<open>inspect_eq\<close> gives the report in closed form; the properties are read
    off it.
  \<^item> \<open>FileInfo\<close>: \<open>parse_file_info\<close>, field by field. Its patterns have one group and
    are linear (literals and runs \<open>[...]+\<close> in sequence); \<open>lin_match\<close> computes the text
    of the group by taking every run as long as it can. \<open>lin_match_sound\<close> and
    \<open>lin_match_complete\<close> relate it to the denotation: for a pattern in which no run can
    be cut short (\<open>det\<close>, which holds for the patterns of the method) it finds a match
    whenever there is one, and the longest. \<open>inspect_file\<close> is \<open>inspect\<close> on the parsed
    description.
  \<^item> \<open>Filesystem\<close>: \<open>pathlib.Path\<close> on POSIX (\<open>to_path\<close>, \<open>path_str\<close>, \<open>path_name\<close>);
    the record \<open>world\<close> of what the machine answers (\<open>Path.exists\<close>, \<open>stat\<close>,
    \<open>shutil.which\<close>, the home directory, \<open>glob.glob\<close>, \<open>subprocess.run\<close>, the names of
    signals); \<open>expand_home\<close>; and the text of a \<open>CalledProcessError\<close>, with \<open>repr\<close> of a
    string.
  \<^item> \<open>Tools\<close>: \<open>find_llvm_objdump\<close> with its loop \<open>first_glob\<close>; the constructor
    \<open>new_inspector\<close>; the methods \<open>get_file_info\<close>, \<open>disassemble\<close>, \<open>get_file_size\<close> (loop
    \<open>size_loop\<close>), \<open>get_symbols\<close> and \<open>get_embedded_strings\<close> (loop \<open>grep_loop\<close>),
    \<open>get_build_id\<close> (loop \<open>build_id_loop\<close>); and \<open>re_search_ignorecase\<close>, the search with
    \<open>re.IGNORECASE\<close>, as the plain search of the lower-case pattern in the lower-case
    line.
  \<^item> \<open>Arm64Main\<close>: \<open>run_inspect\<close>, the method \<open>inspect\<close> with its calls in the order of
    the source, and \<open>arm64_main\<close>, \<open>main\<close> after argument parsing with the two exception
    handlers (\<open>handler\<close>): a function from the \<open>world\<close> and the arguments to the lines
    on both streams, the traceback flag and the exit code. \<open>arm64_main_eq\<close> is the run
    in closed form.
  \<^item> \<open>Auxv\<close>: \<open>parse_auxv\<close> with its loop \<open>parse_loop\<close> (an index into the buffer, as
    in the source), the choice of word size \<open>ul_size_of\<close> and format \<open>fmt_step\<close>, and
    \<open>struct_unpack\<close> for the formats \<open>QQ\<close> and \<open>II\<close>. The platform (native word size,
    byte order) is the record \<open>platform\<close>. The reference \<open>decode_spec\<close> cuts the buffer
    into full chunks and keeps the pairs before the first tag 0; the encoder
    \<open>pack_entries\<close> is its inverse on entries in range.
  \<^item> \<open>AuxvMachine\<close>: the same loop as a machine: the state \<open>loop_state\<close> (index,
    entries, control), one round \<open>loop_next\<close>, the step relation \<open>loop_step\<close> with one
    rule per way through the body, the reachable states, and the loop run by
    \<open>while_option\<close> (\<open>run_loop\<close>).
  \<^item> \<open>Hwcap\<close>: the three capability tables, \<open>bits_to_names\<close>, \<open>names_line\<close> and
    \<open>decode_hwcap\<close>; the tables are \<open>well_formed\<close> (no bit and no name twice).
  \<^item> \<open>AuxvReport\<close>: \<open>main\<close> of \<^verbatim>\<open>auxv.print.py\<close> after argument parsing, as the function
    \<open>auxv_main\<close> from the environment (platform, machine name, process id, a reader of
    strings in memory), the options and the bytes read, to the lines printed on the two
    streams or the error raised; with \<open>AT_NAMES\<close>, \<open>render_entry\<close>, \<open>build_str_cache\<close>
    and \<open>hwcap_block\<close>.

  \<^bold>\<open>What is shown.\<close> For the classifier: the count is the number of instruction lines
  in the denotation of the pattern, the total counts every instruction line and bounds
  every count, samples are the first counted lines, stripped, and for all categories
  but six the offset and the encoding of a line never contribute to a count. For the
  report: its keys are fixed, the detected and undetected categories partition the
  registry, percentages computed in floating point lie in \<open>[0, 100]\<close>, and the printing
  loop never raises on a report. For the run of \<^verbatim>\<open>arm64.inspect.py\<close>: the search for the
  disassembler in closed form, a successful run prints the report of what the other
  programs returned, a missing file ends the run with a message and nothing printed,
  every run ends with exit code 0 and a whole report or with exit code 1 and none, and
  a failing disassembler is reported as a binary without instructions. For the helper
  methods: what each returns, on success and on every failure. For the file
  description: a field has its default exactly when its pattern matches nowhere, and a
  group that is found is in the denotation of the pattern. For the decoder:
  \<open>parse_auxv\<close> refines \<open>decode_spec\<close>, decodes what \<open>pack_entries\<close> encodes, ignores a
  truncated tail, and fails exactly on a word size other than 4 or 8; its loop, as a
  machine, has no infinite run, halts within one round per stride and one more, keeps
  the decoded strides as an invariant, and agrees with the recursive definition. For
  the expander: a name is listed exactly when its bit is set, bits outside the table
  are ignored, and on a well-formed table the names determine the bits of the table.
  For the auxv report: names are unique per tag, the columns are aligned, and
  unreadable strings fall back to hexadecimal. This theory adds the decoder and the
  report composed on an encoded buffer, and one closed run of each tool.

  \<^bold>\<open>Bounds.\<close> \<open>parse_loop\<close> terminates because the index grows by the stride, which the
  caller has fixed to 8 or 16; a stride of 0, which the caller never passes, is the
  error \<open>RangeStepZero\<close> that \<open>range\<close> raises. \<open>run_loop\<close> is a \<open>while_option\<close>; that it
  returns is a theorem. \<open>digits_of\<close> terminates because the number shrinks. The
  search \<open>shortest\<close> for the digits of \<open>str\<close> of a float takes fuel 17, one per number of
  significant digits tried: seventeen digits identify a double, and with the fuel used
  up the seventeen correctly rounded digits are returned. Integers are unbounded as in
  Python; the fields of a decoded pair are shown to be below \<open>2 ^ 32\<close> or \<open>2 ^ 64\<close>, by
  the word size. Floats have no largest value in the model: the overflow of a
  conversion or a product, which needs more than \<open>10\<^sup>3\<^sup>0\<^sup>0\<close> instruction lines or bytes,
  is not represented. The bound \<open>2\<^sup>4\<^sup>6\<close> on the number of instruction lines in the
  theorem on percentages is what keeps \<open>count * 100.0\<close> exact.

  \<^bold>\<open>What is not modelled.\<close> The translation of a pattern string to its syntax tree
  (\<open>re.compile\<close>): \<open>Registry\<close> holds the trees, and the pattern argument of
  \<open>get_symbols\<close> and \<open>get_embedded_strings\<close> is a tree, so a pattern that does not compile
  is not a case. Code points from 256 on. The general backtracking search of \<open>re\<close> for
  the text of a group: the patterns of \<open>parse_file_info\<close> are deterministic, so the
  greedy match is the one that backtracking finds; this is argued above, not proved
  against a model of backtracking. The programs that the tool runs and the file
  system: their answers are the fields of \<open>world\<close>, with the exceptions that starting a
  program or calling \<open>stat\<close> can raise; an exception of \<open>Path.exists\<close> other than the
  ones it turns into \<open>False\<close> is not a case. The text of a traceback: a run records
  that one was printed. The argument parsers (\<open>argparse\<close>), which are library code
  that the sources only configure: the parsed arguments are the records \<open>arm64_args\<close>
  and \<open>options\<close>. In \<^verbatim>\<open>auxv.print.py\<close>, opening the auxv file and \<open>read_string_from_maps\<close>,
  which reads the memory of the process: the bytes read are an argument and the reader
  of strings is a field of the environment.
\<close>

section \<open>Decoder and report composed\<close>

text \<open>
  C29 (refinement). In file mode, on a buffer that encodes entries with non-zero tags,
  then a pair with tag 0, then anything, for an architecture hint with a word size of 4
  or 8, \<open>main\<close> prints the heading with the file and the hint, one line per encoded
  entry from an empty string cache, and the capability block if it was asked for; the
  warning goes to the error stream exactly when \<open>--try-strings\<close> was given.
\<close>

theorem auxv_main_file_mode:
  assumes "hint \<noteq> []"
    and "fmt_step (ul_size_of (host env) (Some hint)) = Inr (f, step)"
    and "list_all (valid_entry f) es" and "in_range f v"
  shows "auxv_main env
      \<lparr>decode_auxv = Some path, decode_arch = Some hint, decode_hwcap_opt = h, try_strings = ts\<rparr>
      (pack_entries (byte_order (host env)) f es @ pack_entry (byte_order (host env)) f (0, v) @ rest)
    = Inr \<lparr>stdout = [''auxv from File: '' @ path @ '' (arch='' @ hint @ ''):'']
              @ render_entries Map.empty es @ (if h then hwcap_block hint es else []),
           stderr = (if ts then [''Warning: --try-strings ignored in file mode''] else [])\<rparr>"
  using assms
  by (simp add: auxv_main_def parse_auxv_Inr decode_spec_pack decode_spec_null)

theorem auxv_main_file_mode_witness:
  "stdout (projr (auxv_main
      \<lparr>host = \<lparr>native_ul_size = 4, byte_order = Big\<rparr>, machine = ''armv7l'', pid = 1,
        read_string = (\<lambda>a. None)\<rparr>
      \<lparr>decode_auxv = Some ''a.bin'', decode_arch = Some ''aarch64'', decode_hwcap_opt = False,
        try_strings = False\<rparr>
      (pack_entries Big QQ [(6, 4096)] @ pack_entry Big QQ (0, 0) @ [])))
   = [''auxv from File: a.bin (arch=aarch64):''] @ render_entries Map.empty [(6, 4096)]"
proof -
  let ?env = "\<lparr>host = \<lparr>native_ul_size = 4, byte_order = Big\<rparr>, machine = ''armv7l'', pid = 1,
        read_string = (\<lambda>a. None)\<rparr>"
  have a: "fmt_step (ul_size_of (host ?env) (Some ''aarch64'')) = Inr (QQ, 16)"
    by (simp add: fmt_step_def ul_size_of_def)
  have b: "list_all (valid_entry QQ) [(6, 4096)]"
    by (simp add: valid_entry_def in_range_def)
  have c: "in_range QQ 0"
    by (simp add: in_range_def)
  from auxv_main_file_mode [OF _ a b c, of "''a.bin''" False False "[]"] show ?thesis
    by simp
qed

section \<open>One run of each tool\<close>

text \<open>
  Example. A run of \<^verbatim>\<open>auxv.print.py\<close> in file mode on a 64-bit little-endian
  host, with the hint \<open>i386\<close> and both options, on a buffer of three pairs, the
  terminator and three stray bytes: the page size is printed in decimal, the capability
  word and the unknown tag 40 in hexadecimal, the names of the set bits of the x86 table
  sorted, and the warning on the error stream.
\<close>

theorem auxv_report_example:
  "auxv_main \<lparr>host = \<lparr>native_ul_size = 8, byte_order = Little\<rparr>, machine = ''x86_64'',
       pid = 4242, read_string = (\<lambda>a. None)\<rparr>
     \<lparr>decode_auxv = Some ''auxv.bin'', decode_arch = Some ''i386'',
       decode_hwcap_opt = True, try_strings = True\<rparr>
     [6, 0, 0, 0, 0, 0x10, 0, 0,  17, 0, 0, 0, 0xff, 0xfb, 0xeb, 0xbf,
      40, 0, 0, 0, 7, 0, 0, 0,  0, 0, 0, 0, 0, 0, 0, 0,  9, 9, 9]
   = Inr \<lparr>stdout = [''auxv from File: auxv.bin (arch=i386):'',
       ''AT_PAGESZ : 4096'', ''AT_HWCAP  : 0xbfebfbff'', ''AT_40     : 0x7'', [],
       ''Decoded HWCAP:'',
       ''  HWCAP:  APIC, CLFLUSH, CMOV, CX8, DE, FPU, MCA, MCE, MMX, MSR, MTRR, PAE, PAT, PGE, PSE, PSE36, SEP, SSE, SSE2, TSC, VME''],
     stderr = [''Warning: --try-strings ignored in file mode'']\<rparr>"
  by code_simp

text \<open>
  Example. A run of \<^verbatim>\<open>arm64.inspect.py\<close> at the default debug level on the machine
  \<open>example_world\<close>: the binary \<open>./x265\<close> of three megabytes, whose disassembly has the
  instructions \<open>fadd\<close> and \<open>sdot\<close>. Fourteen lines are printed: the name without the
  directory, the two categories detected, the other categories in the order of the
  registry, the fields of the description of \<open>file\<close>, and the size with one decimal.
\<close>

theorem arm64_run_example:
  "arm64_main example_world (example_args\<lparr>arg_debug := 0\<rparr>) =
     \<lparr>out_lines = [''binary_name: x265'', ''detected_extensions: asimd;asimddp'',
        ''undetected_extensions: asimdhp;asimdfhm;asimdrdm;i8mm;bf16;bf16fml;sve;sve2;svei8mm;svebf16;sveaes;svepmull;svebitperm;svesha3;svesm4;fphp;fcma;frint;aes;pmull;sha1;sha2;sha3;sha512;sm3;sm4;atomics;dcpop;dcpodp;uscat;lrcpc;ilrcpc;dgh;sb;wfxt;paca;pacg;bti;flagm;flagm2;jscvt;crc32;dit;cpuid;evtstrm'',
        ''binary_format: ELF 64-bit LSB executable'', ''arch: ARM aarch64'',
        ''elf_version: version 1 (SYSV)'', ''dynamically_linked: false'',
        ''interpreter: none'', ''android_api: none'', ''builder: unknown'',
        ''build_id_sha1: none'', ''debug_info: false'', ''stripped: true'',
        ''binary_size_mb: 3.0''],
      err_lines = [], traceback = False, exit_code = 0\<rparr>"
proof -
  have d: "join_or_none (map fst (filter (detects example_disassembly) INSPECT_ARRAY))
      = ''asimd;asimddp''"
    by code_simp
  have u: "join_or_none (map fst (filter (\<lambda>e. \<not> detects example_disassembly e) INSPECT_ARRAY)) =
    ''asimdhp;asimdfhm;asimdrdm;i8mm;bf16;bf16fml;sve;sve2;svei8mm;svebf16;sveaes;svepmull;svebitperm;svesha3;svesm4;fphp;fcma;frint;aes;pmull;sha1;sha2;sha3;sha512;sm3;sm4;atomics;dcpop;dcpodp;uscat;lrcpc;ilrcpc;dgh;sb;wfxt;paca;pacg;bti;flagm;flagm2;jscvt;crc32;dit;cpuid;evtstrm''"
    by code_simp
  have i: "parse_file_info example_description = \<lparr>binary_format = ''ELF 64-bit LSB executable'',
       parsed_info.arch = ''ARM aarch64'', elf_version = ''version 1 (SYSV)'',
       dynamically_linked = False, interpreter = ''none'',
       android_api = ''none'', builder = ''unknown'', build_id_sha1 = ''none'',
       debug_info = False, stripped = True\<rparr>"
    by code_simp
  have "report_lines 0 (output_items ''x265'' (parse_file_info example_description)
        (int_truediv 3145728 (1024 * 1024)) t de un) =
     [''binary_name: x265'', ''detected_extensions: '' @ de, ''undetected_extensions: '' @ un,
      ''binary_format: ELF 64-bit LSB executable'', ''arch: ARM aarch64'',
      ''elf_version: version 1 (SYSV)'', ''dynamically_linked: false'',
      ''interpreter: none'', ''android_api: none'', ''builder: unknown'',
      ''build_id_sha1: none'', ''debug_info: false'', ''stripped: true'',
      ''binary_size_mb: 3.0'']" for t de un
    unfolding i output_items_eq report_lines_def by code_simp
  then show ?thesis
    by (simp add: example_run inspect_eq report_lines_def skipped_ext_items d u)
qed

end
